theory Spec2Isabelle
  imports Main "HOL-Library.Sublist" "HOL-Library.AList"
begin

section \<open>JavaScript values used by the extension\<close>

text \<open>
  Strings are byte lists (UTF-8). \<open>toLowerCase\<close> lowers the ASCII letters and leaves every
  other byte alone; \<open>str_includes\<close> is \<open>String.prototype.includes\<close>; \<open>js_or\<close> is a chain of
  \<open>a || b || ...\<close> on strings, where the empty string and \<open>undefined\<close> (also modelled as
  the empty string) are falsy.
\<close>

definition lower_char :: "char \<Rightarrow> char" where
  "lower_char c =
     (let n = (of_char c :: nat) in if 65 \<le> n \<and> n \<le> 90 then char_of (n + 32) else c)"

definition toLowerCase :: "string \<Rightarrow> string" where
  "toLowerCase s = map lower_char s"

fun str_includes :: "string \<Rightarrow> string \<Rightarrow> bool" where
  "str_includes [] k = (k = [])"
| "str_includes (c # cs) k = (prefix k (c # cs) \<or> str_includes cs k)"

fun js_or :: "string list \<Rightarrow> string" where
  "js_or [] = []"
| "js_or (s # ss) = (if s \<noteq> [] then s else js_or ss)"

definition quoted :: "string \<Rightarrow> string" where
  "quoted s = CHR 0x22 # s @ [CHR 0x22]"

text \<open>
  The outcome of a call, or of awaiting a promise: a value, a thrown \<open>Error\<close> with its
  message (a rejected promise), or a promise that never settles.
\<close>

datatype 'a res = Ok 'a | Throw string | Pending

section \<open>The page as the content script sees it\<close>

text \<open>
  An element is the snapshot a DOM query hands back: its identity, the properties the
  strategies read (\<open>textContent\<close>, \<open>value\<close>, \<open>title\<close>, \<open>disabled\<close>) and the three
  properties of \<open>window.getComputedStyle(element)\<close> that \<open>isElementClickable\<close> reads.
\<close>

record element =
  eid :: nat
  textContent :: string
  value_attr :: string
  title :: string
  disabled :: bool
  display :: string
  visibility :: string
  opacity :: string

text \<open>
  The object a strategy returns: \<open>{ success, method, <key>: <value> }\<close>, the last field
  being \<open>element\<close>, \<open>text\<close>, \<open>label\<close>, \<open>button\<close> or \<open>function\<close>. The field
  \<open>method\<close> is \<open>method_name\<close> here.
\<close>

record detection =
  success :: bool
  method_name :: string
  extra :: "string \<times> string"

text \<open>
  What the message listener passes to \<open>sendResponse\<close>: the strategy's result, or
  \<open>{ success: false, error: message }\<close>.
\<close>

datatype response = Result detection | Failure string

text \<open>
  Everything the content script does to the outside world, in the order it does it.
  \<open>SharedLog message type\<close> is a call of \<open>ZohoAttendanceShared.log\<close>; \<open>Clicking\<close> is the
  \<open>console.log\<close> that opens \<open>clickElement\<close>; \<open>Sleep ms\<close> is \<open>await sleep(ms)\<close>; the other
  constructors are the DOM calls and property writes of the source.
\<close>

datatype event =
    SharedLog string string
  | Clicking element
  | ScrollIntoView element
  | Sleep nat
  | SetStyle element string string
  | SetCssText element "(string \<times> string) list"
  | Focus element
  | Click element
  | DispatchEvent element string
  | Submit element
  | CallFunction string
  | SendResponse response

text \<open>
  The world of one content script: the events so far and the inline style declarations
  (\<open>element.style\<close>) of every element, by element identity.
\<close>

record world =
  trace :: "event list"
  styles :: "nat \<Rightarrow> (string \<times> string) list"

datatype fn_outcome = Returns | Throws string | NeverSettles

text \<open>
  The browser: the answers of the page to the queries of the source. Every answer may
  depend on the world at the time of the query. A query that throws (an invalid
  selector, say) answers \<open>Inl message\<close>. \<open>window_fn w name\<close> is \<open>None\<close> when
  \<open>typeof window[name]\<close> is not \<open>'function'\<close>, and otherwise what awaiting its call gives.
  \<open>dom_throws w call\<close> is the message of the exception the DOM call throws, if it throws.
  \<open>navigated w\<close> says whether the page has started to navigate away; nothing in the
  source reads it.
\<close>

record browser =
  querySelectorAll :: "world \<Rightarrow> string \<Rightarrow> string + element list"
  querySelector :: "world \<Rightarrow> string \<Rightarrow> string + element option"
  evaluate :: "world \<Rightarrow> string \<Rightarrow> string + element option"
  element_querySelectorAll :: "world \<Rightarrow> element \<Rightarrow> string \<Rightarrow> string + element list"
  closest :: "world \<Rightarrow> element \<Rightarrow> string \<Rightarrow> element option"
  window_fn :: "world \<Rightarrow> string \<Rightarrow> fn_outcome option"
  dom_throws :: "world \<Rightarrow> event \<Rightarrow> string option"
  readyState :: "world \<Rightarrow> string"
  load_fires :: "world \<Rightarrow> bool"
  navigated :: "world \<Rightarrow> bool"

type_synonym 'a action = "world \<Rightarrow> 'a res \<times> world"

definition and_then ::
  "('s \<Rightarrow> 'a res \<times> 's) \<Rightarrow> ('a \<Rightarrow> 's \<Rightarrow> 'b res \<times> 's) \<Rightarrow> 's \<Rightarrow> 'b res \<times> 's" where
  "and_then m f w =
     (case m w of
        (Ok x, w') \<Rightarrow> f x w'
      | (Throw e, w') \<Rightarrow> (Throw e, w')
      | (Pending, w') \<Rightarrow> (Pending, w'))"

definition emit :: "event \<Rightarrow> unit action" where
  "emit ev w = (Ok (), w\<lparr>trace := trace w @ [ev]\<rparr>)"

definition dom_call :: "browser \<Rightarrow> event \<Rightarrow> unit action" where
  "dom_call env ev w =
     (case dom_throws env w ev of
        None \<Rightarrow> (Ok (), w\<lparr>trace := trace w @ [ev]\<rparr>)
      | Some m \<Rightarrow> (Throw m, w\<lparr>trace := trace w @ [ev]\<rparr>))"

fun forEach :: "('a \<Rightarrow> unit action) \<Rightarrow> 'a list \<Rightarrow> unit action" where
  "forEach f [] w = (Ok (), w)"
| "forEach f (x # xs) w = and_then (f x) (\<lambda>_. forEach f xs) w"

section \<open>shared.js\<close>

definition attendanceSelectors :: "string list" where
  "attendanceSelectors =
    [''[data-action='' @ quoted ''checkin'' @ '']'',
     ''[data-action='' @ quoted ''checkout'' @ '']'',
     ''button[title*='' @ quoted ''Check In'' @ '']'',
     ''button[title*='' @ quoted ''Check Out'' @ '']'',
     ''button[title*='' @ quoted ''Punch In'' @ '']'',
     ''button[title*='' @ quoted ''Punch Out'' @ '']'',
     ''.attendance-btn'',
     ''.checkin-btn'',
     ''.checkout-btn'',
     ''.punch-btn'',
     ''input[value*='' @ quoted ''Check In'' @ '']'',
     ''input[value*='' @ quoted ''Check Out'' @ '']'',
     ''input[value*='' @ quoted ''Punch In'' @ '']'',
     ''input[value*='' @ quoted ''Punch Out'' @ '']'',
     ''button:contains('' @ quoted ''Check In'' @ '')'',
     ''button:contains('' @ quoted ''Check Out'' @ '')'',
     ''button:contains('' @ quoted ''Punch In'' @ '')'',
     ''button:contains('' @ quoted ''Punch Out'' @ '')'',
     ''a:contains('' @ quoted ''Check In'' @ '')'',
     ''a:contains('' @ quoted ''Check Out'' @ '')'',
     ''.zpd-attendance button'',
     ''.attendance-widget button'',
     ''.attendance-panel button'',
     ''#attendance button'',
     ''.quick-actions button'']"

definition isElementClickable :: "element option \<Rightarrow> bool" where
  "isElementClickable element =
     (case element of
        None \<Rightarrow> False
      | Some e \<Rightarrow>
          display e \<noteq> ''none'' \<and> visibility e \<noteq> ''hidden'' \<and> opacity e \<noteq> ''0'' \<and>
          \<not> disabled e)"

text \<open>
  \<open>clickElement\<close>: every DOM method call is a \<open>dom_call\<close> (it may throw, and then the rest
  of the function is skipped); \<open>element.style.outline = v\<close> and
  \<open>element.style.backgroundColor = v\<close> are \<open>set_style\<close>; reading and writing
  \<open>element.style.cssText\<close> is reading and replacing the inline declarations of the element.
  \<open>shared_log\<close> is \<open>ZohoAttendanceShared.log\<close> (the console line also carries a timestamp).
\<close>

definition sleep :: "nat \<Rightarrow> unit action" where
  "sleep ms = emit (Sleep ms)"

definition set_style :: "element \<Rightarrow> string \<Rightarrow> string \<Rightarrow> unit action" where
  "set_style e prop v w =
     (Ok (), w\<lparr>trace := trace w @ [SetStyle e prop v],
               styles := (styles w)(eid e := AList.update prop v (styles w (eid e)))\<rparr>)"

definition set_cssText :: "element \<Rightarrow> (string \<times> string) list \<Rightarrow> unit action" where
  "set_cssText e css w =
     (Ok (), w\<lparr>trace := trace w @ [SetCssText e css],
               styles := (styles w)(eid e := css)\<rparr>)"

definition submit_closest_form :: "browser \<Rightarrow> element \<Rightarrow> unit action" where
  "submit_closest_form env element w =
     (case closest env w element ''form'' of
        None \<Rightarrow> (Ok (), w)
      | Some form \<Rightarrow> dom_call env (Submit form) w)"

definition clickElement :: "browser \<Rightarrow> element \<Rightarrow> unit action" where
  "clickElement env element =
     and_then (emit (Clicking element)) (\<lambda>_.
     and_then (dom_call env (ScrollIntoView element)) (\<lambda>_.
     and_then (sleep 500) (\<lambda>_ w.
       (let originalStyle = styles w (eid element) in
        and_then (set_style element ''outline'' ''3px solid #4ade80'') (\<lambda>_.
        and_then (set_style element ''backgroundColor'' ''rgba(74, 222, 128, 0.2)'') (\<lambda>_.
        and_then (dom_call env (Focus element)) (\<lambda>_.
        and_then (dom_call env (Click element)) (\<lambda>_.
        and_then (forEach (\<lambda>eventType. dom_call env (DispatchEvent element eventType))
                    [''mousedown'', ''mouseup'', ''click'']) (\<lambda>_.
        and_then (submit_closest_form env element) (\<lambda>_.
        and_then (sleep 1000) (\<lambda>_.
        set_cssText element originalStyle))))))) w))))"

definition shared_log :: "string \<Rightarrow> string \<Rightarrow> world \<Rightarrow> world" where
  "shared_log message ty w = w\<lparr>trace := trace w @ [SharedLog message ty]\<rparr>"

section \<open>The content script\<close>

text \<open>
  The loops of the strategies are recursive functions that answer \<open>Ok None\<close> when the loop
  runs to its end without returning, \<open>Ok (Some result)\<close> when the loop body returns
  \<open>result\<close>, and \<open>Throw\<close> or \<open>Pending\<close> when a call inside throws or never settles.
\<close>

definition found :: "string \<Rightarrow> string \<times> string \<Rightarrow> detection option action" where
  "found m x w = (Ok (Some \<lparr>success = True, method_name = m, extra = x\<rparr>), w)"

definition or_throw :: "string \<Rightarrow> detection option action \<Rightarrow> detection action" where
  "or_throw message loop w =
     (case loop w of
        (Ok (Some result), w') \<Rightarrow> (Ok result, w')
      | (Ok None, w') \<Rightarrow> (Throw message, w')
      | (Throw e, w') \<Rightarrow> (Throw e, w')
      | (Pending, w') \<Rightarrow> (Pending, w'))"

subsection \<open>Strategy 1: selectors\<close>

definition selector_keywords :: "string \<Rightarrow> string list" where
  "selector_keywords ty =
     (if ty = ''checkin''
      then [''check in'', ''checkin'', ''punch in'', ''punchin'', ''start work'', ''clock in'']
      else [''check out'', ''checkout'', ''punch out'', ''punchout'', ''end work'', ''clock out''])"

fun selector_elements :: "browser \<Rightarrow> string list \<Rightarrow> string \<Rightarrow> element list \<Rightarrow>
    detection option action" where
  "selector_elements env keywords selector [] w = (Ok None, w)"
| "selector_elements env keywords selector (element # rest) w =
     (let text = toLowerCase (js_or [textContent element, value_attr element, title element]);
          hasKeyword = list_ex (\<lambda>keyword. str_includes text keyword) keywords
      in if hasKeyword \<and> isElementClickable (Some element)
         then and_then (clickElement env element) (\<lambda>_. found ''selector'' (''element'', selector)) w
         else selector_elements env keywords selector rest w)"

fun selector_loop :: "browser \<Rightarrow> string list \<Rightarrow> string list \<Rightarrow> detection option action" where
  "selector_loop env keywords [] w = (Ok None, w)"
| "selector_loop env keywords (selector # rest) w =
     (case querySelectorAll env w selector of
        Inl e \<Rightarrow> (Throw e, w)
      | Inr elements \<Rightarrow>
          (case selector_elements env keywords selector elements w of
             (Ok None, w') \<Rightarrow> selector_loop env keywords rest w'
           | other \<Rightarrow> other))"

definition findAndClickBySelector :: "browser \<Rightarrow> string \<Rightarrow> detection action" where
  "findAndClickBySelector env ty w =
     or_throw ''No matching selectors found''
       (selector_loop env (selector_keywords ty) attendanceSelectors)
       (shared_log ''Strategy 1: Selector-based search'' ''info'' w)"

subsection \<open>Strategy 2: text\<close>

definition searchTexts :: "string \<Rightarrow> string list" where
  "searchTexts ty =
     (if ty = ''checkin''
      then [''Check In'', ''Punch In'', ''Clock In'', ''Start Work'']
      else [''Check Out'', ''Punch Out'', ''Clock Out'', ''End Work''])"

definition text_xpath :: "string \<Rightarrow> string" where
  "text_xpath searchText =
     ''//button[contains(text(), '' @ quoted searchText @ '')] | //input[@value='' @
     quoted searchText @ ''] | //a[contains(text(), '' @ quoted searchText @ '')]''"

fun text_loop :: "browser \<Rightarrow> string list \<Rightarrow> detection option action" where
  "text_loop env [] w = (Ok None, w)"
| "text_loop env (searchText # rest) w =
     (case evaluate env w (text_xpath searchText) of
        Inl e \<Rightarrow> (Throw e, w)
      | Inr singleNodeValue \<Rightarrow>
          (case singleNodeValue of
             Some node \<Rightarrow>
               if isElementClickable singleNodeValue
               then and_then (clickElement env node) (\<lambda>_. found ''text'' (''text'', searchText)) w
               else text_loop env rest w
           | None \<Rightarrow> text_loop env rest w))"

definition findAndClickByText :: "browser \<Rightarrow> string \<Rightarrow> detection action" where
  "findAndClickByText env ty w =
     or_throw ''No matching text found''
       (text_loop env (searchTexts ty))
       (shared_log ''Strategy 2: Text-based search'' ''info'' w)"

subsection \<open>Strategy 3: ARIA labels\<close>

definition ariaLabels :: "string \<Rightarrow> string list" where
  "ariaLabels ty =
     (if ty = ''checkin''
      then [''check in'', ''punch in'', ''clock in'']
      else [''check out'', ''punch out'', ''clock out''])"

definition aria_selector :: "string \<Rightarrow> string" where
  "aria_selector label =
     ''[aria-label*='' @ quoted label @ '' i], [aria-labelledby*='' @ quoted label @ '' i]''"

fun aria_loop :: "browser \<Rightarrow> string list \<Rightarrow> detection option action" where
  "aria_loop env [] w = (Ok None, w)"
| "aria_loop env (label # rest) w =
     (case querySelector env w (aria_selector label) of
        Inl e \<Rightarrow> (Throw e, w)
      | Inr element \<Rightarrow>
          (case element of
             Some el \<Rightarrow>
               if isElementClickable element
               then and_then (clickElement env el) (\<lambda>_. found ''aria'' (''label'', label)) w
               else aria_loop env rest w
           | None \<Rightarrow> aria_loop env rest w))"

definition findAndClickByAria :: "browser \<Rightarrow> string \<Rightarrow> detection action" where
  "findAndClickByAria env ty w =
     or_throw ''No matching ARIA labels found''
       (aria_loop env (ariaLabels ty))
       (shared_log ''Strategy 3: ARIA-based search'' ''info'' w)"

subsection \<open>Strategy 4: forms\<close>

definition isCorrectType :: "string \<Rightarrow> string \<Rightarrow> bool" where
  "isCorrectType ty buttonText =
     (if ty = ''checkin''
      then str_includes buttonText ''in'' \<or> str_includes buttonText ''start''
      else str_includes buttonText ''out'' \<or> str_includes buttonText ''end'')"

fun form_buttons :: "browser \<Rightarrow> string \<Rightarrow> element list \<Rightarrow> detection option action" where
  "form_buttons env ty [] w = (Ok None, w)"
| "form_buttons env ty (button # rest) w =
     (let buttonText = toLowerCase (js_or [textContent button, value_attr button])
      in if isCorrectType ty buttonText \<and> isElementClickable (Some button)
         then and_then (clickElement env button) (\<lambda>_. found ''form'' (''button'', buttonText)) w
         else form_buttons env ty rest w)"

definition form_button_selector :: string where
  "form_button_selector =
     ''button, input[type='' @ quoted ''submit'' @ ''], input[type='' @ quoted ''button'' @ '']''"

fun form_loop :: "browser \<Rightarrow> string \<Rightarrow> element list \<Rightarrow> detection option action" where
  "form_loop env ty [] w = (Ok None, w)"
| "form_loop env ty (form # rest) w =
     (let formText = toLowerCase (textContent form);
          isAttendanceForm =
            list_ex (\<lambda>keyword. str_includes formText keyword)
              [''attendance'', ''check'', ''punch'', ''clock'']
      in if isAttendanceForm
         then (case element_querySelectorAll env w form form_button_selector of
                 Inl e \<Rightarrow> (Throw e, w)
               | Inr buttons \<Rightarrow>
                   (case form_buttons env ty buttons w of
                      (Ok None, w') \<Rightarrow> form_loop env ty rest w'
                    | other \<Rightarrow> other))
         else form_loop env ty rest w)"

definition form_search :: "browser \<Rightarrow> string \<Rightarrow> detection option action" where
  "form_search env ty w =
     (case querySelectorAll env w ''form'' of
        Inl e \<Rightarrow> (Throw e, w)
      | Inr forms \<Rightarrow> form_loop env ty forms w)"

definition findAndClickByForm :: "browser \<Rightarrow> string \<Rightarrow> detection action" where
  "findAndClickByForm env ty w =
     or_throw ''No matching forms found''
       (form_search env ty)
       (shared_log ''Strategy 4: Form-based search'' ''info'' w)"

subsection \<open>Strategy 5: page functions\<close>

definition possibleFunctions :: "string list" where
  "possibleFunctions =
     [''checkIn'', ''checkOut'', ''punchIn'', ''punchOut'',
      ''markAttendance'', ''recordAttendance'', ''submitAttendance'']"

fun api_functions :: "browser \<Rightarrow> string list \<Rightarrow> detection option action" where
  "api_functions env [] w = (Ok None, w)"
| "api_functions env (funcName # rest) w =
     (case window_fn env w funcName of
        None \<Rightarrow> api_functions env rest w
      | Some outcome \<Rightarrow>
          (let w1 = w\<lparr>trace := trace w @ [CallFunction funcName]\<rparr>
           in case outcome of
                Returns \<Rightarrow> found ''api'' (''function'', funcName) w1
              | Throws message \<Rightarrow>
                  api_functions env rest
                    (shared_log (''Failed to call '' @ funcName @ '': '' @ message) ''info'' w1)
              | NeverSettles \<Rightarrow> (Pending, w1)))"

fun api_elements :: "browser \<Rightarrow> element list \<Rightarrow> detection option action" where
  "api_elements env [] w = (Ok None, w)"
| "api_elements env (element # rest) w =
     (if isElementClickable (Some element)
      then and_then (clickElement env element)
             (\<lambda>_. found ''api'' (''element'', ''attendance element'')) w
      else api_elements env rest w)"

definition attendance_selector :: string where
  "attendance_selector =
     ''[class*='' @ quoted ''attendance'' @ ''], [id*='' @ quoted ''attendance'' @ '']''"

definition api_search :: "browser \<Rightarrow> detection option action" where
  "api_search env w =
     (case api_functions env possibleFunctions w of
        (Ok None, w') \<Rightarrow>
          (case querySelectorAll env w' attendance_selector of
             Inl e \<Rightarrow> (Throw e, w')
           | Inr attendanceElements \<Rightarrow> api_elements env attendanceElements w')
      | other \<Rightarrow> other)"

definition findAndClickByAPI :: "browser \<Rightarrow> string \<Rightarrow> detection action" where
  "findAndClickByAPI env ty w =
     or_throw ''No API methods found''
       (api_search env)
       (shared_log ''Strategy 5: API-based approach'' ''info'' w)"

subsection \<open>The chain and the message listener\<close>

definition waitForPageLoad :: "browser \<Rightarrow> unit action" where
  "waitForPageLoad env w =
     (if readyState env w = ''complete'' then (Ok (), w)
      else if load_fires env w then (Ok (), w)
      else (Pending, w))"

definition strategies :: "browser \<Rightarrow> string \<Rightarrow> detection action list" where
  "strategies env ty =
     [findAndClickBySelector env ty,
      findAndClickByText env ty,
      findAndClickByAria env ty,
      findAndClickByForm env ty,
      findAndClickByAPI env ty]"

fun strategy_loop :: "string \<Rightarrow> detection action list \<Rightarrow> detection option action" where
  "strategy_loop ty [] w = (Ok None, w)"
| "strategy_loop ty (strategy # rest) w =
     (case strategy w of
        (Ok result, w') \<Rightarrow>
          if success result
          then (Ok (Some result),
                shared_log (ty @ '' successful via '' @ method_name result) ''success'' w')
          else strategy_loop ty rest w'
      | (Throw e, w') \<Rightarrow>
          strategy_loop ty rest (shared_log (''Strategy failed: '' @ e) ''error'' w')
      | (Pending, w') \<Rightarrow> (Pending, w'))"

definition performAttendance :: "browser \<Rightarrow> string \<Rightarrow> detection action" where
  "performAttendance env ty w =
     and_then (waitForPageLoad env)
       (\<lambda>_. or_throw (''Could not find '' @ ty @ '' button on this page'')
              (strategy_loop ty (strategies env ty)))
       (shared_log (''Attempting '' @ ty @ ''...'') ''info'' w)"

text \<open>
  The request of the messaging contract, \<open>{ action, type }\<close>, and the listener that
  \<open>setupMessageListener\<close> registers. The listener answers through \<open>sendResponse\<close>, once
  the promise of \<open>performAttendance\<close> settles; other actions get no answer.
\<close>

record request =
  action :: string
  rtype :: string

definition messageListener :: "browser \<Rightarrow> request \<Rightarrow> world \<Rightarrow> world" where
  "messageListener env request w =
     (if action request = ''performAttendance''
      then (case performAttendance env (rtype request) w of
              (Ok result, w') \<Rightarrow> w'\<lparr>trace := trace w' @ [SendResponse (Result result)]\<rparr>
            | (Throw message, w') \<Rightarrow>
                w'\<lparr>trace := trace w' @ [SendResponse (Failure message)]\<rparr>
            | (Pending, w') \<Rightarrow> w')
      else w)"

section \<open>The popup\<close>

text \<open>
  A tab as \<open>tabs.query\<close> reports it; \<open>url\<close> is \<open>None\<close> when the browser withholds it. What
  \<open>tabs.sendMessage\<close> gives when awaited: a rejection, the receiver's answer (\<open>None\<close> for
  \<open>undefined\<close>), or nothing at all.
\<close>

record tab =
  tab_id :: nat
  url :: "string option"

datatype delivery = Rejected string | Answered "response option" | Unanswered

record log_line =
  message :: string
  ltype :: string

datatype popup_event =
    ClassAdd string string
  | ClassRemove string string
  | SetDisabled string bool
  | TabsQuery
  | TabsSendMessage nat request
  | UpdateStatus
  | Notification string string
  | SetTimeout nat

record popup =
  logs :: "log_line list"
  logs_html :: string
  did :: "popup_event list"

text \<open>
  The popup's browser: the result of \<open>tabs.query\<close> (\<open>Inl\<close> for a rejection), the result of
  \<open>tabs.sendMessage\<close>, and the text of \<open>new Date().toLocaleTimeString()\<close>. The messages of
  the \<open>TypeError\<close>s raised by reading a property of \<open>undefined\<close> are the engine's.
\<close>

record popup_env =
  tabs_query :: "popup \<Rightarrow> string + tab list"
  tabs_sendMessage :: "popup \<Rightarrow> nat \<Rightarrow> request \<Rightarrow> delivery"
  toLocaleTimeString :: "popup \<Rightarrow> string"
  type_error :: "string \<Rightarrow> string"

definition updateLogs :: "popup \<Rightarrow> popup" where
  "updateLogs p =
     p\<lparr>logs_html :=
         concat (map (\<lambda>log. ''<div class='' @ quoted (''log-entry '' @ ltype log) @ ''>'' @
                            message log @ ''</div>'') (logs p))\<rparr>"

definition addLog :: "popup_env \<Rightarrow> string \<Rightarrow> string \<Rightarrow> popup \<Rightarrow> popup" where
  "addLog env msg ty p =
     (let timestamp = toLocaleTimeString env p;
          logEntry = ''['' @ timestamp @ ''] '' @ msg;
          unshifted = \<lparr>message = logEntry, ltype = ty\<rparr> # logs p;
          kept = (if length unshifted > 10 then butlast unshifted else unshifted)
      in updateLogs (p\<lparr>logs := kept\<rparr>))"

definition does :: "popup_event list \<Rightarrow> popup \<Rightarrow> popup" where
  "does evs p = p\<lparr>did := did p @ evs\<rparr>"

definition showNotification :: "string \<Rightarrow> string \<Rightarrow> popup \<Rightarrow> popup" where
  "showNotification msg ty p = does [Notification msg ty] p"

definition response_success :: "response option \<Rightarrow> bool" where
  "response_success r = (case r of Some (Result d) \<Rightarrow> success d | _ \<Rightarrow> False)"

definition response_error :: "response option \<Rightarrow> string" where
  "response_error r = (case r of Some (Failure e) \<Rightarrow> e | _ \<Rightarrow> [])"

text \<open>The body of the \<open>try\<close> block of \<open>performAttendanceAction\<close>.\<close>

definition attempt_action :: "popup_env \<Rightarrow> string \<Rightarrow> string \<Rightarrow> popup \<Rightarrow> unit res \<times> popup" where
  "attempt_action env act button p =
     (let p1 = does [TabsQuery] p in
      case tabs_query env p1 of
        Inl e \<Rightarrow> (Throw e, p1)
      | Inr tabs \<Rightarrow>
          (case tabs of
             [] \<Rightarrow> (Throw (type_error env ''url''), p1)
           | tab # _ \<Rightarrow>
               (case url tab of
                  None \<Rightarrow> (Throw (type_error env ''includes''), p1)
                | Some u \<Rightarrow>
                    if \<not> str_includes u ''people.zoho.com''
                    then (Throw ''Please navigate to Zoho People first'', p1)
                    else
                      (let req = \<lparr>action = ''performAttendance'', rtype = act\<rparr>;
                           p2 = does [TabsSendMessage (tab_id tab) req] p1
                       in case tabs_sendMessage env p2 (tab_id tab) req of
                            Rejected e \<Rightarrow> (Throw e, p2)
                          | Unanswered \<Rightarrow> (Pending, p2)
                          | Answered response \<Rightarrow>
                              if response_success response
                              then (Ok (),
                                    showNotification (act @ '' completed successfully'') ''success''
                                      (does [UpdateStatus, ClassAdd button ''success-flash'']
                                         (addLog env (act @ '' successful!'') ''success'' p2)))
                              else (Throw (js_or [response_error response,
                                                  ''Unknown error occurred'']), p2)))))"

definition finally_block :: "string \<Rightarrow> popup \<Rightarrow> popup" where
  "finally_block button p =
     does [ClassRemove button ''loading'', SetDisabled button False, SetTimeout 500] p"

definition performAttendanceAction :: "popup_env \<Rightarrow> string \<Rightarrow> popup \<Rightarrow> unit res \<times> popup" where
  "performAttendanceAction env act p =
     (let button = (if act = ''checkin'' then ''checkInBtn'' else ''checkOutBtn'');
          p0 = addLog env (''Attempting '' @ act @ ''...'') ''info''
                 (does [ClassAdd button ''loading'', SetDisabled button True] p)
      in case attempt_action env act button p0 of
           (Ok u, p1) \<Rightarrow> (Ok (), finally_block button p1)
         | (Throw e, p1) \<Rightarrow>
             (Ok (),
              finally_block button
                (showNotification (act @ '' failed: '' @ e) ''error''
                   (does [ClassAdd button ''error-flash'']
                      (addLog env (act @ '' failed: '' @ e) ''error'' p1))))
         | (Pending, p1) \<Rightarrow> (Pending, p1))"

section \<open>The background scheduler\<close>

text \<open>
  Time is the local wall clock in milliseconds, every day \<open>msPerDay\<close> long (no daylight
  saving shift, local time equal to the epoch's). \<open>setHours t h m\<close> is
  \<open>date.setHours(h, m, 0, 0)\<close> on the date \<open>t\<close>; \<open>addDay\<close> is
  \<open>date.setDate(date.getDate() + 1)\<close>.
\<close>

definition msPerDay :: nat where
  "msPerDay = 86400000"

definition setHours :: "nat \<Rightarrow> nat \<Rightarrow> nat \<Rightarrow> nat" where
  "setHours t h m = (t div msPerDay) * msPerDay + h * 3600000 + m * 60000"

definition addDay :: "nat \<Rightarrow> nat" where
  "addDay t = t + msPerDay"

text \<open>
  \<open>time.split(':').map(Number)\<close>, destructured into hours and minutes. \<open>js_Number\<close> covers
  the strings of decimal digits (the empty string is 0, as in JavaScript); on any other
  string, and when there is no second part, the result is \<open>None\<close>: that input
  is outside this model.
\<close>

fun split_on :: "char \<Rightarrow> string \<Rightarrow> string list" where
  "split_on sep [] = [[]]"
| "split_on sep (c # cs) =
     (if c = sep then [] # split_on sep cs
      else (case split_on sep cs of
              [] \<Rightarrow> [[c]]
            | part # parts \<Rightarrow> (c # part) # parts))"

definition digit_value :: "char \<Rightarrow> nat option" where
  "digit_value c =
     (let n = (of_char c :: nat) in if 48 \<le> n \<and> n \<le> 57 then Some (n - 48) else None)"

fun digits_value :: "nat \<Rightarrow> string \<Rightarrow> nat option" where
  "digits_value acc [] = Some acc"
| "digits_value acc (c # cs) =
     (case digit_value c of None \<Rightarrow> None | Some d \<Rightarrow> digits_value (10 * acc + d) cs)"

definition js_Number :: "string \<Rightarrow> nat option" where
  "js_Number s = digits_value 0 s"

definition parse_time :: "string \<Rightarrow> (nat \<times> nat) option" where
  "parse_time time =
     (case map js_Number (split_on CHR '':'' time) of
        Some hours # Some minutes # _ \<Rightarrow> Some (hours, minutes)
      | _ \<Rightarrow> None)"

record alarm =
  alarm_when :: nat
  periodInMinutes :: nat

record stored_log =
  timestamp :: string
  log_message :: string
  log_type :: string

datatype bg_event =
    Console string
  | AlarmsCreate string alarm
  | AlarmsClear string
  | TabsQueried
  | TabsCreate string bool
  | SentMessage nat request
  | TimeoutSet nat
  | NotificationsCreate string string

text \<open>
  A request to \<open>storage.local\<close> that the browser has not served yet: the
  \<open>get(['logs'])\<close> of a call of \<open>log\<close>, with the timestamp and the message that its
  \<open>then\<close> callback holds, or a \<open>set({ logs: logs })\<close> with the list to write.
\<close>

datatype storage_op =
    LocalGet string string
  | LocalSet "stored_log list"

text \<open>
  The state of the background page: the clock, the browser's alarms by name, the three
  keys of \<open>storage.sync\<close>, the \<open>logs\<close> key of \<open>storage.local\<close> (\<open>None\<close> while the key is
  absent), the requests to \<open>storage.local\<close> still to be served, oldest first, and what
  the scheduler did. The clock stands still while one handler runs (only the timestamps
  of log lines depend on that).
\<close>

record scheduler =
  clock :: nat
  alarms :: "string \<rightharpoonup> alarm"
  autoSchedule :: "bool option"
  checkinTime :: "string option"
  checkoutTime :: "string option"
  stored_logs :: "stored_log list option"
  storage_pending :: "storage_op list"
  effects :: "bg_event list"

record bg_env =
  bg_tabs_query :: "scheduler \<Rightarrow> string + tab list"
  bg_tabs_create :: "scheduler \<Rightarrow> string + tab"
  tab_completes :: "scheduler \<Rightarrow> nat \<Rightarrow> bool"
  bg_tabs_sendMessage :: "scheduler \<Rightarrow> nat \<Rightarrow> request \<Rightarrow> delivery"
  toLocaleString :: "nat \<Rightarrow> string"

text \<open>
  The emoji of the log lines and notification titles, as UTF-8 bytes. \<open>bg_log\<close> is the
  scheduler's \<open>log\<close> and \<open>bg_showNotification\<close> its \<open>showNotification\<close>; the functions with
  the suffix \<open>_bg\<close> are the calls of \<open>browser.tabs\<close>. The scheduler modelled is the Firefox
  one; \<open>createDailyAlarm\<close>, \<open>clearSchedule\<close>, \<open>setupSchedule\<close> and \<open>loadSettings\<close> read the
  same in the Chrome one, with \<open>chrome\<close> for \<open>browser\<close>.
\<close>

definition cross_mark :: string where
  "cross_mark = [CHR 0xE2, CHR 0x9D, CHR 0x8C]"

definition check_mark :: string where
  "check_mark = [CHR 0xE2, CHR 0x9C, CHR 0x85]"

definition bell :: string where
  "bell = [CHR 0xF0, CHR 0x9F, CHR 0x94, CHR 0x94]"

text \<open>
  \<open>log\<close> writes its console line and asks \<open>storage.local\<close> for the stored list; it does
  not wait for the answer. \<open>log_callback\<close> is the function it passes to \<open>then\<close>: called
  with the answer \<open>result.logs\<close>, it builds the entry (\<open>log_entry\<close>), puts it in front of
  \<open>result.logs || []\<close>, cuts the list after fifty entries (\<open>log_append\<close>, the \<open>unshift\<close>
  and the \<open>splice(50)\<close>) and asks \<open>storage.local\<close> to write the list, again without
  waiting.
\<close>

definition log_entry :: "string \<Rightarrow> string \<Rightarrow> stored_log" where
  "log_entry ts msg =
     \<lparr>timestamp = ts, log_message = msg,
      log_type = (if str_includes msg cross_mark then ''error''
                  else if str_includes msg check_mark then ''success''
                  else ''info'')\<rparr>"

definition log_append :: "stored_log \<Rightarrow> stored_log list \<Rightarrow> stored_log list" where
  "log_append entry logs0 =
     (let unshifted = entry # logs0
      in if length unshifted > 50 then take 50 unshifted else unshifted)"

definition log_callback :: "string \<Rightarrow> string \<Rightarrow> stored_log list option \<Rightarrow> scheduler \<Rightarrow> scheduler" where
  "log_callback ts msg result_logs s =
     (let logs0 = (case result_logs of None \<Rightarrow> [] | Some stored \<Rightarrow> stored);
          logs1 = log_append (log_entry ts msg) logs0
      in s\<lparr>storage_pending := storage_pending s @ [LocalSet logs1]\<rparr>)"

definition bg_log :: "bg_env \<Rightarrow> string \<Rightarrow> scheduler \<Rightarrow> scheduler" where
  "bg_log env msg s =
     (let ts = toLocaleString env (clock s)
      in s\<lparr>storage_pending := storage_pending s @ [LocalGet ts msg],
           effects := effects s @ [Console (''['' @ ts @ ''] '' @ msg)]\<rparr>)"

text \<open>
  The browser's side of \<open>storage.local\<close> (the WebExtensions storage API, not code of the
  extension): it serves the requests one at a time, in the order they were made. Serving
  a \<open>get\<close> hands the stored list to the callback of the \<open>log\<close> call that made it,
  serving a \<open>set\<close> replaces the stored list. \<open>storage_drain\<close> serves requests until none
  is left; every \<open>get\<close> brings one more \<open>set\<close> and a \<open>set\<close> brings nothing, so this ends
  (\<open>storage_work\<close> counts what is left to do).
\<close>

definition storage_step :: "scheduler \<Rightarrow> scheduler" where
  "storage_step s =
     (case storage_pending s of
        [] \<Rightarrow> s
      | LocalGet ts msg # rest \<Rightarrow>
          log_callback ts msg (stored_logs s) (s\<lparr>storage_pending := rest\<rparr>)
      | LocalSet stored # rest \<Rightarrow> s\<lparr>stored_logs := Some stored, storage_pending := rest\<rparr>)"

fun op_work :: "storage_op \<Rightarrow> nat" where
  "op_work (LocalGet ts msg) = 2"
| "op_work (LocalSet stored) = 1"

definition storage_work :: "scheduler \<Rightarrow> nat" where
  "storage_work s = sum_list (map op_work (storage_pending s))"

function storage_drain :: "scheduler \<Rightarrow> scheduler" where
  "storage_drain s =
     (if storage_pending s = [] then s else storage_drain (storage_step s))"
  by pat_completeness auto
termination
proof (relation "measure storage_work")
  show "wf (measure storage_work)" by simp
next
  fix s :: scheduler
  assume "storage_pending s \<noteq> []"
  then obtain req rest where q: "storage_pending s = req # rest"
    by (cases "storage_pending s") auto
  then have "storage_work (storage_step s) < storage_work s"
    by (cases req)
       (simp_all add: storage_step_def storage_work_def log_callback_def Let_def)
  then show "(storage_step s, s) \<in> measure storage_work" by simp
qed

declare storage_drain.simps [simp del]

definition alarms_clear :: "string \<Rightarrow> scheduler \<Rightarrow> scheduler" where
  "alarms_clear name s =
     s\<lparr>alarms := (alarms s)(name := None), effects := effects s @ [AlarmsClear name]\<rparr>"

definition alarms_create :: "string \<Rightarrow> alarm \<Rightarrow> scheduler \<Rightarrow> scheduler" where
  "alarms_create name a s =
     s\<lparr>alarms := (alarms s)(name \<mapsto> a), effects := effects s @ [AlarmsCreate name a]\<rparr>"

definition clearSchedule :: "bg_env \<Rightarrow> scheduler \<Rightarrow> scheduler" where
  "clearSchedule env s =
     bg_log env ''Schedule cleared'' (alarms_clear ''checkout'' (alarms_clear ''checkin'' s))"

definition createDailyAlarm :: "bg_env \<Rightarrow> string \<Rightarrow> string \<Rightarrow> scheduler \<Rightarrow> scheduler option" where
  "createDailyAlarm env name time s =
     (case parse_time time of
        None \<Rightarrow> None
      | Some (hours, minutes) \<Rightarrow>
          (let now = clock s;
               scheduledTime0 = setHours (clock s) hours minutes;
               scheduledTime = (if scheduledTime0 \<le> now then addDay scheduledTime0
                                else scheduledTime0)
           in Some (bg_log env (name @ '' alarm set for '' @ toLocaleString env scheduledTime)
                      (alarms_create name
                         \<lparr>alarm_when = scheduledTime, periodInMinutes = 24 * 60\<rparr> s))))"

definition setupSchedule :: "bg_env \<Rightarrow> string \<Rightarrow> string \<Rightarrow> scheduler \<Rightarrow> scheduler option" where
  "setupSchedule env checkin checkout s =
     (case createDailyAlarm env ''checkin'' checkin (clearSchedule env s) of
        None \<Rightarrow> None
      | Some s1 \<Rightarrow>
          (case createDailyAlarm env ''checkout'' checkout s1 of
             None \<Rightarrow> None
           | Some s2 \<Rightarrow>
               Some (bg_log env (''Schedule set: Check-in at '' @ checkin @
                                 '', Check-out at '' @ checkout) s2)))"

definition loadSettings :: "bg_env \<Rightarrow> scheduler \<Rightarrow> scheduler option" where
  "loadSettings env s =
     (let settings_autoSchedule = (case autoSchedule s of None \<Rightarrow> False | Some b \<Rightarrow> b);
          settings_checkinTime = (case checkinTime s of None \<Rightarrow> ''09:00'' | Some t \<Rightarrow> t);
          settings_checkoutTime = (case checkoutTime s of None \<Rightarrow> ''17:30'' | Some t \<Rightarrow> t)
      in if settings_autoSchedule
         then setupSchedule env settings_checkinTime settings_checkoutTime s
         else Some s)"

definition try_catch ::
  "('s \<Rightarrow> 'a res \<times> 's) \<Rightarrow> (string \<Rightarrow> 's \<Rightarrow> 'a res \<times> 's) \<Rightarrow> 's \<Rightarrow> 'a res \<times> 's" where
  "try_catch body handler s =
     (case body s of
        (Throw e, s') \<Rightarrow> handler e s'
      | other \<Rightarrow> other)"

definition bg_does :: "bg_event \<Rightarrow> scheduler \<Rightarrow> scheduler" where
  "bg_does ev s = s\<lparr>effects := effects s @ [ev]\<rparr>"

definition tabs_sendMessage_bg ::
  "bg_env \<Rightarrow> nat \<Rightarrow> request \<Rightarrow> scheduler \<Rightarrow> response option res \<times> scheduler" where
  "tabs_sendMessage_bg env tabId req s =
     (let s1 = bg_does (SentMessage tabId req) s
      in case bg_tabs_sendMessage env s1 tabId req of
           Rejected e \<Rightarrow> (Throw e, s1)
         | Unanswered \<Rightarrow> (Pending, s1)
         | Answered response \<Rightarrow> (Ok response, s1))"

definition sendAttendanceMessage ::
  "bg_env \<Rightarrow> nat \<Rightarrow> string \<Rightarrow> scheduler \<Rightarrow> response option res \<times> scheduler" where
  "sendAttendanceMessage env tabId ty =
     try_catch
       (and_then
          (tabs_sendMessage_bg env tabId \<lparr>action = ''performAttendance'', rtype = ty\<rparr>)
          (\<lambda>response s.
             if response_success response then (Ok response, s)
             else (Throw (js_or [response_error response, ''Unknown error'']), s)))
       (\<lambda>e s. (Throw (''Failed to send message: '' @ e), s))"

definition waitForTabLoad :: "bg_env \<Rightarrow> nat \<Rightarrow> scheduler \<Rightarrow> unit res \<times> scheduler" where
  "waitForTabLoad env tabId s =
     (if tab_completes env s tabId then (Ok (), bg_does (TimeoutSet 2000) s)
      else (Pending, s))"

definition bg_showNotification :: "string \<Rightarrow> string \<Rightarrow> string option \<Rightarrow> scheduler \<Rightarrow> scheduler" where
  "bg_showNotification ty status error s =
     (let title0 = (if status = ''success''
                    then check_mark @ '' '' @
                         (if ty = ''checkin'' then ''Checked In'' else ''Checked Out'')
                    else cross_mark @ '' '' @
                         (if ty = ''checkin'' then ''Check-in'' else ''Check-out'') @ '' Failed'');
          message0 = (if status = ''success'' then ''Attendance recorded successfully''
                      else js_or [(case error of None \<Rightarrow> [] | Some e \<Rightarrow> e),
                                  ''Failed to record attendance''])
      in bg_does (NotificationsCreate title0 message0) s)"

definition tabs_query_bg :: "bg_env \<Rightarrow> scheduler \<Rightarrow> tab list res \<times> scheduler" where
  "tabs_query_bg env s =
     (let s1 = bg_does TabsQueried s
      in case bg_tabs_query env s1 of Inl e \<Rightarrow> (Throw e, s1) | Inr tabs \<Rightarrow> (Ok tabs, s1))"

definition tabs_create_bg :: "bg_env \<Rightarrow> string \<Rightarrow> bool \<Rightarrow> scheduler \<Rightarrow> tab res \<times> scheduler" where
  "tabs_create_bg env u active s =
     (let s1 = bg_does (TabsCreate u active) s
      in case bg_tabs_create env s1 of Inl e \<Rightarrow> (Throw e, s1) | Inr t \<Rightarrow> (Ok t, s1))"

definition performScheduledAttendance :: "bg_env \<Rightarrow> string \<Rightarrow> scheduler \<Rightarrow> unit res \<times> scheduler" where
  "performScheduledAttendance env ty s =
     try_catch
       (and_then (tabs_query_bg env) (\<lambda>tabs.
        and_then
          (case tabs of
             [] \<Rightarrow>
               and_then (tabs_create_bg env ''https://people.zoho.com'' False) (\<lambda>tab.
               and_then (waitForTabLoad env (tab_id tab)) (\<lambda>_.
               sendAttendanceMessage env (tab_id tab) ty))
           | tab # _ \<Rightarrow> sendAttendanceMessage env (tab_id tab) ty)
          (\<lambda>_ s'. (Ok (), bg_showNotification ty ''success'' None s'))))
       (\<lambda>e s'. (Ok (),
                 bg_showNotification ty ''error'' (Some e)
                   (bg_log env (cross_mark @ '' Scheduled '' @ ty @ '' failed: '' @ e) s')))
       (bg_log env (bell @ '' Scheduled '' @ ty @ '' triggered'') s)"

definition onAlarm :: "bg_env \<Rightarrow> string \<Rightarrow> scheduler \<Rightarrow> unit res \<times> scheduler" where
  "onAlarm env name s =
     (if name = ''checkin'' then performScheduledAttendance env ''checkin'' s
      else if name = ''checkout'' then performScheduledAttendance env ''checkout'' s
      else (Ok (), s))"

text \<open>
  The browser's side of a repeating alarm (the WebExtensions alarms API, not code of the
  extension): when the alarm \<open>name\<close> goes off, the browser moves it \<open>periodInMinutes\<close>
  ahead and then calls the \<open>onAlarm\<close> listener. Without such an alarm nothing happens.
\<close>

definition alarm_goes_off :: "bg_env \<Rightarrow> string \<Rightarrow> scheduler \<Rightarrow> unit res \<times> scheduler" where
  "alarm_goes_off env name s =
     (case alarms s name of
        None \<Rightarrow> (Ok (), s)
      | Some a \<Rightarrow>
          onAlarm env name
            (s\<lparr>alarms := (alarms s)(name \<mapsto>
                  a\<lparr>alarm_when := alarm_when a + periodInMinutes a * 60000\<rparr>)\<rparr>))"

section \<open>Vocabulary of the claims\<close>

text \<open>
  Today's occurrence of the time of day \<open>h:m\<close> on the day of \<open>now\<close>, and the next
  occurrence after \<open>now\<close>: today's if it is still ahead, tomorrow's otherwise. \<open>hhmm h m\<close>
  is the text \<open>HH:MM\<close> of a time of day.
\<close>

definition today_at :: "nat \<Rightarrow> nat \<Rightarrow> nat \<Rightarrow> nat" where
  "today_at now h m = (now div msPerDay) * msPerDay + (h * 60 + m) * 60000"

definition next_occurrence :: "nat \<Rightarrow> nat \<Rightarrow> nat \<Rightarrow> nat" where
  "next_occurrence now h m =
     (if now < today_at now h m then today_at now h m else today_at now h m + msPerDay)"

definition two_digits :: "nat \<Rightarrow> string" where
  "two_digits n = [char_of (48 + n div 10), char_of (48 + n mod 10)]"

definition hhmm :: "nat \<Rightarrow> nat \<Rightarrow> string" where
  "hhmm h m = two_digits h @ '':'' @ two_digits m"

text \<open>
  The effects of the scheduler that belong to performing an attendance (everything
  \<open>performScheduledAttendance\<close> does besides writing log lines).
\<close>

fun is_attendance_effect :: "bg_event \<Rightarrow> bool" where
  "is_attendance_effect TabsQueried = True"
| "is_attendance_effect (TabsCreate u a) = True"
| "is_attendance_effect (SentMessage t r) = True"
| "is_attendance_effect (TimeoutSet n) = True"
| "is_attendance_effect (NotificationsCreate t m) = True"
| "is_attendance_effect (Console m) = False"
| "is_attendance_effect (AlarmsCreate n a) = False"
| "is_attendance_effect (AlarmsClear n) = False"

definition attendance_effects :: "bg_event list \<Rightarrow> bg_event list" where
  "attendance_effects evs = filter is_attendance_effect evs"

definition keeps_alarms :: "(scheduler \<Rightarrow> 'a res \<times> scheduler) \<Rightarrow> bool" where
  "keeps_alarms m \<longleftrightarrow> (\<forall>s r s'. m s = (r, s') \<longrightarrow> alarms s' = alarms s)"

text \<open>
  What the log of one invocation tells about the chain: a strategy announces itself with
  its banner (\<open>Consulted\<close>, by the name of its \<open>method\<close>), \<open>performAttendance\<close> logs every
  failed strategy at level \<open>error\<close> (\<open>Failed\<close>) and the successful one at level \<open>success\<close>
  (\<open>Succeeded\<close>). \<open>chain_view\<close> reads these steps off the events, in order; \<open>consulted\<close>
  keeps the names of the strategies consulted. \<open>strategy_names\<close> is the priority order.
\<close>

datatype chain_step = Consulted string | Failed | Succeeded

definition strategy_names :: "string list" where
  "strategy_names = [''selector'', ''text'', ''aria'', ''form'', ''api'']"

definition banner_strategy :: "string \<Rightarrow> string option" where
  "banner_strategy msg =
     (if msg = ''Strategy 1: Selector-based search'' then Some ''selector''
      else if msg = ''Strategy 2: Text-based search'' then Some ''text''
      else if msg = ''Strategy 3: ARIA-based search'' then Some ''aria''
      else if msg = ''Strategy 4: Form-based search'' then Some ''form''
      else if msg = ''Strategy 5: API-based approach'' then Some ''api''
      else None)"

fun chain_step_of :: "event \<Rightarrow> chain_step list" where
  "chain_step_of (SharedLog msg level) =
     (if level = ''error'' then [Failed]
      else if level = ''success'' then [Succeeded]
      else (case banner_strategy msg of Some name \<Rightarrow> [Consulted name] | None \<Rightarrow> []))"
| "chain_step_of ev = []"

definition chain_view :: "event list \<Rightarrow> chain_step list" where
  "chain_view evs = concat (map chain_step_of evs)"

text \<open>
  The elements the content script acts on: the subjects of the DOM calls and style writes
  of \<open>clickElement\<close>.
\<close>

fun touched_of :: "event \<Rightarrow> element list" where
  "touched_of (Clicking e) = [e]"
| "touched_of (ScrollIntoView e) = [e]"
| "touched_of (SetStyle e p v) = [e]"
| "touched_of (SetCssText e css) = [e]"
| "touched_of (Focus e) = [e]"
| "touched_of (Click e) = [e]"
| "touched_of (DispatchEvent e t) = [e]"
| "touched_of ev = []"

definition touched :: "event list \<Rightarrow> element list" where
  "touched evs = concat (map touched_of evs)"

text \<open>Invariants of the actions, the searches and the strategies, used in the proofs.\<close>

definition quiet_on :: "element \<Rightarrow> event list \<Rightarrow> bool" where
  "quiet_on e evs \<longleftrightarrow> chain_view evs = [] \<and> set (touched evs) \<subseteq> {e}"

definition plain_action :: "element \<Rightarrow> (world \<Rightarrow> 'a res \<times> world) \<Rightarrow> bool" where
  "plain_action e m \<longleftrightarrow>
     (\<forall>w r w'. m w = (r, w') \<longrightarrow>
        r \<noteq> Pending \<and> (\<exists>new. trace w' = trace w @ new \<and> quiet_on e new))"

definition guarded :: "event list \<Rightarrow> bool" where
  "guarded evs \<longleftrightarrow>
     chain_view evs = [] \<and> list_all (\<lambda>e. isElementClickable (Some e)) (touched evs)"

definition hangs :: "browser \<Rightarrow> bool" where
  "hangs env \<longleftrightarrow> (\<exists>w f. window_fn env w f = Some NeverSettles)"

definition search_ok :: "bool \<Rightarrow> string \<Rightarrow> detection option action \<Rightarrow> bool" where
  "search_ok P M m \<longleftrightarrow>
     (\<forall>w r w'. m w = (r, w') \<longrightarrow>
        (\<exists>new. trace w' = trace w @ new \<and> guarded new) \<and>
        (\<forall>d. r = Ok (Some d) \<longrightarrow> success d \<and> method_name d = M) \<and>
        (r = Pending \<longrightarrow> P))"

definition strategy_ok :: "bool \<Rightarrow> string \<Rightarrow> detection action \<Rightarrow> bool" where
  "strategy_ok P M s \<longleftrightarrow>
     (\<forall>w r w'. s w = (r, w') \<longrightarrow>
        (\<exists>new. trace w' = trace w @ new \<and> chain_view new = [Consulted M] \<and>
               list_all (\<lambda>e. isElementClickable (Some e)) (touched new)) \<and>
        (\<forall>d. r = Ok d \<longrightarrow> success d \<and> method_name d = M) \<and>
        (r = Pending \<longrightarrow> P))"

fun consulted_of :: "chain_step \<Rightarrow> string list" where
  "consulted_of (Consulted name) = [name]"
| "consulted_of step = []"

definition consulted :: "chain_step list \<Rightarrow> string list" where
  "consulted steps = concat (map consulted_of steps)"

definition failed_view :: "string list \<Rightarrow> chain_step list" where
  "failed_view names = concat (map (\<lambda>name. [Consulted name, Failed]) names)"

text \<open>
  The world in which \<open>clickElement\<close> looks for the enclosing form: the marker is on, the
  element has been focused and clicked and the three mouse events dispatched.
\<close>

definition marked :: "element \<Rightarrow> world \<Rightarrow> world" where
  "marked e w =
     w\<lparr>styles := (styles w)(eid e :=
          AList.update ''backgroundColor'' ''rgba(74, 222, 128, 0.2)''
            (AList.update ''outline'' ''3px solid #4ade80'' (styles w (eid e)))),
        trace := trace w @
          [Clicking e, ScrollIntoView e, Sleep 500,
           SetStyle e ''outline'' ''3px solid #4ade80'',
           SetStyle e ''backgroundColor'' ''rgba(74, 222, 128, 0.2)'',
           Focus e, Click e,
           DispatchEvent e ''mousedown'', DispatchEvent e ''mouseup'', DispatchEvent e ''click'']\<rparr>"


text \<open>
  The stored list once the writes among the pending requests \<open>q\<close> have been served: the
  list of the last \<open>set\<close> in \<open>q\<close>, or the list stored now when \<open>q\<close> holds no \<open>set\<close>.
\<close>

fun landed :: "storage_op list \<Rightarrow> stored_log list option \<Rightarrow> stored_log list option" where
  "landed [] stored = stored"
| "landed (LocalGet ts msg # rest) stored = landed rest stored"
| "landed (LocalSet written # rest) stored = landed rest (Some written)"

text \<open>
  What it means that a page offers no matching element to a request of type \<open>ty\<close>.
  \<open>selector_match\<close>, \<open>isAttendanceForm\<close> and \<open>form_match\<close> are the tests of the first and
  the fourth strategy (\<open>hasKeyword && isElementClickable(element)\<close>, \<open>isAttendanceForm\<close>,
  \<open>isCorrectType && isElementClickable(button)\<close>). \<open>no_matching_element\<close> says that at
  no time does a query of a strategy return an element that passes the test of that
  strategy; a query that throws returns no element. \<open>no_callable_function\<close> says that
  each of the seven functions the fifth strategy probes is absent, or throws when called.
  \<open>barren\<close> is used in the proofs: a search that ends without a result, or throws.
\<close>

definition selector_match :: "string \<Rightarrow> element \<Rightarrow> bool" where
  "selector_match ty element \<longleftrightarrow>
     list_ex (\<lambda>keyword. str_includes
        (toLowerCase (js_or [textContent element, value_attr element, title element])) keyword)
       (selector_keywords ty) \<and>
     isElementClickable (Some element)"

definition isAttendanceForm :: "element \<Rightarrow> bool" where
  "isAttendanceForm form \<longleftrightarrow>
     list_ex (\<lambda>keyword. str_includes (toLowerCase (textContent form)) keyword)
       [''attendance'', ''check'', ''punch'', ''clock'']"

definition form_match :: "string \<Rightarrow> element \<Rightarrow> bool" where
  "form_match ty button \<longleftrightarrow>
     isCorrectType ty (toLowerCase (js_or [textContent button, value_attr button])) \<and>
     isElementClickable (Some button)"

definition no_matching_element :: "browser \<Rightarrow> string \<Rightarrow> bool" where
  "no_matching_element env ty \<longleftrightarrow>
     (\<forall>w selector elements.
        selector \<in> set attendanceSelectors \<longrightarrow> querySelectorAll env w selector = Inr elements \<longrightarrow>
        (\<forall>element\<in>set elements. \<not> selector_match ty element)) \<and>
     (\<forall>w searchText node.
        searchText \<in> set (searchTexts ty) \<longrightarrow>
        evaluate env w (text_xpath searchText) = Inr (Some node) \<longrightarrow>
        \<not> isElementClickable (Some node)) \<and>
     (\<forall>w label element.
        label \<in> set (ariaLabels ty) \<longrightarrow>
        querySelector env w (aria_selector label) = Inr (Some element) \<longrightarrow>
        \<not> isElementClickable (Some element)) \<and>
     (\<forall>w w' forms form buttons.
        querySelectorAll env w ''form'' = Inr forms \<longrightarrow> form \<in> set forms \<longrightarrow>
        isAttendanceForm form \<longrightarrow>
        element_querySelectorAll env w' form form_button_selector = Inr buttons \<longrightarrow>
        (\<forall>button\<in>set buttons. \<not> form_match ty button)) \<and>
     (\<forall>w elements.
        querySelectorAll env w attendance_selector = Inr elements \<longrightarrow>
        (\<forall>element\<in>set elements. \<not> isElementClickable (Some element)))"

definition no_callable_function :: "browser \<Rightarrow> bool" where
  "no_callable_function env \<longleftrightarrow>
     (\<forall>w. \<forall>funcName\<in>set possibleFunctions.
        window_fn env w funcName = None \<or> (\<exists>m. window_fn env w funcName = Some (Throws m)))"

definition barren :: "(world \<Rightarrow> 'a option res \<times> world) \<Rightarrow> bool" where
  "barren m \<longleftrightarrow> (\<forall>w. fst (m w) = Ok None \<or> (\<exists>e. fst (m w) = Throw e))"

section \<open>Concrete inputs\<close>

text \<open>A popup whose log is full, and a browser that always reports the same time.\<close>

definition ten_lines :: "log_line list" where
  "ten_lines = map (\<lambda>m. \<lparr>message = m, ltype = ''info''\<rparr>)
     [''l10'', ''l9'', ''l8'', ''l7'', ''l6'', ''l5'', ''l4'', ''l3'', ''l2'', ''l1'']"

definition fixed_time_env :: popup_env where
  "fixed_time_env = \<lparr>tabs_query = (\<lambda>_. Inr []), tabs_sendMessage = (\<lambda>_ _ _. Unanswered),
     toLocaleTimeString = (\<lambda>_. ''9:00:00 AM''), type_error = (\<lambda>_. ''TypeError'')\<rparr>"

text \<open>
  A background page at 10:00 on day 5 with the schedule enabled; in \<open>overslept\<close> the
  check-in alarm was due at 09:00 of the same day. In \<open>office_env\<close> no Zoho tab is open
  and none can be created; in \<open>deaf_tab_env\<close> a Zoho tab is open but nothing listens there.
\<close>

definition office_env :: bg_env where
  "office_env = \<lparr>bg_tabs_query = (\<lambda>_. Inr []), bg_tabs_create = (\<lambda>_. Inl ''No window''),
     tab_completes = (\<lambda>_ _. False), bg_tabs_sendMessage = (\<lambda>_ _ _. Unanswered),
     toLocaleString = (\<lambda>_. ''some day'')\<rparr>"

definition deaf_tab_env :: bg_env where
  "deaf_tab_env = \<lparr>bg_tabs_query = (\<lambda>_. Inr [\<lparr>tab_id = 7, url = Some ''https://people.zoho.com/home''\<rparr>]),
     bg_tabs_create = (\<lambda>_. Inl ''No window''),
     tab_completes = (\<lambda>_ _. False),
     bg_tabs_sendMessage = (\<lambda>_ _ _. Rejected ''Receiving end does not exist''),
     toLocaleString = (\<lambda>_. ''some day'')\<rparr>"

definition ten_oclock :: scheduler where
  "ten_oclock = \<lparr>clock = 468000000, alarms = Map.empty, autoSchedule = Some True,
     checkinTime = Some ''09:00'', checkoutTime = Some ''17:30'', stored_logs = None,
     storage_pending = [], effects = []\<rparr>"

definition overslept :: scheduler where
  "overslept = ten_oclock\<lparr>alarms :=
     [''checkin'' \<mapsto> \<lparr>alarm_when = 464400000, periodInMinutes = 1440\<rparr>,
      ''checkout'' \<mapsto> \<lparr>alarm_when = 495000000, periodInMinutes = 1440\<rparr>]\<rparr>"

definition armed :: scheduler where
  "armed = ten_oclock\<lparr>clock := 550800000, alarms :=
     [''checkin'' \<mapsto> \<lparr>alarm_when = 550800000, periodInMinutes = 1440\<rparr>,
      ''checkout'' \<mapsto> \<lparr>alarm_when = 581400000, periodInMinutes = 1440\<rparr>]\<rparr>"

text \<open>A fresh popup, and a browser whose active tab is not a Zoho People page.\<close>

definition elsewhere_env :: popup_env where
  "elsewhere_env = \<lparr>tabs_query = (\<lambda>_. Inr [\<lparr>tab_id = 3, url = Some ''https://example.org/''\<rparr>]),
     tabs_sendMessage = (\<lambda>_ _ _. Answered None),
     toLocaleTimeString = (\<lambda>_. ''9:00:00 AM''), type_error = (\<lambda>_. ''TypeError'')\<rparr>"

definition new_popup :: popup where
  "new_popup = \<lparr>logs = [], logs_html = [], did = []\<rparr>"

text \<open>
  An empty world; a page on which nothing matches; elements that fail the clickability
  predicate in one way each, and two that pass it; pages built from them.
\<close>

definition start :: world where
  "start = \<lparr>trace = [], styles = (\<lambda>_. [])\<rparr>"

definition blank_page :: browser where
  "blank_page =
     \<lparr>querySelectorAll = (\<lambda>_ _. Inr []), querySelector = (\<lambda>_ _. Inr None),
      evaluate = (\<lambda>_ _. Inr None), element_querySelectorAll = (\<lambda>_ _ _. Inr []),
      closest = (\<lambda>_ _ _. None), window_fn = (\<lambda>_ _. None), dom_throws = (\<lambda>_ _. None),
      readyState = (\<lambda>_. ''complete''), load_fires = (\<lambda>_. False), navigated = (\<lambda>_. False)\<rparr>"

definition hidden_button :: element where
  "hidden_button = \<lparr>eid = 1, textContent = ''Check In'', value_attr = [], title = [],
     disabled = False, display = ''none'', visibility = ''visible'', opacity = ''1''\<rparr>"

definition disabled_button :: element where
  "disabled_button = \<lparr>eid = 2, textContent = ''Check In'', value_attr = [], title = [],
     disabled = True, display = ''block'', visibility = ''visible'', opacity = ''1''\<rparr>"

definition ghost_button :: element where
  "ghost_button = \<lparr>eid = 3, textContent = ''Check In'', value_attr = [], title = [],
     disabled = False, display = ''block'', visibility = ''visible'', opacity = ''0''\<rparr>"

definition live_button :: element where
  "live_button = \<lparr>eid = 4, textContent = ''Check In'', value_attr = [], title = [],
     disabled = False, display = ''block'', visibility = ''visible'', opacity = ''1''\<rparr>"

definition attendance_form :: element where
  "attendance_form = \<lparr>eid = 5, textContent = ''Attendance Check In'', value_attr = [],
     title = [], disabled = False, display = ''block'', visibility = ''visible'',
     opacity = ''1''\<rparr>"

definition aria_link :: element where
  "aria_link = \<lparr>eid = 6, textContent = [], value_attr = [], title = [],
     disabled = False, display = ''inline'', visibility = ''visible'', opacity = ''1''\<rparr>"

definition aria_page :: browser where
  "aria_page = blank_page
     \<lparr>querySelectorAll :=
        (\<lambda>_ selector.
           if selector = ''.attendance-btn'' then Inr [hidden_button]
           else if str_includes selector '':contains('' then Inl ''SyntaxError''
           else Inr []),
      querySelector :=
        (\<lambda>_ selector.
           if selector = aria_selector ''check in'' then Inr (Some aria_link) else Inr None)\<rparr>"

definition crowded_page :: browser where
  "crowded_page = blank_page
     \<lparr>querySelectorAll :=
        (\<lambda>_ selector.
           if selector = ''.attendance-btn''
           then Inr [hidden_button, disabled_button, ghost_button, live_button]
           else Inr []),
      closest :=
        (\<lambda>_ e selector.
           if eid e = 4 \<and> selector = ''form'' then Some attendance_form else None)\<rparr>"

text \<open>
  A page that is navigating away, and a page whose form has a control named \<open>submit\<close>
  (so that \<open>form.submit()\<close> throws); on both, every element is inside the attendance form.
\<close>

definition leaving_page :: browser where
  "leaving_page = blank_page
     \<lparr>closest := (\<lambda>_ e selector. if selector = ''form'' then Some attendance_form else None),
      navigated := (\<lambda>_. True)\<rparr>"

definition shadowed_submit_page :: browser where
  "shadowed_submit_page = blank_page
     \<lparr>closest := (\<lambda>_ e selector. if selector = ''form'' then Some attendance_form else None),
      dom_throws := (\<lambda>_ ev. if ev = Submit attendance_form
                             then Some ''form.submit is not a function'' else None)\<rparr>"

text \<open>
  A background page whose stored log is full: fifty lines, the newest first, the line
  \<open>n\<close> being \<open>n\<close> strokes; no request to \<open>storage.local\<close> is pending.
\<close>

definition fifty_lines :: "stored_log list" where
  "fifty_lines = map (\<lambda>n. log_entry ''some day'' (replicate n CHR ''|'')) (rev [1..<51])"

definition full_store :: scheduler where
  "full_store = ten_oclock\<lparr>stored_logs := Some fifty_lines\<rparr>"

text \<open>
  A page that shows the form to check in: its only visible button says \<open>Check In\<close>, the
  button \<open>Check Out\<close> (of class \<open>attendance-btn\<close>) has display \<open>none\<close>, the selectors
  with \<open>:contains\<close> are invalid, and the page function \<open>markAttendance\<close> throws. And a
  page with no element of interest at all that defines a function \<open>checkIn\<close>.
\<close>

definition hidden_checkout :: element where
  "hidden_checkout = \<lparr>eid = 7, textContent = ''Check Out'', value_attr = [], title = [],
     disabled = False, display = ''none'', visibility = ''visible'', opacity = ''1''\<rparr>"

definition lobby_page :: browser where
  "lobby_page = blank_page
     \<lparr>querySelectorAll :=
        (\<lambda>_ selector.
           if selector = ''.attendance-btn'' \<or> selector = attendance_selector
           then Inr [hidden_checkout]
           else if str_includes selector '':contains('' then Inl ''SyntaxError''
           else if selector = ''form'' then Inr [attendance_form]
           else Inr []),
      evaluate :=
        (\<lambda>_ xpath.
           if xpath = text_xpath ''Check Out'' then Inr (Some hidden_checkout) else Inr None),
      element_querySelectorAll :=
        (\<lambda>_ form selector.
           if eid form = 5 \<and> selector = form_button_selector then Inr [live_button]
           else Inr []),
      window_fn :=
        (\<lambda>_ name. if name = ''markAttendance'' then Some (Throws ''not signed in'') else None)\<rparr>"

definition hook_page :: browser where
  "hook_page = blank_page
     \<lparr>querySelectorAll :=
        (\<lambda>_ selector.
           if str_includes selector '':contains('' then Inl ''SyntaxError'' else Inr []),
      window_fn := (\<lambda>_ name. if name = ''checkIn'' then Some Returns else None)\<rparr>"

section \<open>Properties\<close>

subsection \<open>The bounded logs\<close>

lemma butlast_of_eleven: "length xs = 11 \<Longrightarrow> butlast xs = take 10 xs"
  by (simp add: butlast_conv_take)

lemma storage_drain_done: "storage_pending s = [] \<Longrightarrow> storage_drain s = s"
  by (subst storage_drain.simps) simp

lemma storage_drain_step:
  "storage_pending s \<noteq> [] \<Longrightarrow> storage_drain s = storage_drain (storage_step s)"
  by (subst storage_drain.simps) simp

lemma log_append_take: "log_append entry ls = take 50 (entry # ls)"
  by (simp add: log_append_def Let_def)

lemma drain_writes:
  "storage_pending s = map LocalSet (ws @ [w]) \<Longrightarrow> stored_logs (storage_drain s) = Some w"
proof (induction ws arbitrary: s)
  case Nil
  then have p: "storage_pending s \<noteq> []" by simp
  from Nil have "storage_step s = s\<lparr>stored_logs := Some w, storage_pending := []\<rparr>"
    by (simp add: storage_step_def)
  then have "storage_drain s = s\<lparr>stored_logs := Some w, storage_pending := []\<rparr>"
    by (simp add: storage_drain_step [OF p] storage_drain_done)
  then show ?case by simp
next
  case (Cons v ws)
  then have p: "storage_pending s \<noteq> []" by simp
  from Cons(2) have st: "storage_step s =
      s\<lparr>stored_logs := Some v, storage_pending := map LocalSet (ws @ [w])\<rparr>"
    by (simp add: storage_step_def)
  have "stored_logs (storage_drain (storage_step s)) = Some w"
    by (rule Cons(1)) (simp add: st)
  then show ?case by (simp add: storage_drain_step [OF p])
qed

lemma drain_read:
  "storage_pending s = q @ LocalGet ts msg # map LocalSet ws \<Longrightarrow>
   stored_logs (storage_drain s) =
     Some (log_append (log_entry ts msg)
             (case landed q (stored_logs s) of None \<Rightarrow> [] | Some stored \<Rightarrow> stored))"
proof (induction q arbitrary: s ws)
  case Nil
  then have p: "storage_pending s \<noteq> []" by simp
  let ?w = "log_append (log_entry ts msg)
      (case stored_logs s of None \<Rightarrow> [] | Some stored \<Rightarrow> stored)"
  from Nil have st: "storage_pending (storage_step s) = map LocalSet (ws @ [?w])"
    by (simp add: storage_step_def log_callback_def Let_def)
  from drain_writes [OF st] show ?case by (simp add: storage_drain_step [OF p])
next
  case (Cons req q)
  then have p: "storage_pending s \<noteq> []" by simp
  show ?case
  proof (cases req)
    case (LocalGet ts' msg')
    let ?w = "log_append (log_entry ts' msg')
      (case stored_logs s of None \<Rightarrow> [] | Some stored \<Rightarrow> stored)"
    from Cons(2) LocalGet
    have st: "storage_pending (storage_step s) = q @ LocalGet ts msg # map LocalSet (ws @ [?w])"
      and keep: "stored_logs (storage_step s) = stored_logs s"
      by (simp_all add: storage_step_def log_callback_def Let_def)
    from Cons(1) [OF st] keep LocalGet show ?thesis by (simp add: storage_drain_step [OF p])
  next
    case (LocalSet written)
    from Cons(2) LocalSet
    have st: "storage_pending (storage_step s) = q @ LocalGet ts msg # map LocalSet ws"
      and new: "stored_logs (storage_step s) = Some written"
      by (simp_all add: storage_step_def)
    from Cons(1) [OF st] new LocalSet show ?thesis by (simp add: storage_drain_step [OF p])
  qed
qed

lemma bg_log_stored:
  "stored_logs (storage_drain (bg_log env msg s)) =
     Some (take 50 (log_entry (toLocaleString env (clock s)) msg #
             (case landed (storage_pending s) (stored_logs s) of
                None \<Rightarrow> [] | Some stored \<Rightarrow> stored)))"
proof -
  have "storage_pending (bg_log env msg s) =
      storage_pending s @ LocalGet (toLocaleString env (clock s)) msg # map LocalSet []"
    by (simp add: bg_log_def Let_def)
  from drain_read [OF this] show ?thesis
    by (simp add: log_append_take bg_log_def Let_def)
qed

lemma length_fifty_lines: "length fifty_lines = 50"
  by (simp add: fifty_lines_def)

text \<open>
  Claim C8. \<open>addLog\<close> of the popup puts the new line in front and keeps the ten most
  recent lines, the oldest being dropped; the log of a popup never grows past ten lines
  (it starts empty and only \<open>addLog\<close> changes it, so its length is at most ten before
  every append). The background \<open>log\<close> writes nothing at once: it asks for the stored
  list. Whatever list the answer holds, its callback asks to write that list with the new
  entry in front, cut after fifty entries. Once the browser has served every request,
  the persisted log is the new entry in front of the list that stood in storage when the
  read was served, cut after fifty entries.
\<close>

theorem log_append_prepends_and_truncates:
  assumes "length (logs p) \<le> 10"
  shows "logs (addLog env msg ty p) =
           take 10 (\<lparr>message = ''['' @ toLocaleTimeString env p @ ''] '' @ msg, ltype = ty\<rparr> #
                    logs p)
         \<and> length (logs (addLog env msg ty p)) \<le> 10
         \<and> stored_logs (bg_log benv m s) = stored_logs s
         \<and> storage_pending (bg_log benv m s) =
             storage_pending s @ [LocalGet (toLocaleString benv (clock s)) m]
         \<and> stored_logs (log_callback ts m answer s') = stored_logs s'
         \<and> storage_pending (log_callback ts m answer s') =
             storage_pending s' @
             [LocalSet (take 50 (log_entry ts m #
                                  (case answer of None \<Rightarrow> [] | Some stored \<Rightarrow> stored)))]
         \<and> stored_logs (storage_drain (bg_log benv m s)) =
             Some (take 50 (log_entry (toLocaleString benv (clock s)) m #
                            (case landed (storage_pending s) (stored_logs s) of
                               None \<Rightarrow> [] | Some stored \<Rightarrow> stored)))"
proof -
  let ?line = "\<lparr>message = ''['' @ toLocaleTimeString env p @ ''] '' @ msg, ltype = ty\<rparr>"
  have kept: "logs (addLog env msg ty p) =
      (if length (?line # logs p) > 10 then butlast (?line # logs p) else ?line # logs p)"
    by (simp add: addLog_def updateLogs_def Let_def)
  have a: "logs (addLog env msg ty p) = take 10 (?line # logs p)"
  proof (cases "length (logs p) = 10")
    case True
    then have "length (?line # logs p) = 11" by simp
    then have "butlast (?line # logs p) = take 10 (?line # logs p)" by (rule butlast_of_eleven)
    with True kept show ?thesis by simp
  next
    case False
    with assms have "length (logs p) < 10" by simp
    with kept show ?thesis by simp
  qed
  have b: "length (logs (addLog env msg ty p)) \<le> 10"
    unfolding a by simp
  have c: "stored_logs (bg_log benv m s) = stored_logs s"
    by (simp add: bg_log_def Let_def)
  have d: "storage_pending (bg_log benv m s) =
      storage_pending s @ [LocalGet (toLocaleString benv (clock s)) m]"
    by (simp add: bg_log_def Let_def)
  have e: "stored_logs (log_callback ts m answer s') = stored_logs s'"
    by (simp add: log_callback_def Let_def)
  have f: "storage_pending (log_callback ts m answer s') =
      storage_pending s' @
      [LocalSet (take 50 (log_entry ts m #
                           (case answer of None \<Rightarrow> [] | Some stored \<Rightarrow> stored)))]"
    by (simp add: log_callback_def Let_def log_append_take)
  from a b c d e f bg_log_stored [of benv m s] show ?thesis by (simp only: simp_thms)
qed

text \<open>
  The eleventh line: appended to the full popup log \<open>l10, ..., l1\<close> it drops \<open>l1\<close> and
  leaves the ten most recent lines, newest first. The fifty-first entry: logged on a full
  persisted log it stands in front of the former entries but the oldest.
\<close>

theorem log_append_prepends_and_truncates_witness:
  "length (logs \<lparr>logs = ten_lines, logs_html = [], did = []\<rparr>) \<le> 10 \<and>
   logs (addLog fixed_time_env ''l11'' ''info'' \<lparr>logs = ten_lines, logs_html = [], did = []\<rparr>) =
     \<lparr>message = ''[9:00:00 AM] l11'', ltype = ''info''\<rparr> #
     map (\<lambda>m. \<lparr>message = m, ltype = ''info''\<rparr>)
       [''l10'', ''l9'', ''l8'', ''l7'', ''l6'', ''l5'', ''l4'', ''l3'', ''l2''] \<and>
   stored_logs full_store = Some fifty_lines \<and> length fifty_lines = 50 \<and>
   storage_pending full_store = [] \<and>
   stored_logs (storage_drain (bg_log office_env ''l51'' full_store)) =
     Some (\<lparr>timestamp = ''some day'', log_message = ''l51'', log_type = ''info''\<rparr> #
           butlast fifty_lines)"
proof -
  have s: "stored_logs full_store = Some fifty_lines" "storage_pending full_store = []"
    "toLocaleString office_env (clock full_store) = ''some day''"
    by (simp_all add: full_store_def ten_oclock_def office_env_def)
  have e: "log_entry ''some day'' ''l51'' =
      \<lparr>timestamp = ''some day'', log_message = ''l51'', log_type = ''info''\<rparr>"
    by (simp add: log_entry_def cross_mark_def check_mark_def)
  have b: "take 49 fifty_lines = butlast fifty_lines"
    by (simp add: butlast_conv_take length_fifty_lines)
  show ?thesis
    using log_append_prepends_and_truncates
      [of "\<lparr>logs = ten_lines, logs_html = [], did = []\<rparr>" fixed_time_env "''l11''" "''info''"
        office_env "''l51''" full_store]
    by (simp add: ten_lines_def fixed_time_env_def s e b length_fifty_lines)
qed

subsection \<open>The daily alarms\<close>

lemma parse_0900: "parse_time ''09:00'' = Some (9, 0)"
  by (simp add: parse_time_def js_Number_def digit_value_def)

lemma parse_1730: "parse_time ''17:30'' = Some (17, 30)"
  by (simp add: parse_time_def js_Number_def digit_value_def)

lemma digit_value_char_of: "(d::nat) < 10 \<Longrightarrow> digit_value (char_of (48 + d)) = Some d"
  by (simp add: digit_value_def Let_def)

lemma digit_not_colon: "(d::nat) < 10 \<Longrightarrow> char_of (48 + d) \<noteq> CHR '':''"
proof
  assume d: "d < 10" and eq: "char_of (48 + d) = CHR '':''"
  have "(of_char (char_of (48 + d)) :: nat) = of_char (CHR '':'')" using eq by simp
  then show False using d by simp
qed

lemma js_Number_two_digits: "n < 100 \<Longrightarrow> js_Number (two_digits n) = Some n"
proof -
  assume n: "n < 100"
  then have a: "n div 10 < 10" and b: "n mod 10 < 10" by auto
  show ?thesis
    by (simp add: js_Number_def two_digits_def digit_value_char_of [OF a]
        digit_value_char_of [OF b])
qed

lemma split_hhmm:
  assumes "h < 100" "m < 100"
  shows "split_on CHR '':'' (hhmm h m) = [two_digits h, two_digits m]"
proof -
  have a: "h div 10 < 10" "h mod 10 < 10" "m div 10 < 10" "m mod 10 < 10" using assms by auto
  show ?thesis
    using digit_not_colon [OF a(1)] digit_not_colon [OF a(2)] digit_not_colon [OF a(3)]
      digit_not_colon [OF a(4)]
    by (simp add: hhmm_def two_digits_def)
qed

lemma parse_time_hhmm:
  assumes "h < 100" "m < 100"
  shows "parse_time (hhmm h m) = Some (h, m)"
  by (simp add: parse_time_def split_hhmm [OF assms] js_Number_two_digits assms)

lemma char_of_48: "char_of (48::nat) = CHR ''0''"
  by code_simp

lemma char_of_57: "char_of (57::nat) = CHR ''9''"
  by code_simp

lemma hhmm_0900: "hhmm 9 0 = ''09:00''"
  by (simp add: hhmm_def two_digits_def char_of_48 char_of_57)

lemma setHours_today_at: "setHours t h m = today_at t h m"
  by (simp add: setHours_def today_at_def algebra_simps)

lemma scheduledTime_next_occurrence:
  "(if setHours t h m \<le> t then addDay (setHours t h m) else setHours t h m) =
   next_occurrence t h m"
  by (simp add: setHours_today_at next_occurrence_def addDay_def)

lemma createDailyAlarm_alarm:
  assumes "parse_time time = Some (h, m)"
  shows "createDailyAlarm env name time s =
     Some (bg_log env (name @ '' alarm set for '' @
                       toLocaleString env (next_occurrence (clock s) h m))
            (alarms_create name
               \<lparr>alarm_when = next_occurrence (clock s) h m, periodInMinutes = 24 * 60\<rparr> s))"
  using assms
  by (simp add: createDailyAlarm_def Let_def scheduledTime_next_occurrence)

lemma next_occurrence_future: "now < next_occurrence now h m"
proof -
  have "now < (now div 86400000) * 86400000 + 86400000"
    using div_mult_mod_eq [of now 86400000] mod_less_divisor [of 86400000 now] by linarith
  then show ?thesis by (simp add: next_occurrence_def today_at_def msPerDay_def)
qed

lemma next_occurrence_within_day:
  assumes "h < 24" "m < 60"
  shows "next_occurrence now h m \<le> now + msPerDay"
    and "next_occurrence now h m mod msPerDay = (h * 60 + m) * 60000"
proof -
  have lt: "(h * 60 + m) * 60000 < 86400000" using assms by simp
  have sod: "(now div 86400000) * 86400000 \<le> now" by simp
  show "next_occurrence now h m \<le> now + msPerDay"
    using lt sod by (auto simp add: next_occurrence_def today_at_def msPerDay_def)
  show "next_occurrence now h m mod msPerDay = (h * 60 + m) * 60000"
    using lt by (simp add: next_occurrence_def today_at_def msPerDay_def)
qed

text \<open>
  Claim C4. For every time of day \<open>HH:MM\<close> and every current time, \<open>createDailyAlarm\<close>
  (the same text in the Firefox and in the Chrome scheduler) creates the alarm for
  today's occurrence of \<open>HH:MM\<close> if that instant is still ahead, and for tomorrow's
  otherwise, with a period of one day. That instant is strictly after now, at most one
  day away, and its time of day is \<open>HH:MM\<close>.
\<close>

theorem createDailyAlarm_next_occurrence:
  assumes "h < 24" and "m < 60"
  shows "createDailyAlarm env name (hhmm h m) s \<noteq> None \<and>
     alarms (the (createDailyAlarm env name (hhmm h m) s)) name =
       Some \<lparr>alarm_when = next_occurrence (clock s) h m, periodInMinutes = 24 * 60\<rparr> \<and>
     clock s < next_occurrence (clock s) h m \<and>
     next_occurrence (clock s) h m \<le> clock s + msPerDay \<and>
     next_occurrence (clock s) h m mod msPerDay = (h * 60 + m) * 60000"
proof -
  have p: "parse_time (hhmm h m) = Some (h, m)"
    using assms by (intro parse_time_hhmm) simp_all
  have "alarms (the (createDailyAlarm env name (hhmm h m) s)) name =
       Some \<lparr>alarm_when = next_occurrence (clock s) h m, periodInMinutes = 24 * 60\<rparr>"
    by (simp add: createDailyAlarm_alarm [OF p] bg_log_def alarms_create_def Let_def)
  moreover have "createDailyAlarm env name (hhmm h m) s \<noteq> None"
    by (simp add: createDailyAlarm_alarm [OF p])
  ultimately show ?thesis
    using next_occurrence_future [of "clock s" h m]
      next_occurrence_within_day [OF assms, of "clock s"]
    by simp
qed

text \<open>Enabled with \<open>09:00\<close> at 10:00 of day 5, the alarm is set for 09:00 of day 6.\<close>

theorem createDailyAlarm_next_occurrence_witness:
  "(9::nat) < 24 \<and> (0::nat) < 60 \<and> hhmm 9 0 = ''09:00'' \<and>
   clock ten_oclock = 5 * msPerDay + 10 * 3600000 \<and>
   createDailyAlarm office_env ''checkin'' ''09:00'' ten_oclock \<noteq> None \<and>
   alarms (the (createDailyAlarm office_env ''checkin'' ''09:00'' ten_oclock)) ''checkin'' =
     Some \<lparr>alarm_when = 6 * msPerDay + 9 * 3600000, periodInMinutes = 24 * 60\<rparr>"
  using createDailyAlarm_next_occurrence [of 9 0 office_env "''checkin''" ten_oclock]
  by (simp add: ten_oclock_def hhmm_0900 next_occurrence_def today_at_def msPerDay_def)

subsection \<open>Start-up of the scheduler\<close>

lemma bg_log_fields [simp]:
  "alarms (bg_log env msg s) = alarms s"
  "clock (bg_log env msg s) = clock s"
  "attendance_effects (effects (bg_log env msg s)) = attendance_effects (effects s)"
  by (simp_all add: bg_log_def Let_def attendance_effects_def)

lemma alarms_clear_fields [simp]:
  "alarms (alarms_clear name s) = (alarms s)(name := None)"
  "clock (alarms_clear name s) = clock s"
  "attendance_effects (effects (alarms_clear name s)) = attendance_effects (effects s)"
  by (simp_all add: alarms_clear_def attendance_effects_def)

lemma clearSchedule_fields [simp]:
  "clock (clearSchedule env s) = clock s"
  "attendance_effects (effects (clearSchedule env s)) = attendance_effects (effects s)"
  by (simp_all add: clearSchedule_def)

lemma alarms_create_fields [simp]:
  "alarms (alarms_create name a s) = (alarms s)(name \<mapsto> a)"
  "clock (alarms_create name a s) = clock s"
  "attendance_effects (effects (alarms_create name a s)) = attendance_effects (effects s)"
  by (simp_all add: alarms_create_def attendance_effects_def)

text \<open>
  Claim C3, as amended. On start-up with the schedule enabled, \<open>loadSettings\<close> clears both
  alarms and creates each anew for the next occurrence of its time of day that is
  strictly after now, with a period of one day; it performs no attendance itself: no tab
  is queried or created, no message is sent and no notification is shown. The scheduler
  has no catch-up for an occurrence that elapsed before start-up.
\<close>

theorem loadSettings_rearms_without_firing:
  assumes "autoSchedule s = Some True"
    and "parse_time (case checkinTime s of None \<Rightarrow> ''09:00'' | Some t \<Rightarrow> t) = Some (h1, m1)"
    and "parse_time (case checkoutTime s of None \<Rightarrow> ''17:30'' | Some t \<Rightarrow> t) = Some (h2, m2)"
  shows "loadSettings env s \<noteq> None \<and>
     alarms (the (loadSettings env s)) ''checkin'' =
       Some \<lparr>alarm_when = next_occurrence (clock s) h1 m1, periodInMinutes = 24 * 60\<rparr> \<and>
     alarms (the (loadSettings env s)) ''checkout'' =
       Some \<lparr>alarm_when = next_occurrence (clock s) h2 m2, periodInMinutes = 24 * 60\<rparr> \<and>
     clock s < next_occurrence (clock s) h1 m1 \<and>
     clock s < next_occurrence (clock s) h2 m2 \<and>
     attendance_effects (effects (the (loadSettings env s))) = attendance_effects (effects s)"
proof -
  let ?ci = "case checkinTime s of None \<Rightarrow> ''09:00'' | Some t \<Rightarrow> t"
  let ?co = "case checkoutTime s of None \<Rightarrow> ''17:30'' | Some t \<Rightarrow> t"
  have ls: "loadSettings env s = setupSchedule env ?ci ?co s"
    using assms(1) by (simp add: loadSettings_def)
  have "loadSettings env s \<noteq> None"
    unfolding ls setupSchedule_def
    by (simp add: createDailyAlarm_alarm [OF assms(2)] createDailyAlarm_alarm [OF assms(3)])
  moreover have "alarms (the (loadSettings env s)) ''checkin'' =
       Some \<lparr>alarm_when = next_occurrence (clock s) h1 m1, periodInMinutes = 24 * 60\<rparr>"
    unfolding ls setupSchedule_def
    by (simp add: createDailyAlarm_alarm [OF assms(2)] createDailyAlarm_alarm [OF assms(3)])
  moreover have "alarms (the (loadSettings env s)) ''checkout'' =
       Some \<lparr>alarm_when = next_occurrence (clock s) h2 m2, periodInMinutes = 24 * 60\<rparr>"
    unfolding ls setupSchedule_def
    by (simp add: createDailyAlarm_alarm [OF assms(2)] createDailyAlarm_alarm [OF assms(3)])
  moreover have "attendance_effects (effects (the (loadSettings env s))) =
      attendance_effects (effects s)"
    unfolding ls setupSchedule_def
    by (simp add: createDailyAlarm_alarm [OF assms(2)] createDailyAlarm_alarm [OF assms(3)])
  ultimately show ?thesis
    using next_occurrence_future by simp
qed

theorem loadSettings_rearms_without_firing_witness:
  "autoSchedule overslept = Some True \<and>
   parse_time (case checkinTime overslept of None \<Rightarrow> ''09:00'' | Some t \<Rightarrow> t) = Some (9, 0) \<and>
   parse_time (case checkoutTime overslept of None \<Rightarrow> ''17:30'' | Some t \<Rightarrow> t) = Some (17, 30) \<and>
   alarms (the (loadSettings office_env overslept)) ''checkin'' =
       Some \<lparr>alarm_when = 550800000, periodInMinutes = 1440\<rparr> \<and>
   attendance_effects (effects (the (loadSettings office_env overslept))) = []"
proof -
  have a: "autoSchedule overslept = Some True" by (simp add: overslept_def ten_oclock_def)
  have b: "parse_time (case checkinTime overslept of None \<Rightarrow> ''09:00'' | Some t \<Rightarrow> t) =
      Some (9, 0)"
    by (simp add: overslept_def ten_oclock_def parse_0900)
  have c: "parse_time (case checkoutTime overslept of None \<Rightarrow> ''17:30'' | Some t \<Rightarrow> t) =
      Some (17, 30)"
    by (simp add: overslept_def ten_oclock_def parse_1730)
  have d: "next_occurrence (clock overslept) 9 0 = 550800000"
    by (simp add: overslept_def ten_oclock_def next_occurrence_def today_at_def msPerDay_def)
  have e: "attendance_effects (effects overslept) = []"
    by (simp add: overslept_def ten_oclock_def attendance_effects_def)
  show ?thesis
    using loadSettings_rearms_without_firing [OF a b c, of office_env] a b c d e by simp
qed

text \<open>
  Claim C3 as stated fails: at 10:00 of day 5 (clock 468000000), with the schedule
  enabled and the check-in alarm due since 09:00 of that day (464400000), everything
  \<open>loadSettings\<close> does is clear the two alarms, create them anew (check-in for 09:00 of
  day 6, 550800000) and write four log lines. No attendance is performed.
\<close>

theorem startup_catch_up_counterexample:
  "autoSchedule overslept = Some True \<and>
   alarms overslept ''checkin'' = Some \<lparr>alarm_when = 464400000, periodInMinutes = 1440\<rparr> \<and>
   464400000 < clock overslept \<and>
   loadSettings office_env overslept \<noteq> None \<and>
   effects (the (loadSettings office_env overslept)) =
     [AlarmsClear ''checkin'', AlarmsClear ''checkout'',
      Console ''[some day] Schedule cleared'',
      AlarmsCreate ''checkin'' \<lparr>alarm_when = 550800000, periodInMinutes = 1440\<rparr>,
      Console ''[some day] checkin alarm set for some day'',
      AlarmsCreate ''checkout'' \<lparr>alarm_when = 495000000, periodInMinutes = 1440\<rparr>,
      Console ''[some day] checkout alarm set for some day'',
      Console ''[some day] Schedule set: Check-in at 09:00, Check-out at 17:30''] \<and>
   attendance_effects (effects (the (loadSettings office_env overslept))) = []"
  by (simp add: overslept_def ten_oclock_def office_env_def loadSettings_def setupSchedule_def
      createDailyAlarm_alarm [OF parse_0900] createDailyAlarm_alarm [OF parse_1730]
      clearSchedule_def alarms_clear_def alarms_create_def bg_log_def Let_def
      attendance_effects_def next_occurrence_def today_at_def msPerDay_def)

text \<open>
  The four log lines of that start-up are written within one run of the handler: the four
  reads are requested before any write, every callback is handed the list stored before,
  and the write of the last line is served last. The persisted log ends with that line
  alone.
\<close>

lemma overwritten_log_lines:
  "stored_logs (storage_drain (the (loadSettings office_env overslept))) =
     Some [\<lparr>timestamp = ''some day'',
            log_message = ''Schedule set: Check-in at 09:00, Check-out at 17:30'',
            log_type = ''info''\<rparr>]"
proof -
  let ?s2 = "the (createDailyAlarm office_env ''checkout'' ''17:30''
      (the (createDailyAlarm office_env ''checkin'' ''09:00'' (clearSchedule office_env overslept))))"
  have ls: "the (loadSettings office_env overslept) =
      bg_log office_env ''Schedule set: Check-in at 09:00, Check-out at 17:30'' ?s2"
    by (simp add: overslept_def ten_oclock_def loadSettings_def setupSchedule_def
        createDailyAlarm_alarm [OF parse_0900] createDailyAlarm_alarm [OF parse_1730])
  have q: "landed (storage_pending ?s2) (stored_logs ?s2) = None"
    by (simp add: overslept_def ten_oclock_def office_env_def
        createDailyAlarm_alarm [OF parse_0900] createDailyAlarm_alarm [OF parse_1730]
        clearSchedule_def alarms_clear_def alarms_create_def bg_log_def Let_def)
  have c: "toLocaleString office_env (clock ?s2) = ''some day''"
    by (simp add: office_env_def)
  show ?thesis
    unfolding ls bg_log_stored q c
    by (simp add: log_entry_def cross_mark_def check_mark_def)
qed

subsection \<open>A scheduled firing\<close>

lemma keeps_alarmsI:
  "(\<And>s r s'. m s = (r, s') \<Longrightarrow> alarms s' = alarms s) \<Longrightarrow> keeps_alarms m"
  by (simp add: keeps_alarms_def)

lemma keeps_alarmsD: "keeps_alarms m \<Longrightarrow> m s = (r, s') \<Longrightarrow> alarms s' = alarms s"
  by (simp add: keeps_alarms_def)

lemma keeps_and_then:
  assumes "keeps_alarms m" and "\<And>x. keeps_alarms (f x)"
  shows "keeps_alarms (and_then m f)"
proof (rule keeps_alarmsI)
  fix s r s' assume run: "and_then m f s = (r, s')"
  obtain r1 s1 where m: "m s = (r1, s1)" by (cases "m s")
  have a1: "alarms s1 = alarms s" using assms(1) m by (rule keeps_alarmsD)
  show "alarms s' = alarms s"
  proof (cases r1)
    case (Ok x)
    with run m have "f x s1 = (r, s')" by (simp add: and_then_def)
    with assms(2) have "alarms s' = alarms s1" by (rule keeps_alarmsD)
    with a1 show ?thesis by simp
  next
    case (Throw e)
    with run m a1 show ?thesis by (simp add: and_then_def)
  next
    case Pending
    with run m a1 show ?thesis by (simp add: and_then_def)
  qed
qed

lemma keeps_try_catch:
  assumes "keeps_alarms m" and "\<And>e. keeps_alarms (h e)"
  shows "keeps_alarms (try_catch m h)"
proof (rule keeps_alarmsI)
  fix s r s' assume run: "try_catch m h s = (r, s')"
  obtain r1 s1 where m: "m s = (r1, s1)" by (cases "m s")
  have a1: "alarms s1 = alarms s" using assms(1) m by (rule keeps_alarmsD)
  show "alarms s' = alarms s"
  proof (cases r1)
    case (Throw e)
    with run m have "h e s1 = (r, s')" by (simp add: try_catch_def)
    with assms(2) have "alarms s' = alarms s1" by (rule keeps_alarmsD)
    with a1 show ?thesis by simp
  next
    case (Ok x)
    with run m a1 show ?thesis by (simp add: try_catch_def)
  next
    case Pending
    with run m a1 show ?thesis by (simp add: try_catch_def)
  qed
qed

lemma bg_does_alarms [simp]: "alarms (bg_does ev s) = alarms s"
  by (simp add: bg_does_def)

lemma bg_showNotification_alarms [simp]: "alarms (bg_showNotification ty st e s) = alarms s"
  by (simp add: bg_showNotification_def Let_def)

lemma keeps_tabs_query: "keeps_alarms (tabs_query_bg env)"
  by (rule keeps_alarmsI) (auto simp add: tabs_query_bg_def Let_def split: sum.splits)

lemma keeps_tabs_create: "keeps_alarms (tabs_create_bg env u a)"
  by (rule keeps_alarmsI) (auto simp add: tabs_create_bg_def Let_def split: sum.splits)

lemma keeps_waitForTabLoad: "keeps_alarms (waitForTabLoad env t)"
  by (rule keeps_alarmsI) (auto simp add: waitForTabLoad_def split: if_splits)

lemma keeps_tabs_sendMessage: "keeps_alarms (tabs_sendMessage_bg env t req)"
  by (rule keeps_alarmsI) (auto simp add: tabs_sendMessage_bg_def Let_def split: delivery.splits)

lemma keeps_sendAttendanceMessage: "keeps_alarms (sendAttendanceMessage env t ty)"
  unfolding sendAttendanceMessage_def
  by (intro keeps_try_catch keeps_and_then keeps_tabs_sendMessage)
     (auto intro!: keeps_alarmsI split: if_splits)

lemma keeps_located:
  "keeps_alarms
     (case tabs of
        [] \<Rightarrow>
          and_then (tabs_create_bg env ''https://people.zoho.com'' False) (\<lambda>tab.
          and_then (waitForTabLoad env (tab_id tab)) (\<lambda>_.
          sendAttendanceMessage env (tab_id tab) ty))
      | tab # _ \<Rightarrow> sendAttendanceMessage env (tab_id tab) ty)"
  by (cases tabs)
     (auto intro!: keeps_and_then keeps_tabs_create keeps_waitForTabLoad
        keeps_sendAttendanceMessage)

lemma keeps_scheduled_run:
  "keeps_alarms (try_catch
       (and_then (tabs_query_bg env) (\<lambda>tabs.
        and_then
          (case tabs of
             [] \<Rightarrow>
               and_then (tabs_create_bg env ''https://people.zoho.com'' False) (\<lambda>tab.
               and_then (waitForTabLoad env (tab_id tab)) (\<lambda>_.
               sendAttendanceMessage env (tab_id tab) ty))
           | tab # _ \<Rightarrow> sendAttendanceMessage env (tab_id tab) ty)
          (\<lambda>_ s'. (Ok (), bg_showNotification ty ''success'' None s'))))
       (\<lambda>e s'. (Ok (),
                 bg_showNotification ty ''error'' (Some e)
                   (bg_log env (cross_mark @ '' Scheduled '' @ ty @ '' failed: '' @ e) s'))))"
  by (intro keeps_try_catch keeps_and_then keeps_tabs_query keeps_located)
     (auto intro!: keeps_alarmsI)

lemma performScheduledAttendance_alarms:
  "alarms (snd (performScheduledAttendance env ty s)) = alarms s"
proof -
  obtain r s' where run: "performScheduledAttendance env ty s = (r, s')"
    by (cases "performScheduledAttendance env ty s")
  then have "alarms s' = alarms (bg_log env (bell @ '' Scheduled '' @ ty @ '' triggered'') s)"
    unfolding performScheduledAttendance_def
    using keeps_scheduled_run by (rule keeps_alarmsD [rotated])
  with run show ?thesis by simp
qed

lemma try_catch_no_throw:
  assumes "\<And>e s1. \<forall>m. fst (h e s1) \<noteq> Throw m"
  shows "fst (try_catch body h s) \<noteq> Throw m"
proof -
  obtain r1 s1 where b: "body s = (r1, s1)" by (cases "body s")
  show ?thesis
  proof (cases r1)
    case (Throw e)
    with b have "try_catch body h s = h e s1" by (simp add: try_catch_def)
    with assms show ?thesis by simp
  next
    case (Ok x)
    with b show ?thesis by (simp add: try_catch_def)
  next
    case Pending
    with b show ?thesis by (simp add: try_catch_def)
  qed
qed

lemma performScheduledAttendance_no_throw:
  "fst (performScheduledAttendance env ty s) \<noteq> Throw m"
  unfolding performScheduledAttendance_def
  by (rule try_catch_no_throw) simp

lemma settles_or_pends: "(\<And>m. r \<noteq> Throw m) \<Longrightarrow> r = Ok () \<or> r = Pending"
  by (cases r) auto

text \<open>
  Claim C7. Whatever the browser answers (the tab query or the tab creation rejected,
  the message rejected, unanswered or answered with a failure such as the one of an
  exhausted chain, or answered with success), \<open>performScheduledAttendance\<close> never throws
  to its caller: it returns, or stays pending while the browser does. It leaves every
  alarm as it is. So when a daily alarm goes off, the browser moves it one day ahead and
  the handler does not undo that: the schedule stays armed for the next day.
\<close>

theorem scheduled_firing_never_throws_nor_disarms:
  "(fst (performScheduledAttendance env ty s) = Ok () \<or>
    fst (performScheduledAttendance env ty s) = Pending) \<and>
   alarms (snd (performScheduledAttendance env ty s)) = alarms s \<and>
   (alarms s name = Some a \<and> periodInMinutes a = 24 * 60 \<longrightarrow>
      (fst (alarm_goes_off env name s) = Ok () \<or> fst (alarm_goes_off env name s) = Pending) \<and>
      alarms (snd (alarm_goes_off env name s)) name =
        Some (a\<lparr>alarm_when := alarm_when a + msPerDay\<rparr>))"
proof -
  have never: "fst (performScheduledAttendance env t s0) = Ok () \<or>
      fst (performScheduledAttendance env t s0) = Pending" for t s0
    by (rule settles_or_pends) (rule performScheduledAttendance_no_throw)
  have onAlarm_never: "fst (onAlarm env name s0) = Ok () \<or> fst (onAlarm env name s0) = Pending"
    for s0
    using never by (simp add: onAlarm_def)
  have onAlarm_alarms: "alarms (snd (onAlarm env name s0)) = alarms s0" for s0
    by (simp add: onAlarm_def performScheduledAttendance_alarms)
  have goes_off: "(fst (alarm_goes_off env name s) = Ok () \<or>
        fst (alarm_goes_off env name s) = Pending) \<and>
      alarms (snd (alarm_goes_off env name s)) name =
        Some (a\<lparr>alarm_when := alarm_when a + msPerDay\<rparr>)"
    if "alarms s name = Some a" and "periodInMinutes a = 24 * 60"
    using that onAlarm_never onAlarm_alarms
    by (simp add: alarm_goes_off_def msPerDay_def)
  from never performScheduledAttendance_alarms goes_off show ?thesis by blast
qed

text \<open>
  The check-in alarm goes off at 09:00 of day 6 while no content script listens in the
  Zoho tab: the failure is logged and notified, the handler returns, and the alarm
  stands for 09:00 of day 7.
\<close>

theorem scheduled_firing_never_throws_nor_disarms_witness:
  "alarms armed ''checkin'' = Some \<lparr>alarm_when = 550800000, periodInMinutes = 1440\<rparr> \<and>
   periodInMinutes \<lparr>alarm_when = 550800000, periodInMinutes = 1440\<rparr> = 24 * 60 \<and>
   fst (alarm_goes_off deaf_tab_env ''checkin'' armed) = Ok () \<and>
   alarms (snd (alarm_goes_off deaf_tab_env ''checkin'' armed)) ''checkin'' =
     Some \<lparr>alarm_when = 637200000, periodInMinutes = 1440\<rparr> \<and>
   attendance_effects (effects (snd (alarm_goes_off deaf_tab_env ''checkin'' armed))) =
     [TabsQueried,
      SentMessage 7 \<lparr>action = ''performAttendance'', rtype = ''checkin''\<rparr>,
      NotificationsCreate (cross_mark @ '' Check-in Failed'')
        ''Failed to send message: Receiving end does not exist'']"
proof -
  have a: "alarms armed ''checkin'' = Some \<lparr>alarm_when = 550800000, periodInMinutes = 1440\<rparr>"
    by (simp add: armed_def)
  have run: "fst (alarm_goes_off deaf_tab_env ''checkin'' armed) = Ok () \<and>
    attendance_effects (effects (snd (alarm_goes_off deaf_tab_env ''checkin'' armed))) =
     [TabsQueried,
      SentMessage 7 \<lparr>action = ''performAttendance'', rtype = ''checkin''\<rparr>,
      NotificationsCreate (cross_mark @ '' Check-in Failed'')
        ''Failed to send message: Receiving end does not exist'']"
    by (simp add: alarm_goes_off_def armed_def ten_oclock_def onAlarm_def
        performScheduledAttendance_def try_catch_def and_then_def tabs_query_bg_def
        sendAttendanceMessage_def tabs_sendMessage_bg_def deaf_tab_env_def bg_does_def
        bg_log_def bg_showNotification_def attendance_effects_def Let_def)
  show ?thesis
    using scheduled_firing_never_throws_nor_disarms
      [of deaf_tab_env "''checkin''" armed "''checkin''"
        "\<lparr>alarm_when = 550800000, periodInMinutes = 1440\<rparr>"] a run
    by (simp add: msPerDay_def)
qed

subsection \<open>The manual trigger\<close>

lemma addLog_did [simp]: "did (addLog env msg ty p) = did p"
  by (simp add: addLog_def updateLogs_def Let_def)

lemma addLog_hd:
  "hd (logs (addLog env msg ty p)) =
     \<lparr>message = ''['' @ toLocaleTimeString env p @ ''] '' @ msg, ltype = ty\<rparr>"
  by (cases "logs p") (simp_all add: addLog_def updateLogs_def Let_def)

lemma does_did [simp]: "did (does evs p) = did p @ evs"
  by (simp add: does_def)

lemma does_logs [simp]: "logs (does evs p) = logs p"
  by (simp add: does_def)

text \<open>
  Claim C10. When the URL of the active tab does not contain \<open>people.zoho.com\<close>, the
  \<open>try\<close> block of \<open>performAttendanceAction\<close> throws
  \<open>Please navigate to Zoho People first\<close>; the action logs and notifies
  \<open><action> failed: Please navigate to Zoho People first\<close>, and all it does is listed
  below: no message is sent to any tab.
\<close>

theorem manual_trigger_away_from_zoho:
  assumes query: "\<And>q. tabs_query env q = Inr (tab # others)"
    and u: "url tab = Some u"
    and away: "\<not> str_includes u ''people.zoho.com''"
  shows "fst (attempt_action env act button p) = Throw ''Please navigate to Zoho People first'' \<and>
     fst (performAttendanceAction env act p) = Ok () \<and>
     did (snd (performAttendanceAction env act p)) =
       did p @
       (let button = (if act = ''checkin'' then ''checkInBtn'' else ''checkOutBtn'')
        in [ClassAdd button ''loading'', SetDisabled button True, TabsQuery,
            ClassAdd button ''error-flash'',
            Notification (act @ '' failed: Please navigate to Zoho People first'') ''error'',
            ClassRemove button ''loading'', SetDisabled button False, SetTimeout 500]) \<and>
     message (hd (logs (snd (performAttendanceAction env act p)))) =
       ''['' @ toLocaleTimeString env
                (does [TabsQuery] (addLog env (''Attempting '' @ act @ ''...'') ''info''
                   (does [ClassAdd (if act = ''checkin'' then ''checkInBtn'' else ''checkOutBtn'') ''loading'',
                          SetDisabled (if act = ''checkin'' then ''checkInBtn'' else ''checkOutBtn'') True] p))) @
       ''] '' @ act @ '' failed: Please navigate to Zoho People first'' \<and>
     ltype (hd (logs (snd (performAttendanceAction env act p)))) = ''error''"
proof -
  have att: "attempt_action env act b q =
      (Throw ''Please navigate to Zoho People first'', does [TabsQuery] q)" for b q
    using query u away by (simp add: attempt_action_def Let_def)
  show ?thesis
    by (simp add: att performAttendanceAction_def Let_def finally_block_def
        showNotification_def addLog_hd)
qed

theorem manual_trigger_away_from_zoho_witness:
  "url \<lparr>tab_id = 3, url = Some ''https://example.org/''\<rparr> = Some ''https://example.org/'' \<and>
   \<not> str_includes ''https://example.org/'' ''people.zoho.com'' \<and>
   did (snd (performAttendanceAction elsewhere_env ''checkout'' new_popup)) =
      [ClassAdd ''checkOutBtn'' ''loading'', SetDisabled ''checkOutBtn'' True, TabsQuery,
       ClassAdd ''checkOutBtn'' ''error-flash'',
       Notification ''checkout failed: Please navigate to Zoho People first'' ''error'',
       ClassRemove ''checkOutBtn'' ''loading'', SetDisabled ''checkOutBtn'' False, SetTimeout 500] \<and>
   message (hd (logs (snd (performAttendanceAction elsewhere_env ''checkout'' new_popup)))) =
      ''[9:00:00 AM] checkout failed: Please navigate to Zoho People first''"
proof -
  have q: "\<And>q. tabs_query elsewhere_env q = Inr (\<lparr>tab_id = 3, url = Some ''https://example.org/''\<rparr> # [])"
    by (simp add: elsewhere_env_def)
  have u: "url \<lparr>tab_id = 3, url = Some ''https://example.org/''\<rparr> = Some ''https://example.org/''"
    by simp
  have away: "\<not> str_includes ''https://example.org/'' ''people.zoho.com''"
    by simp
  have ts: "\<And>q. toLocaleTimeString elsewhere_env q = ''9:00:00 AM''"
    by (simp add: elsewhere_env_def)
  have d: "did new_popup = []" by (simp add: new_popup_def)
  show ?thesis
    using manual_trigger_away_from_zoho [OF q u away, of "''checkout''" "''b''" new_popup] away
    by (simp add: ts d Let_def)
qed

subsection \<open>The detection chain\<close>

lemma chain_view_simps [simp]:
  "chain_view [] = []"
  "chain_view (ev # evs) = chain_step_of ev @ chain_view evs"
  "chain_view (xs @ ys) = chain_view xs @ chain_view ys"
  by (simp_all add: chain_view_def)

lemma touched_simps [simp]:
  "touched [] = []"
  "touched (ev # evs) = touched_of ev @ touched evs"
  "touched (xs @ ys) = touched xs @ touched ys"
  by (simp_all add: touched_def)

lemma quiet_simps [simp]:
  "quiet_on e []"
  "quiet_on e (xs @ ys) \<longleftrightarrow> quiet_on e xs \<and> quiet_on e ys"
  by (auto simp add: quiet_on_def)

lemma guarded_simps [simp]:
  "guarded []"
  "guarded (xs @ ys) \<longleftrightarrow> guarded xs \<and> guarded ys"
  by (auto simp add: guarded_def)

lemma plain_actionI:
  "(\<And>w r w'. m w = (r, w') \<Longrightarrow>
      r \<noteq> Pending \<and> (\<exists>new. trace w' = trace w @ new \<and> quiet_on e new)) \<Longrightarrow>
   plain_action e m"
  by (simp add: plain_action_def)

lemma plain_actionD:
  "plain_action e m \<Longrightarrow> m w = (r, w') \<Longrightarrow>
     r \<noteq> Pending \<and> (\<exists>new. trace w' = trace w @ new \<and> quiet_on e new)"
  by (simp add: plain_action_def)

lemma plain_and_then:
  assumes "plain_action e m" and "\<And>x. plain_action e (f x)"
  shows "plain_action e (and_then m f)"
proof (rule plain_actionI)
  fix w r w' assume run: "and_then m f w = (r, w')"
  obtain r1 w1 where m: "m w = (r1, w1)" by (cases "m w")
  from plain_actionD [OF assms(1) m] obtain n1
    where n1: "trace w1 = trace w @ n1" "quiet_on e n1" and p1: "r1 \<noteq> Pending"
    by blast
  show "r \<noteq> Pending \<and> (\<exists>new. trace w' = trace w @ new \<and> quiet_on e new)"
  proof (cases r1)
    case (Ok x)
    with run m have "f x w1 = (r, w')" by (simp add: and_then_def)
    from plain_actionD [OF assms(2) this] obtain n2
      where "trace w' = trace w1 @ n2" "quiet_on e n2" and p2: "r \<noteq> Pending"
      by blast
    with n1 have "trace w' = trace w @ (n1 @ n2) \<and> quiet_on e (n1 @ n2)" by simp
    with p2 show ?thesis by blast
  next
    case (Throw e)
    with run m n1 show ?thesis by (auto simp add: and_then_def)
  next
    case Pending
    with p1 show ?thesis by simp
  qed
qed

lemma quiet_single: "chain_step_of ev = [] \<Longrightarrow> set (touched_of ev) \<subseteq> {e} \<Longrightarrow> quiet_on e [ev]"
  by (simp add: quiet_on_def)

lemma plain_emit: "quiet_on e [ev] \<Longrightarrow> plain_action e (emit ev)"
  by (rule plain_actionI) (auto simp add: emit_def)

lemma plain_dom_call: "quiet_on e [ev] \<Longrightarrow> plain_action e (dom_call env ev)"
  by (rule plain_actionI) (auto simp add: dom_call_def split: option.splits)

lemma plain_sleep: "plain_action e (sleep ms)"
  unfolding sleep_def by (rule plain_emit) (simp add: quiet_on_def)

lemma plain_set_style: "plain_action e (set_style e p v)"
  by (rule plain_actionI) (auto simp add: set_style_def quiet_on_def)

lemma plain_set_cssText: "plain_action e (set_cssText e css)"
  by (rule plain_actionI) (auto simp add: set_cssText_def quiet_on_def)

lemma plain_forEach:
  assumes "\<And>x. plain_action e (f x)"
  shows "plain_action e (forEach f xs)"
proof (induction xs)
  case Nil
  show ?case by (rule plain_actionI) auto
next
  case (Cons x xs)
  have eq: "forEach f (x # xs) = and_then (f x) (\<lambda>_. forEach f xs)"
    by (rule ext) simp
  have "plain_action e (and_then (f x) (\<lambda>_. forEach f xs))"
    by (rule plain_and_then) (simp_all add: assms Cons)
  with eq show ?case by simp
qed

lemma plain_submit_closest_form: "plain_action e (submit_closest_form env e)"
proof (rule plain_actionI)
  fix w r w' assume run: "submit_closest_form env e w = (r, w')"
  show "r \<noteq> Pending \<and> (\<exists>new. trace w' = trace w @ new \<and> quiet_on e new)"
  proof (cases "closest env w e ''form''")
    case None
    with run show ?thesis by (auto simp add: submit_closest_form_def)
  next
    case (Some form)
    with run have "dom_call env (Submit form) w = (r, w')"
      by (simp add: submit_closest_form_def)
    moreover have "plain_action e (dom_call env (Submit form))"
      by (rule plain_dom_call) (simp add: quiet_on_def)
    ultimately show ?thesis by (rule plain_actionD [rotated])
  qed
qed

lemma plain_marked:
  "plain_action element
     (and_then (set_style element ''outline'' ''3px solid #4ade80'') (\<lambda>_.
      and_then (set_style element ''backgroundColor'' ''rgba(74, 222, 128, 0.2)'') (\<lambda>_.
      and_then (dom_call env (Focus element)) (\<lambda>_.
      and_then (dom_call env (Click element)) (\<lambda>_.
      and_then (forEach (\<lambda>eventType. dom_call env (DispatchEvent element eventType))
                  [''mousedown'', ''mouseup'', ''click'']) (\<lambda>_.
      and_then (submit_closest_form env element) (\<lambda>_.
      and_then (sleep 1000) (\<lambda>_.
      set_cssText element originalStyle))))))))"
  by (intro plain_and_then plain_dom_call plain_sleep plain_set_style
      plain_forEach plain_submit_closest_form plain_set_cssText quiet_single) simp_all

lemma plain_after_click:
  "plain_action element
     (and_then (dom_call env (ScrollIntoView element)) (\<lambda>_.
      and_then (sleep 500) (\<lambda>_ w.
       (let originalStyle = styles w (eid element) in
        and_then (set_style element ''outline'' ''3px solid #4ade80'') (\<lambda>_.
        and_then (set_style element ''backgroundColor'' ''rgba(74, 222, 128, 0.2)'') (\<lambda>_.
        and_then (dom_call env (Focus element)) (\<lambda>_.
        and_then (dom_call env (Click element)) (\<lambda>_.
        and_then (forEach (\<lambda>eventType. dom_call env (DispatchEvent element eventType))
                    [''mousedown'', ''mouseup'', ''click'']) (\<lambda>_.
        and_then (submit_closest_form env element) (\<lambda>_.
        and_then (sleep 1000) (\<lambda>_.
        set_cssText element originalStyle))))))) w))))"
proof -
  have marked: "plain_action element (\<lambda>w.
       (let originalStyle = styles w (eid element) in
        and_then (set_style element ''outline'' ''3px solid #4ade80'') (\<lambda>_.
        and_then (set_style element ''backgroundColor'' ''rgba(74, 222, 128, 0.2)'') (\<lambda>_.
        and_then (dom_call env (Focus element)) (\<lambda>_.
        and_then (dom_call env (Click element)) (\<lambda>_.
        and_then (forEach (\<lambda>eventType. dom_call env (DispatchEvent element eventType))
                    [''mousedown'', ''mouseup'', ''click'']) (\<lambda>_.
        and_then (submit_closest_form env element) (\<lambda>_.
        and_then (sleep 1000) (\<lambda>_.
        set_cssText element originalStyle))))))) w))"
    unfolding Let_def
    by (rule plain_actionI) (erule plain_actionD [OF plain_marked])
  have scroll: "plain_action element (dom_call env (ScrollIntoView element))"
    by (rule plain_dom_call) (simp add: quiet_on_def)
  show ?thesis
    by (rule plain_and_then [OF scroll]) (rule plain_and_then [OF plain_sleep marked])
qed


lemma and_then_emit: "and_then (emit ev) f w = f () (w\<lparr>trace := trace w @ [ev]\<rparr>)"
  by (simp add: and_then_def emit_def)

lemma clickElement_events:
  assumes "clickElement env e w = (r, w')"
  shows "r \<noteq> Pending \<and>
    (\<exists>new. trace w' = trace w @ new \<and> chain_view new = [] \<and>
       e \<in> set (touched new) \<and> set (touched new) \<subseteq> {e})"
proof -
  let ?rest = "and_then (dom_call env (ScrollIntoView e)) (\<lambda>_.
      and_then (sleep 500) (\<lambda>_ w.
       (let originalStyle = styles w (eid e) in
        and_then (set_style e ''outline'' ''3px solid #4ade80'') (\<lambda>_.
        and_then (set_style e ''backgroundColor'' ''rgba(74, 222, 128, 0.2)'') (\<lambda>_.
        and_then (dom_call env (Focus e)) (\<lambda>_.
        and_then (dom_call env (Click e)) (\<lambda>_.
        and_then (forEach (\<lambda>eventType. dom_call env (DispatchEvent e eventType))
                    [''mousedown'', ''mouseup'', ''click'']) (\<lambda>_.
        and_then (submit_closest_form env e) (\<lambda>_.
        and_then (sleep 1000) (\<lambda>_.
        set_cssText e originalStyle))))))) w)))"
  let ?w1 = "w\<lparr>trace := trace w @ [Clicking e]\<rparr>"
  have "?rest ?w1 = clickElement env e w"
    unfolding clickElement_def by (rule and_then_emit [symmetric])
  then have "?rest ?w1 = (r, w')" using assms by (rule trans)
  with plain_after_click
  have "r \<noteq> Pending \<and> (\<exists>n. trace w' = trace ?w1 @ n \<and> quiet_on e n)"
    by (rule plain_actionD)
  then obtain n where p: "r \<noteq> Pending" and n: "trace w' = trace ?w1 @ n" and q: "quiet_on e n"
    by (elim exE conjE)
  from n have "trace w' = trace w @ (Clicking e # n)" by simp
  moreover from q have "chain_view (Clicking e # n) = []" "e \<in> set (touched (Clicking e # n))"
    "set (touched (Clicking e # n)) \<subseteq> {e}"
    by (simp_all add: quiet_on_def)
  ultimately show ?thesis using p by (intro exI [of _ "Clicking e # n"] conjI)
qed

lemma search_okI:
  assumes "\<And>w r w'. m w = (r, w') \<Longrightarrow>
     (\<exists>new. trace w' = trace w @ new \<and> guarded new) \<and>
     (\<forall>d. r = Ok (Some d) \<longrightarrow> success d \<and> method_name d = M) \<and> (r = Pending \<longrightarrow> P)"
  shows "search_ok P M m"
  using assms unfolding search_ok_def by blast

lemma search_okD:
  assumes "search_ok P M m" and "m w = (r, w')"
  shows "\<exists>new. trace w' = trace w @ new \<and> guarded new"
    and "r = Ok (Some d) \<Longrightarrow> success d \<and> method_name d = M"
    and "r = Pending \<Longrightarrow> P"
  using assms unfolding search_ok_def by blast+

lemma search_weaken: "search_ok False M m \<Longrightarrow> search_ok P M m"
  unfolding search_ok_def by blast

lemma search_end: "search_ok P M (\<lambda>w. (Ok None, w))"
  by (rule search_okI) simp

lemma search_click:
  assumes "isElementClickable (Some e)"
  shows "search_ok False M (and_then (clickElement env e) (\<lambda>_. found M x))"
proof (rule search_okI)
  fix w r w' assume run: "and_then (clickElement env e) (\<lambda>_. found M x) w = (r, w')"
  obtain r1 w1 where c: "clickElement env e w = (r1, w1)" by (cases "clickElement env e w")
  from clickElement_events [OF c] obtain new
    where new: "trace w1 = trace w @ new" "chain_view new = []" "set (touched new) \<subseteq> {e}"
      and never: "r1 \<noteq> Pending"
    by (elim exE conjE)
  have g: "guarded new" using new assms by (auto simp add: guarded_def list_all_iff)
  show "(\<exists>new. trace w' = trace w @ new \<and> guarded new) \<and>
     (\<forall>d. r = Ok (Some d) \<longrightarrow> success d \<and> method_name d = M) \<and> (r = Pending \<longrightarrow> False)"
  proof (cases r1)
    case (Ok u)
    with run c have "r = Ok (Some \<lparr>success = True, method_name = M, extra = x\<rparr>)" "w' = w1"
      by (simp_all add: and_then_def found_def)
    with new g show ?thesis by auto
  next
    case (Throw msg)
    with run c have "r = Throw msg" "w' = w1" by (simp_all add: and_then_def)
    with new g show ?thesis by auto
  next
    case Pending
    with never show ?thesis by simp
  qed
qed

lemma search_next:
  assumes a: "search_ok P M a" and b: "search_ok P M b"
  shows "search_ok P M (\<lambda>w. case a w of (Ok None, w') \<Rightarrow> b w' | other \<Rightarrow> other)"
proof (rule search_okI)
  fix w r w'
  assume run: "(case a w of (Ok None, w') \<Rightarrow> b w' | other \<Rightarrow> other) = (r, w')"
  obtain r1 w1 where aw: "a w = (r1, w1)" by (cases "a w")
  from search_okD(1) [OF a aw] obtain n1 where n1: "trace w1 = trace w @ n1" "guarded n1"
    by (elim exE conjE)
  show "(\<exists>new. trace w' = trace w @ new \<and> guarded new) \<and>
     (\<forall>d. r = Ok (Some d) \<longrightarrow> success d \<and> method_name d = M) \<and> (r = Pending \<longrightarrow> P)"
  proof (cases "r1 = Ok None")
    case True
    with run aw have bw: "b w1 = (r, w')" by simp
    from search_okD(1) [OF b bw] obtain n2 where n2: "trace w' = trace w1 @ n2" "guarded n2"
      by (elim exE conjE)
    from n1 n2 have "trace w' = trace w @ (n1 @ n2) \<and> guarded (n1 @ n2)" by simp
    then have "\<exists>new. trace w' = trace w @ new \<and> guarded new" by (rule exI)
    with search_okD(2,3) [OF b bw] show ?thesis by blast
  next
    case False
    with run aw have "r = r1" "w' = w1"
      by (auto split: res.splits option.splits)
    with n1 search_okD(2,3) [OF a aw] show ?thesis by blast
  qed
qed

lemma search_query:
  assumes "\<And>x. search_ok P M (F x)"
  shows "search_ok P M (\<lambda>w. case q w of Inl e \<Rightarrow> (Throw e, w) | Inr x \<Rightarrow> F x w)"
proof (rule search_okI)
  fix w r w'
  assume run: "(case q w of Inl e \<Rightarrow> (Throw e, w) | Inr x \<Rightarrow> F x w) = (r, w')"
  show "(\<exists>new. trace w' = trace w @ new \<and> guarded new) \<and>
     (\<forall>d. r = Ok (Some d) \<longrightarrow> success d \<and> method_name d = M) \<and> (r = Pending \<longrightarrow> P)"
  proof (cases "q w")
    case (Inl e)
    with run show ?thesis by auto
  next
    case (Inr x)
    with run have "F x w = (r, w')" by simp
    with assms [of x] show ?thesis unfolding search_ok_def by blast
  qed
qed

lemma search_selector_elements:
  "search_ok False ''selector'' (selector_elements env keywords selector elements)"
proof (induction elements)
  case Nil
  have "selector_elements env keywords selector [] = (\<lambda>w. (Ok None, w))"
    by (rule ext) simp
  then show ?case by (simp add: search_end)
next
  case (Cons element rest)
  let ?hit = "list_ex (\<lambda>keyword. str_includes
      (toLowerCase (js_or [textContent element, value_attr element, title element])) keyword)
      keywords \<and> isElementClickable (Some element)"
  show ?case
  proof (cases ?hit)
    case True
    then have "selector_elements env keywords selector (element # rest) =
        and_then (clickElement env element) (\<lambda>_. found ''selector'' (''element'', selector))"
      by (intro ext) (auto simp add: Let_def simp del: js_or.simps)
    moreover from True have "isElementClickable (Some element)" by simp
    ultimately show ?thesis by (simp add: search_click)
  next
    case False
    then have "selector_elements env keywords selector (element # rest) =
        selector_elements env keywords selector rest"
      by (intro ext) (auto simp add: Let_def simp del: js_or.simps)
    with Cons show ?thesis by simp
  qed
qed

lemma search_selector_loop:
  "search_ok False ''selector'' (selector_loop env keywords selectors)"
proof (induction selectors)
  case Nil
  have "selector_loop env keywords [] = (\<lambda>w. (Ok None, w))"
    by (rule ext) simp
  then show ?case by (simp add: search_end)
next
  case (Cons selector rest)
  have eq: "selector_loop env keywords (selector # rest) =
      (\<lambda>w. case querySelectorAll env w selector of
             Inl e \<Rightarrow> (Throw e, w)
           | Inr elements \<Rightarrow>
               (\<lambda>w. case selector_elements env keywords selector elements w of
                      (Ok None, w') \<Rightarrow> selector_loop env keywords rest w'
                    | other \<Rightarrow> other) w)"
    by (rule ext) simp
  show ?case
    unfolding eq
    by (rule search_query) (rule search_next [OF search_selector_elements Cons])
qed

lemma search_text_loop: "search_ok False ''text'' (text_loop env texts)"
proof (induction texts)
  case Nil
  have "text_loop env [] = (\<lambda>w. (Ok None, w))" by (rule ext) simp
  then show ?case by (simp add: search_end)
next
  case (Cons searchText rest)
  let ?F = "\<lambda>singleNodeValue w.
      (case singleNodeValue of
         Some node \<Rightarrow>
           if isElementClickable singleNodeValue
           then and_then (clickElement env node) (\<lambda>_. found ''text'' (''text'', searchText)) w
           else text_loop env rest w
       | None \<Rightarrow> text_loop env rest w)"
  have F: "search_ok False ''text'' (?F x)" for x
  proof (cases x)
    case None
    then have "?F x = text_loop env rest" by (intro ext) simp
    with Cons show ?thesis by simp
  next
    case (Some node)
    show ?thesis
    proof (cases "isElementClickable (Some node)")
      case True
      with Some have "?F x =
          and_then (clickElement env node) (\<lambda>_. found ''text'' (''text'', searchText))"
        by (intro ext) simp
      with search_click [OF True] show ?thesis by simp
    next
      case False
      with Some have "?F x = text_loop env rest" by (intro ext) simp
      with Cons show ?thesis by simp
    qed
  qed
  have eq: "text_loop env (searchText # rest) =
      (\<lambda>w. case evaluate env w (text_xpath searchText) of
             Inl e \<Rightarrow> (Throw e, w) | Inr x \<Rightarrow> ?F x w)"
    by (rule ext) simp
  show ?case unfolding eq by (rule search_query) (rule F)
qed

lemma search_aria_loop: "search_ok False ''aria'' (aria_loop env labels)"
proof (induction labels)
  case Nil
  have "aria_loop env [] = (\<lambda>w. (Ok None, w))" by (rule ext) simp
  then show ?case by (simp add: search_end)
next
  case (Cons label rest)
  let ?F = "\<lambda>element w.
      (case element of
         Some el \<Rightarrow>
           if isElementClickable element
           then and_then (clickElement env el) (\<lambda>_. found ''aria'' (''label'', label)) w
           else aria_loop env rest w
       | None \<Rightarrow> aria_loop env rest w)"
  have F: "search_ok False ''aria'' (?F x)" for x
  proof (cases x)
    case None
    then have "?F x = aria_loop env rest" by (intro ext) simp
    with Cons show ?thesis by simp
  next
    case (Some el)
    show ?thesis
    proof (cases "isElementClickable (Some el)")
      case True
      with Some have "?F x =
          and_then (clickElement env el) (\<lambda>_. found ''aria'' (''label'', label))"
        by (intro ext) simp
      with search_click [OF True] show ?thesis by simp
    next
      case False
      with Some have "?F x = aria_loop env rest" by (intro ext) simp
      with Cons show ?thesis by simp
    qed
  qed
  have eq: "aria_loop env (label # rest) =
      (\<lambda>w. case querySelector env w (aria_selector label) of
             Inl e \<Rightarrow> (Throw e, w) | Inr x \<Rightarrow> ?F x w)"
    by (rule ext) simp
  show ?case unfolding eq by (rule search_query) (rule F)
qed

lemma search_form_buttons: "search_ok False ''form'' (form_buttons env ty buttons)"
proof (induction buttons)
  case Nil
  have "form_buttons env ty [] = (\<lambda>w. (Ok None, w))" by (rule ext) simp
  then show ?case by (simp add: search_end)
next
  case (Cons button rest)
  let ?text = "toLowerCase (js_or [textContent button, value_attr button])"
  show ?case
  proof (cases "isCorrectType ty ?text \<and> isElementClickable (Some button)")
    case True
    then have "form_buttons env ty (button # rest) =
        and_then (clickElement env button) (\<lambda>_. found ''form'' (''button'', ?text))"
      by (intro ext) (auto simp add: Let_def simp del: js_or.simps)
    moreover from True have "isElementClickable (Some button)" by simp
    ultimately show ?thesis by (simp add: search_click del: js_or.simps)
  next
    case False
    then have "form_buttons env ty (button # rest) = form_buttons env ty rest"
      by (intro ext) (auto simp add: Let_def simp del: js_or.simps)
    with Cons show ?thesis by simp
  qed
qed

lemma search_form_loop: "search_ok False ''form'' (form_loop env ty forms)"
proof (induction forms)
  case Nil
  have "form_loop env ty [] = (\<lambda>w. (Ok None, w))" by (rule ext) simp
  then show ?case by (simp add: search_end)
next
  case (Cons form rest)
  let ?isAttendanceForm = "list_ex (\<lambda>keyword. str_includes (toLowerCase (textContent form)) keyword)
              [''attendance'', ''check'', ''punch'', ''clock'']"
  show ?case
  proof (cases ?isAttendanceForm)
    case True
    then have eq: "form_loop env ty (form # rest) =
      (\<lambda>w. case element_querySelectorAll env w form form_button_selector of
             Inl e \<Rightarrow> (Throw e, w)
           | Inr buttons \<Rightarrow>
               (\<lambda>w. case form_buttons env ty buttons w of
                      (Ok None, w') \<Rightarrow> form_loop env ty rest w'
                    | other \<Rightarrow> other) w)"
      by (intro ext) (simp add: Let_def)
    show ?thesis
      unfolding eq
      by (rule search_query) (rule search_next [OF search_form_buttons Cons])
  next
    case False
    then have "form_loop env ty (form # rest) = form_loop env ty rest"
      by (intro ext) (simp add: Let_def)
    with Cons show ?thesis by simp
  qed
qed

lemma search_form_search: "search_ok False ''form'' (form_search env ty)"
proof -
  have eq: "form_search env ty =
      (\<lambda>w. case querySelectorAll env w ''form'' of
             Inl e \<Rightarrow> (Throw e, w) | Inr forms \<Rightarrow> form_loop env ty forms w)"
    by (rule ext) (simp add: form_search_def)
  show ?thesis unfolding eq by (rule search_query) (rule search_form_loop)
qed

lemma search_api_elements: "search_ok False ''api'' (api_elements env elements)"
proof (induction elements)
  case Nil
  have "api_elements env [] = (\<lambda>w. (Ok None, w))" by (rule ext) simp
  then show ?case by (simp add: search_end)
next
  case (Cons element rest)
  show ?case
  proof (cases "isElementClickable (Some element)")
    case True
    then have "api_elements env (element # rest) =
        and_then (clickElement env element)
          (\<lambda>_. found ''api'' (''element'', ''attendance element''))"
      by (intro ext) simp
    with search_click [OF True] show ?thesis by simp
  next
    case False
    then have "api_elements env (element # rest) = api_elements env rest"
      by (intro ext) simp
    with Cons show ?thesis by simp
  qed
qed

lemma banner_strategy_other [simp]: "c \<noteq> CHR ''S'' \<Longrightarrow> banner_strategy (c # s) = None"
  by (simp add: banner_strategy_def)

lemma search_api_functions: "search_ok (hangs env) ''api'' (api_functions env names)"
proof (induction names)
  case Nil
  have "api_functions env [] = (\<lambda>w. (Ok None, w))" by (rule ext) simp
  then show ?case by (simp add: search_end)
next
  case (Cons funcName rest)
  show ?case
  proof (rule search_okI)
    fix w r w' assume run: "api_functions env (funcName # rest) w = (r, w')"
    let ?w1 = "w\<lparr>trace := trace w @ [CallFunction funcName]\<rparr>"
    show "(\<exists>new. trace w' = trace w @ new \<and> guarded new) \<and>
       (\<forall>d. r = Ok (Some d) \<longrightarrow> success d \<and> method_name d = ''api'') \<and>
       (r = Pending \<longrightarrow> hangs env)"
    proof (cases "window_fn env w funcName")
      case None
      with run have "api_functions env rest w = (r, w')" by simp
      with Cons show ?thesis unfolding search_ok_def by blast
    next
      case (Some outcome)
      show ?thesis
      proof (cases outcome)
        case Returns
        with Some run
        have "r = Ok (Some \<lparr>success = True, method_name = ''api'', extra = (''function'', funcName)\<rparr>)"
          and "w' = ?w1"
          by (simp_all add: found_def Let_def)
        moreover have "guarded [CallFunction funcName]" by (simp add: guarded_def)
        ultimately show ?thesis by auto
      next
        case (Throws message)
        let ?w2 = "shared_log (''Failed to call '' @ funcName @ '': '' @ message) ''info'' ?w1"
        from Throws Some run have rest: "api_functions env rest ?w2 = (r, w')"
          by (simp add: Let_def)
        from search_okD(1) [OF Cons rest] obtain n where n: "trace w' = trace ?w2 @ n" "guarded n"
          by (elim exE conjE)
        let ?new = "[CallFunction funcName,
            SharedLog (''Failed to call '' @ funcName @ '': '' @ message) ''info''] @ n"
        have "trace w' = trace w @ ?new" using n by (simp add: shared_log_def)
        moreover have "guarded ?new" using n by (simp add: guarded_def)
        ultimately have "\<exists>new. trace w' = trace w @ new \<and> guarded new" by blast
        with search_okD(2,3) [OF Cons rest] show ?thesis by blast
      next
        case NeverSettles
        with Some run have "r = Pending" "w' = ?w1" by (simp_all add: Let_def)
        moreover have "guarded [CallFunction funcName]" by (simp add: guarded_def)
        moreover have "hangs env" using Some NeverSettles unfolding hangs_def by blast
        ultimately show ?thesis by auto
      qed
    qed
  qed
qed

lemma search_api_search: "search_ok (hangs env) ''api'' (api_search env)"
proof -
  let ?b = "\<lambda>w'. case querySelectorAll env w' attendance_selector of
             Inl e \<Rightarrow> (Throw e, w')
           | Inr attendanceElements \<Rightarrow> api_elements env attendanceElements w'"
  have b: "search_ok (hangs env) ''api'' ?b"
    by (rule search_query) (rule search_weaken [OF search_api_elements])
  have eq: "api_search env =
      (\<lambda>w. case api_functions env possibleFunctions w of
             (Ok None, w') \<Rightarrow> ?b w' | other \<Rightarrow> other)"
    by (rule ext) (simp add: api_search_def)
  show ?thesis unfolding eq by (rule search_next [OF search_api_functions b])
qed

lemma strategy_okD:
  assumes "strategy_ok P M s" and "s w = (r, w')"
  shows "\<exists>new. trace w' = trace w @ new \<and> chain_view new = [Consulted M] \<and>
               list_all (\<lambda>e. isElementClickable (Some e)) (touched new)"
    and "r = Ok d \<Longrightarrow> success d \<and> method_name d = M"
    and "r = Pending \<Longrightarrow> P"
  using assms unfolding strategy_ok_def by blast+

lemma strategy_of_search:
  assumes loop: "search_ok P M loop" and banner: "banner_strategy banner = Some M"
  shows "strategy_ok P M (\<lambda>w. or_throw msg loop (shared_log banner ''info'' w))"
  unfolding strategy_ok_def
proof (intro allI impI)
  fix w r w'
  assume run: "or_throw msg loop (shared_log banner ''info'' w) = (r, w')"
  let ?w1 = "shared_log banner ''info'' w"
  obtain r1 w1 where l: "loop ?w1 = (r1, w1)" by (cases "loop ?w1")
  from search_okD(1) [OF loop l] obtain n where n: "trace w1 = trace ?w1 @ n" "guarded n"
    by (elim exE conjE)
  from run l have w': "w' = w1"
    by (auto simp add: or_throw_def split: res.splits option.splits)
  let ?new = "SharedLog banner ''info'' # n"
  have "trace w' = trace w @ ?new" using n w' by (simp add: shared_log_def)
  moreover have "chain_view ?new = [Consulted M]"
    using n banner by (simp add: guarded_def)
  moreover have "list_all (\<lambda>e. isElementClickable (Some e)) (touched ?new)"
    using n by (simp add: guarded_def)
  ultimately have ev: "\<exists>new. trace w' = trace w @ new \<and> chain_view new = [Consulted M] \<and>
               list_all (\<lambda>e. isElementClickable (Some e)) (touched new)"
    by blast
  have ok: "success d \<and> method_name d = M" if "r = Ok d" for d
  proof -
    from that run l have "r1 = Ok (Some d)"
      by (auto simp add: or_throw_def split: res.splits option.splits)
    then show ?thesis by (rule search_okD(2) [OF loop l])
  qed
  have pend: "P" if "r = Pending"
  proof -
    from that run l have "r1 = Pending"
      by (auto simp add: or_throw_def split: res.splits option.splits)
    then show ?thesis by (rule search_okD(3) [OF loop l])
  qed
  from ev ok pend
  show "(\<exists>new. trace w' = trace w @ new \<and> chain_view new = [Consulted M] \<and>
               list_all (\<lambda>e. isElementClickable (Some e)) (touched new)) \<and>
        (\<forall>d. r = Ok d \<longrightarrow> success d \<and> method_name d = M) \<and> (r = Pending \<longrightarrow> P)"
    by blast
qed

lemma strategy_selector: "strategy_ok (hangs env) ''selector'' (findAndClickBySelector env ty)"
proof -
  have "findAndClickBySelector env ty =
      (\<lambda>w. or_throw ''No matching selectors found''
             (selector_loop env (selector_keywords ty) attendanceSelectors)
             (shared_log ''Strategy 1: Selector-based search'' ''info'' w))"
    by (rule ext) (simp add: findAndClickBySelector_def)
  moreover have "strategy_ok (hangs env) ''selector'' \<dots>"
    by (rule strategy_of_search [OF search_weaken [OF search_selector_loop]])
       (simp add: banner_strategy_def)
  ultimately show ?thesis by simp
qed

lemma strategy_text: "strategy_ok (hangs env) ''text'' (findAndClickByText env ty)"
proof -
  have "findAndClickByText env ty =
      (\<lambda>w. or_throw ''No matching text found'' (text_loop env (searchTexts ty))
             (shared_log ''Strategy 2: Text-based search'' ''info'' w))"
    by (rule ext) (simp add: findAndClickByText_def)
  moreover have "strategy_ok (hangs env) ''text'' \<dots>"
    by (rule strategy_of_search [OF search_weaken [OF search_text_loop]])
       (simp add: banner_strategy_def)
  ultimately show ?thesis by simp
qed

lemma strategy_aria: "strategy_ok (hangs env) ''aria'' (findAndClickByAria env ty)"
proof -
  have "findAndClickByAria env ty =
      (\<lambda>w. or_throw ''No matching ARIA labels found'' (aria_loop env (ariaLabels ty))
             (shared_log ''Strategy 3: ARIA-based search'' ''info'' w))"
    by (rule ext) (simp add: findAndClickByAria_def)
  moreover have "strategy_ok (hangs env) ''aria'' \<dots>"
    by (rule strategy_of_search [OF search_weaken [OF search_aria_loop]])
       (simp add: banner_strategy_def)
  ultimately show ?thesis by simp
qed

lemma strategy_form: "strategy_ok (hangs env) ''form'' (findAndClickByForm env ty)"
proof -
  have "findAndClickByForm env ty =
      (\<lambda>w. or_throw ''No matching forms found'' (form_search env ty)
             (shared_log ''Strategy 4: Form-based search'' ''info'' w))"
    by (rule ext) (simp add: findAndClickByForm_def)
  moreover have "strategy_ok (hangs env) ''form'' \<dots>"
    by (rule strategy_of_search [OF search_weaken [OF search_form_search]])
       (simp add: banner_strategy_def)
  ultimately show ?thesis by simp
qed

lemma strategy_api: "strategy_ok (hangs env) ''api'' (findAndClickByAPI env ty)"
proof -
  have "findAndClickByAPI env ty =
      (\<lambda>w. or_throw ''No API methods found'' (api_search env)
             (shared_log ''Strategy 5: API-based approach'' ''info'' w))"
    by (rule ext) (simp add: findAndClickByAPI_def)
  moreover have "strategy_ok (hangs env) ''api'' \<dots>"
    by (rule strategy_of_search [OF search_api_search]) (simp add: banner_strategy_def)
  ultimately show ?thesis by simp
qed

lemma strategies_ok: "list_all2 (strategy_ok (hangs env)) strategy_names (strategies env ty)"
  by (simp add: strategy_names_def strategies_def strategy_selector strategy_text
      strategy_aria strategy_form strategy_api)

lemma failed_view_simps [simp]:
  "failed_view [] = []"
  "failed_view (name # names) = Consulted name # Failed # failed_view names"
  by (simp_all add: failed_view_def)

lemma chain_step_of_levels [simp]:
  "chain_step_of (SharedLog msg ''error'') = [Failed]"
  "chain_step_of (SharedLog msg ''success'') = [Succeeded]"
  by simp_all

lemma strategy_loop_outcome:
  assumes "list_all2 (strategy_ok P) names ss"
    and "strategy_loop ty ss w = (r, w')"
  shows "\<exists>new. trace w' = trace w @ new \<and>
      list_all (\<lambda>e. isElementClickable (Some e)) (touched new) \<and>
      (case r of
         Ok (Some d) \<Rightarrow>
           success d \<and>
           (\<exists>k<length names. method_name d = names ! k \<and>
              chain_view new = failed_view (take k names) @ [Consulted (names ! k), Succeeded])
       | Ok None \<Rightarrow> chain_view new = failed_view names
       | Throw m \<Rightarrow> False
       | Pending \<Rightarrow>
           P \<and> (\<exists>k<length names.
                  chain_view new = failed_view (take k names) @ [Consulted (names ! k)]))"
  using assms
proof (induction names ss arbitrary: w rule: list_all2_induct)
  case Nil
  then have "r = Ok None" "w' = w" by simp_all
  then have "trace w' = trace w @ [] \<and>
      list_all (\<lambda>e. isElementClickable (Some e)) (touched []) \<and>
      (case r of
         Ok (Some d) \<Rightarrow>
           success d \<and>
           (\<exists>k<length []. method_name d = [] ! k \<and>
              chain_view [] = failed_view (take k []) @ [Consulted ([] ! k), Succeeded])
       | Ok None \<Rightarrow> chain_view [] = failed_view []
       | Throw m \<Rightarrow> False
       | Pending \<Rightarrow>
           P \<and> (\<exists>k<length [].
                  chain_view [] = failed_view (take k []) @ [Consulted ([] ! k)]))"
    by simp
  then show ?case by (rule exI)
next
  case (Cons name names s ss)
  obtain r1 w1 where s: "s w = (r1, w1)" by (cases "s w")
  from strategy_okD(1) [OF Cons(1) s] obtain n1
    where n1: "trace w1 = trace w @ n1" "chain_view n1 = [Consulted name]"
      "list_all (\<lambda>e. isElementClickable (Some e)) (touched n1)"
    by (elim exE conjE)
  show ?case
  proof (cases r1)
    case (Ok d)
    from strategy_okD(2) [OF Cons(1) s Ok] have d: "success d" "method_name d = name"
      by simp_all
    let ?log = "SharedLog (ty @ '' successful via '' @ method_name d) ''success''"
    from Cons(4) s Ok d have r: "r = Ok (Some d)" and w': "w' = shared_log
        (ty @ '' successful via '' @ method_name d) ''success'' w1"
      by simp_all
    let ?new = "n1 @ [?log]"
    have "trace w' = trace w @ ?new" using n1 w' by (simp add: shared_log_def)
    moreover have "list_all (\<lambda>e. isElementClickable (Some e)) (touched ?new)"
      using n1 by simp
    moreover have "chain_view ?new = failed_view (take 0 (name # names)) @
        [Consulted ((name # names) ! 0), Succeeded]"
      using n1 by simp
    ultimately show ?thesis using r d by (intro exI [of _ ?new]) auto
  next
    case (Throw e)
    let ?log = "SharedLog (''Strategy failed: '' @ e) ''error''"
    let ?w2 = "shared_log (''Strategy failed: '' @ e) ''error'' w1"
    from Cons(4) s Throw have rest: "strategy_loop ty ss ?w2 = (r, w')" by simp
    from Cons(3) [OF rest] obtain n2
      where n2: "trace w' = trace ?w2 @ n2"
        "list_all (\<lambda>e. isElementClickable (Some e)) (touched n2)"
        and out: "(case r of
           Ok (Some d) \<Rightarrow>
             success d \<and>
             (\<exists>k<length names. method_name d = names ! k \<and>
                chain_view n2 = failed_view (take k names) @ [Consulted (names ! k), Succeeded])
         | Ok None \<Rightarrow> chain_view n2 = failed_view names
         | Throw m \<Rightarrow> False
         | Pending \<Rightarrow>
             P \<and> (\<exists>k<length names.
                    chain_view n2 = failed_view (take k names) @ [Consulted (names ! k)]))"
      by (elim exE conjE)
    let ?new = "n1 @ [?log] @ n2"
    have t: "trace w' = trace w @ ?new" using n1 n2 by (simp add: shared_log_def)
    have c: "list_all (\<lambda>e. isElementClickable (Some e)) (touched ?new)"
      using n1 n2 by simp
    have v: "chain_view ?new = Consulted name # Failed # chain_view n2"
      using n1 by simp
    have "(case r of
           Ok (Some d) \<Rightarrow>
             success d \<and>
             (\<exists>k<length (name # names). method_name d = (name # names) ! k \<and>
                chain_view ?new = failed_view (take k (name # names)) @
                  [Consulted ((name # names) ! k), Succeeded])
         | Ok None \<Rightarrow> chain_view ?new = failed_view (name # names)
         | Throw m \<Rightarrow> False
         | Pending \<Rightarrow>
             P \<and> (\<exists>k<length (name # names).
                    chain_view ?new = failed_view (take k (name # names)) @
                      [Consulted ((name # names) ! k)]))"
    proof (cases r)
      case (Ok found)
      show ?thesis
      proof (cases found)
        case None
        with Ok out v show ?thesis by simp
      next
        case (Some d)
        with Ok out obtain k where k: "success d" "k < length names" "method_name d = names ! k"
          "chain_view n2 = failed_view (take k names) @ [Consulted (names ! k), Succeeded]"
          by auto
        then have "Suc k < length (name # names) \<and> method_name d = (name # names) ! Suc k \<and>
            chain_view ?new = failed_view (take (Suc k) (name # names)) @
              [Consulted ((name # names) ! Suc k), Succeeded]"
          using v by simp
        then have "\<exists>k<length (name # names). method_name d = (name # names) ! k \<and>
            chain_view ?new = failed_view (take k (name # names)) @
              [Consulted ((name # names) ! k), Succeeded]"
          by (intro exI [of _ "Suc k"]) blast
        with Ok Some k(1) show ?thesis by simp
      qed
    next
      case (Throw m)
      with out show ?thesis by simp
    next
      case Pending
      with out obtain k where k: "P" "k < length names"
        "chain_view n2 = failed_view (take k names) @ [Consulted (names ! k)]"
        by auto
      then have "Suc k < length (name # names) \<and>
          chain_view ?new = failed_view (take (Suc k) (name # names)) @
            [Consulted ((name # names) ! Suc k)]"
        using v by simp
      then have "\<exists>k<length (name # names).
          chain_view ?new = failed_view (take k (name # names)) @
            [Consulted ((name # names) ! k)]"
        by (intro exI [of _ "Suc k"]) blast
      with Pending k(1) show ?thesis by simp
    qed
    with t c show ?thesis by (intro exI [of _ ?new]) blast
  next
    case Pending
    from strategy_okD(3) [OF Cons(1) s Pending] have P .
    moreover from Cons(4) s Pending have "r = Pending" "w' = w1" by simp_all
    moreover have "chain_view n1 = failed_view (take 0 (name # names)) @
        [Consulted ((name # names) ! 0)]"
      using n1 by simp
    ultimately show ?thesis using n1 by (intro exI [of _ n1]) auto
  qed
qed


lemma consulted_simps [simp]:
  "consulted [] = []"
  "consulted (step # steps) = consulted_of step @ consulted steps"
  "consulted (xs @ ys) = consulted xs @ consulted ys"
  by (simp_all add: consulted_def)

lemma consulted_failed_view [simp]: "consulted (failed_view names) = names"
  by (induction names) simp_all

lemma take_Suc_nth: "k < length xs \<Longrightarrow> take k xs @ [xs ! k] = take (Suc k) xs"
  by (simp add: take_Suc_conv_app_nth)

lemma chain_outcome:
  assumes run: "performAttendance env ty w = (r, w')"
  shows "\<exists>new. trace w' = trace w @ new \<and>
      list_all (\<lambda>e. isElementClickable (Some e)) (touched new) \<and>
      (\<exists>k\<le>5. consulted (chain_view new) = take k strategy_names) \<and>
      (case r of
         Ok d \<Rightarrow>
           success d \<and>
           (\<exists>k<5. method_name d = strategy_names ! k \<and>
              chain_view new =
                failed_view (take k strategy_names) @ [Consulted (strategy_names ! k), Succeeded])
       | Throw m \<Rightarrow>
           m = ''Could not find '' @ ty @ '' button on this page'' \<and>
           chain_view new = failed_view strategy_names
       | Pending \<Rightarrow>
           hangs env \<or> (readyState env (shared_log (''Attempting '' @ ty @ ''...'') ''info'' w)
                          \<noteq> ''complete'' \<and>
                        \<not> load_fires env (shared_log (''Attempting '' @ ty @ ''...'') ''info'' w)))"
proof -
  let ?attempt = "SharedLog (''Attempting '' @ ty @ ''...'') ''info''"
  let ?w0 = "shared_log (''Attempting '' @ ty @ ''...'') ''info'' w"
  let ?loaded = "readyState env ?w0 = ''complete'' \<or> load_fires env ?w0"
  have len: "length strategy_names = 5" by (simp add: strategy_names_def)
  have quiet0: "chain_view [?attempt] = []" "touched [?attempt] = []" by simp_all
  show ?thesis
  proof (cases ?loaded)
    case False
    then have "waitForPageLoad env ?w0 = (Pending, ?w0)" by (simp add: waitForPageLoad_def)
    with run have r: "r = Pending" "w' = ?w0"
      by (simp_all add: performAttendance_def and_then_def)
    have "trace w' = trace w @ [?attempt]" using r by (simp add: shared_log_def)
    moreover have "consulted (chain_view [?attempt]) = take 0 strategy_names" by simp
    ultimately show ?thesis using r False quiet0
      by (intro exI [of _ "[?attempt]"]) auto
  next
    case True
    then have "waitForPageLoad env ?w0 = (Ok (), ?w0)" by (auto simp add: waitForPageLoad_def)
    with run have run': "or_throw (''Could not find '' @ ty @ '' button on this page'')
        (strategy_loop ty (strategies env ty)) ?w0 = (r, w')"
      by (simp add: performAttendance_def and_then_def)
    obtain r1 w1 where loop: "strategy_loop ty (strategies env ty) ?w0 = (r1, w1)"
      by (cases "strategy_loop ty (strategies env ty) ?w0")
    from strategy_loop_outcome [OF strategies_ok loop] obtain n
      where n: "trace w1 = trace ?w0 @ n"
        "list_all (\<lambda>e. isElementClickable (Some e)) (touched n)"
      and out: "(case r1 of
         Ok (Some d) \<Rightarrow>
           success d \<and>
           (\<exists>k<length strategy_names. method_name d = strategy_names ! k \<and>
              chain_view n =
                failed_view (take k strategy_names) @ [Consulted (strategy_names ! k), Succeeded])
       | Ok None \<Rightarrow> chain_view n = failed_view strategy_names
       | Throw m \<Rightarrow> False
       | Pending \<Rightarrow>
           hangs env \<and> (\<exists>k<length strategy_names.
                  chain_view n = failed_view (take k strategy_names) @
                    [Consulted (strategy_names ! k)]))"
      by (elim exE conjE)
    from run' loop have w': "w' = w1"
      by (auto simp add: or_throw_def split: res.splits option.splits)
    let ?new = "?attempt # n"
    have t: "trace w' = trace w @ ?new" using n w' by (simp add: shared_log_def)
    have c: "list_all (\<lambda>e. isElementClickable (Some e)) (touched ?new)" using n by simp
    have v: "chain_view ?new = chain_view n" by simp
    have "(\<exists>k\<le>5. consulted (chain_view n) = take k strategy_names) \<and>
      (case r of
         Ok d \<Rightarrow>
           success d \<and>
           (\<exists>k<5. method_name d = strategy_names ! k \<and>
              chain_view n =
                failed_view (take k strategy_names) @ [Consulted (strategy_names ! k), Succeeded])
       | Throw m \<Rightarrow>
           m = ''Could not find '' @ ty @ '' button on this page'' \<and>
           chain_view n = failed_view strategy_names
       | Pending \<Rightarrow> hangs env \<or> (readyState env ?w0 \<noteq> ''complete'' \<and> \<not> load_fires env ?w0))"
    proof (cases r1)
      case (Ok found)
      show ?thesis
      proof (cases found)
        case None
        with Ok run' loop have r: "r = Throw (''Could not find '' @ ty @ '' button on this page'')"
          by (simp add: or_throw_def)
        from None Ok out have view: "chain_view n = failed_view strategy_names" by simp
        then have "consulted (chain_view n) = take 5 strategy_names" using len by simp
        then have "\<exists>k\<le>5. consulted (chain_view n) = take k strategy_names" by blast
        with r view show ?thesis by simp
      next
        case (Some d)
        with Ok run' loop have r: "r = Ok d" by (simp add: or_throw_def)
        from Some Ok out len obtain k where k: "success d" "k < 5"
          "method_name d = strategy_names ! k"
          "chain_view n =
             failed_view (take k strategy_names) @ [Consulted (strategy_names ! k), Succeeded]"
          by auto
        have "consulted (chain_view n) = take k strategy_names @ [strategy_names ! k]"
          using k(4) by simp
        also have "\<dots> = take (Suc k) strategy_names"
          using k(2) len by (simp add: take_Suc_nth)
        finally have "\<exists>j\<le>5. consulted (chain_view n) = take j strategy_names"
          using k(2) by (intro exI [of _ "Suc k"]) simp
        moreover have "\<exists>k<5. method_name d = strategy_names ! k \<and>
              chain_view n =
                failed_view (take k strategy_names) @ [Consulted (strategy_names ! k), Succeeded]"
          using k by blast
        ultimately show ?thesis using r k(1) by simp
      qed
    next
      case (Throw m)
      with out show ?thesis by simp
    next
      case Pending
      with run' loop have r: "r = Pending" by (simp add: or_throw_def)
      from Pending out len obtain k where k: "hangs env" "k < 5"
        "chain_view n = failed_view (take k strategy_names) @ [Consulted (strategy_names ! k)]"
        by auto
      have "consulted (chain_view n) = take k strategy_names @ [strategy_names ! k]"
        using k(3) by simp
      also have "\<dots> = take (Suc k) strategy_names"
        using k(2) len by (simp add: take_Suc_nth)
      finally have "\<exists>j\<le>5. consulted (chain_view n) = take j strategy_names"
        using k(2) by (intro exI [of _ "Suc k"]) simp
      with r k(1) show ?thesis by simp
    qed
    with t c v show ?thesis by (intro exI [of _ ?new]) (simp only: simp_thms)
  qed
qed

lemma and_then_dom_call:
  "dom_throws env w ev = None \<Longrightarrow>
   and_then (dom_call env ev) f w = f () (w\<lparr>trace := trace w @ [ev]\<rparr>)"
  by (simp add: and_then_def dom_call_def)

lemma and_then_sleep: "and_then (sleep ms) f w = f () (w\<lparr>trace := trace w @ [Sleep ms]\<rparr>)"
  by (simp add: sleep_def and_then_emit)

lemma and_then_set_style:
  "and_then (set_style e prop v) f w =
     f () (w\<lparr>trace := trace w @ [SetStyle e prop v],
             styles := (styles w)(eid e := AList.update prop v (styles w (eid e)))\<rparr>)"
  by (simp add: and_then_def set_style_def)

lemma and_then_forEach_Nil: "and_then (forEach g []) f w = f () w"
  by (simp add: and_then_def)

lemma and_then_forEach_Cons:
  "and_then (forEach g (x # xs)) f w = and_then (g x) (\<lambda>_. and_then (forEach g xs) f) w"
  by (simp add: and_then_def split: prod.splits res.splits)

lemma clickElement_to_marked:
  assumes "\<And>w ev. dom_throws env w ev = None"
  shows "clickElement env e w =
     and_then (submit_closest_form env e) (\<lambda>_.
       and_then (sleep 1000) (\<lambda>_. set_cssText e (styles w (eid e)))) (marked e w)"
  unfolding clickElement_def
  by (simp add: and_then_emit and_then_dom_call assms and_then_sleep and_then_set_style
      and_then_forEach_Nil and_then_forEach_Cons Let_def marked_def)

lemma clickElement_to_marked_upto_submit:
  assumes "\<And>w ev. ev \<noteq> Submit form \<Longrightarrow> dom_throws env w ev = None"
  shows "clickElement env e w =
     and_then (submit_closest_form env e) (\<lambda>_.
       and_then (sleep 1000) (\<lambda>_. set_cssText e (styles w (eid e)))) (marked e w)"
  unfolding clickElement_def
  by (simp add: and_then_emit and_then_dom_call assms and_then_sleep and_then_set_style
      and_then_forEach_Nil and_then_forEach_Cons Let_def marked_def)

lemma clickElement_straight:
  assumes "\<And>w ev. dom_throws env w ev = None"
  shows "clickElement env e w =
     (Ok (),
      w\<lparr>trace := trace w @
          [Clicking e, ScrollIntoView e, Sleep 500,
           SetStyle e ''outline'' ''3px solid #4ade80'',
           SetStyle e ''backgroundColor'' ''rgba(74, 222, 128, 0.2)'',
           Focus e, Click e,
           DispatchEvent e ''mousedown'', DispatchEvent e ''mouseup'', DispatchEvent e ''click''] @
          (case closest env (marked e w) e ''form'' of None \<Rightarrow> [] | Some form \<Rightarrow> [Submit form]) @
          [Sleep 1000, SetCssText e (styles w (eid e))]\<rparr>)"
proof (cases "closest env (marked e w) e ''form''")
  case None
  then show ?thesis
    unfolding clickElement_to_marked [OF assms]
    by (simp add: and_then_def submit_closest_form_def sleep_def emit_def set_cssText_def
        marked_def)
next
  case (Some form)
  then show ?thesis
    unfolding clickElement_to_marked [OF assms]
    by (simp add: and_then_def submit_closest_form_def dom_call_def assms sleep_def emit_def
        set_cssText_def marked_def)
qed

lemma form_buttons_other:
  "ty \<noteq> ''checkin'' \<Longrightarrow> form_buttons env ty buttons w = form_buttons env ''checkout'' buttons w"
  by (induction buttons arbitrary: w) (simp_all add: isCorrectType_def Let_def del: js_or.simps)

lemma form_loop_other:
  "ty \<noteq> ''checkin'' \<Longrightarrow> form_loop env ty forms w = form_loop env ''checkout'' forms w"
proof (induction forms arbitrary: w)
  case Nil
  show ?case by simp
next
  case (Cons form rest)
  have ih: "form_loop env ty rest w0 = form_loop env ''checkout'' rest w0" for w0
    using Cons by simp
  show ?case
    by (simp only: form_loop.simps Let_def form_buttons_other [OF Cons(2)] ih)
qed

text \<open>
  Claim C9. For every request type other than the string \<open>checkin\<close>, each strategy works
  with the check-out keywords, labels and direction test, and is the same function of the
  page as for the type \<open>checkout\<close>: an unrecognised type is processed as a check-out. (The
  fifth strategy does not look at the type at all.)
\<close>

theorem unrecognised_intent_is_checkout:
  assumes "ty \<noteq> ''checkin''"
  shows "selector_keywords ty =
       [''check out'', ''checkout'', ''punch out'', ''punchout'', ''end work'', ''clock out''] \<and>
     searchTexts ty = [''Check Out'', ''Punch Out'', ''Clock Out'', ''End Work''] \<and>
     ariaLabels ty = [''check out'', ''punch out'', ''clock out''] \<and>
     isCorrectType ty =
       (\<lambda>buttonText. str_includes buttonText ''out'' \<or> str_includes buttonText ''end'') \<and>
     findAndClickBySelector env ty = findAndClickBySelector env ''checkout'' \<and>
     findAndClickByText env ty = findAndClickByText env ''checkout'' \<and>
     findAndClickByAria env ty = findAndClickByAria env ''checkout'' \<and>
     findAndClickByForm env ty = findAndClickByForm env ''checkout'' \<and>
     findAndClickByAPI env ty = findAndClickByAPI env ''checkout''"
proof -
  have k: "selector_keywords ty =
       [''check out'', ''checkout'', ''punch out'', ''punchout'', ''end work'', ''clock out'']"
    using assms by (simp add: selector_keywords_def)
  have t: "searchTexts ty = [''Check Out'', ''Punch Out'', ''Clock Out'', ''End Work'']"
    using assms by (simp add: searchTexts_def)
  have a: "ariaLabels ty = [''check out'', ''punch out'', ''clock out'']"
    using assms by (simp add: ariaLabels_def)
  have c: "isCorrectType ty =
       (\<lambda>buttonText. str_includes buttonText ''out'' \<or> str_includes buttonText ''end'')"
    using assms by (intro ext) (simp add: isCorrectType_def)
  have s1: "findAndClickBySelector env ty = findAndClickBySelector env ''checkout''"
    using assms by (intro ext) (simp add: findAndClickBySelector_def selector_keywords_def)
  have s2: "findAndClickByText env ty = findAndClickByText env ''checkout''"
    using assms by (intro ext) (simp add: findAndClickByText_def searchTexts_def)
  have s3: "findAndClickByAria env ty = findAndClickByAria env ''checkout''"
    using assms by (intro ext) (simp add: findAndClickByAria_def ariaLabels_def)
  have "form_search env ty = form_search env ''checkout''"
    by (intro ext) (simp add: form_search_def form_loop_other [OF assms] split: sum.splits)
  then have s4: "findAndClickByForm env ty = findAndClickByForm env ''checkout''"
    by (intro ext) (simp add: findAndClickByForm_def)
  have s5: "findAndClickByAPI env ty = findAndClickByAPI env ''checkout''"
    by (intro ext) (simp add: findAndClickByAPI_def)
  from k t a c s1 s2 s3 s4 s5 show ?thesis by (intro conjI)
qed

theorem unrecognised_intent_is_checkout_witness:
  "''lunch'' \<noteq> ''checkin'' \<and>
   searchTexts ''lunch'' = [''Check Out'', ''Punch Out'', ''Clock Out'', ''End Work''] \<and>
   findAndClickByForm crowded_page ''lunch'' start =
     findAndClickByForm crowded_page ''checkout'' start"
proof -
  have ne: "''lunch'' \<noteq> ''checkin''" by simp
  from unrecognised_intent_is_checkout [OF ne, of crowded_page] ne show ?thesis by simp
qed

subsection \<open>The activation sequence\<close>

lemma crowded_no_throw: "dom_throws crowded_page w ev = None"
  by (simp add: crowded_page_def blank_page_def)

lemma crowded_closest:
  "closest crowded_page w live_button ''form'' = Some attendance_form"
  by (simp add: crowded_page_def blank_page_def live_button_def)

text \<open>
  Claim C6, as amended. For every located element, provided no DOM call throws,
  \<open>clickElement\<close> does exactly this, in this order: it logs the element, scrolls it into
  view and sleeps 500 ms; sets the outline and the background colour (the marker); focuses
  the element and clicks it; dispatches \<open>mousedown\<close>, \<open>mouseup\<close> and \<open>click\<close>; submits the
  enclosing form if the element has one, whether or not a navigation has started; sleeps
  1000 ms; and writes back the inline style it read before setting the marker, so that the
  inline styles end as they began.
\<close>

theorem clickElement_sequence:
  assumes "\<And>w0 ev. dom_throws env w0 ev = None"
  shows "fst (clickElement env e w) = Ok () \<and>
     trace (snd (clickElement env e w)) =
       trace w @
       [Clicking e, ScrollIntoView e, Sleep 500,
        SetStyle e ''outline'' ''3px solid #4ade80'',
        SetStyle e ''backgroundColor'' ''rgba(74, 222, 128, 0.2)'',
        Focus e, Click e,
        DispatchEvent e ''mousedown'', DispatchEvent e ''mouseup'', DispatchEvent e ''click''] @
       (case closest env (marked e w) e ''form'' of None \<Rightarrow> [] | Some form \<Rightarrow> [Submit form]) @
       [Sleep 1000, SetCssText e (styles w (eid e))] \<and>
     styles (snd (clickElement env e w)) = styles w"
  unfolding clickElement_straight [of env, OF assms]
  by simp

text \<open>The visible button of the attendance form, on a page where no DOM call throws.\<close>

theorem clickElement_sequence_witness:
  "(\<forall>w0 ev. dom_throws crowded_page w0 ev = None) \<and>
   closest crowded_page (marked live_button start) live_button ''form'' = Some attendance_form \<and>
   fst (clickElement crowded_page live_button start) = Ok () \<and>
   trace (snd (clickElement crowded_page live_button start)) =
     [Clicking live_button, ScrollIntoView live_button, Sleep 500,
      SetStyle live_button ''outline'' ''3px solid #4ade80'',
      SetStyle live_button ''backgroundColor'' ''rgba(74, 222, 128, 0.2)'',
      Focus live_button, Click live_button,
      DispatchEvent live_button ''mousedown'', DispatchEvent live_button ''mouseup'',
      DispatchEvent live_button ''click'',
      Submit attendance_form,
      Sleep 1000, SetCssText live_button []] \<and>
   styles (snd (clickElement crowded_page live_button start)) = styles start"
  using clickElement_sequence [of crowded_page live_button start, OF crowded_no_throw]
  by (simp add: crowded_no_throw crowded_closest start_def)

lemma leaving_no_throw: "dom_throws leaving_page w ev = None"
  by (simp add: leaving_page_def blank_page_def)

lemma shadowed_throw:
  "ev \<noteq> Submit attendance_form \<Longrightarrow> dom_throws shadowed_submit_page w ev = None"
  by (simp add: shadowed_submit_page_def blank_page_def)

text \<open>
  Claim C6 as stated fails in two places. First, on a page that is already navigating
  away the form of the element is submitted all the same: nothing in \<open>clickElement\<close> asks
  whether a navigation occurred. Second, the marker is not reverted unconditionally: when
  \<open>form.submit()\<close> throws, \<open>clickElement\<close> throws with it and the outline and background
  colour stay on the element.
\<close>

theorem activation_counterexample:
  "navigated leaving_page (marked live_button start) \<and>
   closest leaving_page (marked live_button start) live_button ''form'' = Some attendance_form \<and>
   trace (snd (clickElement leaving_page live_button start)) =
     [Clicking live_button, ScrollIntoView live_button, Sleep 500,
      SetStyle live_button ''outline'' ''3px solid #4ade80'',
      SetStyle live_button ''backgroundColor'' ''rgba(74, 222, 128, 0.2)'',
      Focus live_button, Click live_button,
      DispatchEvent live_button ''mousedown'', DispatchEvent live_button ''mouseup'',
      DispatchEvent live_button ''click'',
      Submit attendance_form,
      Sleep 1000, SetCssText live_button []] \<and>
   fst (clickElement shadowed_submit_page live_button start) =
     Throw ''form.submit is not a function'' \<and>
   styles start (eid live_button) = [] \<and>
   styles (snd (clickElement shadowed_submit_page live_button start)) (eid live_button) =
     [(''outline'', ''3px solid #4ade80''), (''backgroundColor'', ''rgba(74, 222, 128, 0.2)'')]"
proof -
  have nav: "navigated leaving_page (marked live_button start)"
    by (simp add: leaving_page_def)
  have form: "closest leaving_page w0 e0 ''form'' = Some attendance_form" for w0 e0
    by (simp add: leaving_page_def)
  have run: "trace (snd (clickElement leaving_page live_button start)) =
     [Clicking live_button, ScrollIntoView live_button, Sleep 500,
      SetStyle live_button ''outline'' ''3px solid #4ade80'',
      SetStyle live_button ''backgroundColor'' ''rgba(74, 222, 128, 0.2)'',
      Focus live_button, Click live_button,
      DispatchEvent live_button ''mousedown'', DispatchEvent live_button ''mouseup'',
      DispatchEvent live_button ''click'',
      Submit attendance_form,
      Sleep 1000, SetCssText live_button []]"
    by (simp add: clickElement_straight [OF leaving_no_throw] form start_def)
  have form2: "closest shadowed_submit_page w0 e0 ''form'' = Some attendance_form" for w0 e0
    by (simp add: shadowed_submit_page_def)
  have throws: "dom_throws shadowed_submit_page w0 (Submit attendance_form) =
      Some ''form.submit is not a function''" for w0
    by (simp add: shadowed_submit_page_def)
  have stop: "clickElement shadowed_submit_page live_button start =
      (Throw ''form.submit is not a function'',
       (marked live_button start)\<lparr>trace := trace (marked live_button start) @
          [Submit attendance_form]\<rparr>)"
  proof -
    have "clickElement shadowed_submit_page live_button start =
        and_then (submit_closest_form shadowed_submit_page live_button) (\<lambda>_.
          and_then (sleep 1000) (\<lambda>_. set_cssText live_button (styles start (eid live_button))))
          (marked live_button start)"
      by (rule clickElement_to_marked_upto_submit [of attendance_form]) (rule shadowed_throw)
    then show ?thesis
      by (simp add: and_then_def submit_closest_form_def form2 dom_call_def throws)
  qed
  have "styles start (eid live_button) = []" by (simp add: start_def)
  moreover have "styles (snd (clickElement shadowed_submit_page live_button start))
      (eid live_button) =
     [(''outline'', ''3px solid #4ade80''), (''backgroundColor'', ''rgba(74, 222, 128, 0.2)'')]"
    unfolding stop by (simp add: marked_def start_def)
  moreover have "fst (clickElement shadowed_submit_page live_button start) =
      Throw ''form.submit is not a function''"
    unfolding stop by simp
  ultimately show ?thesis using nav form run by simp
qed

subsection \<open>The chain on concrete pages, and its claims\<close>

lemma lower_Check_In: "toLowerCase ''Check In'' = ''check in''"
  by code_simp

lemma hidden_not_clickable: "\<not> isElementClickable (Some hidden_button)"
  by (simp add: isElementClickable_def hidden_button_def)

lemma disabled_not_clickable: "\<not> isElementClickable (Some disabled_button)"
  by (simp add: isElementClickable_def disabled_button_def)

lemma ghost_not_clickable: "\<not> isElementClickable (Some ghost_button)"
  by (simp add: isElementClickable_def ghost_button_def)

lemma live_clickable: "isElementClickable (Some live_button)"
  by (simp add: isElementClickable_def live_button_def)

lemma aria_link_clickable: "isElementClickable (Some aria_link)"
  by (simp add: isElementClickable_def aria_link_def)

lemma aria_no_throw: "dom_throws aria_page w ev = None"
  by (simp add: aria_page_def blank_page_def)

lemma aria_page_selector:
  "findAndClickBySelector aria_page ''checkin'' w =
     (Throw ''SyntaxError'', shared_log ''Strategy 1: Selector-based search'' ''info'' w)"
  by (simp add: findAndClickBySelector_def or_throw_def attendanceSelectors_def quoted_def
      aria_page_def blank_page_def hidden_not_clickable)

lemma aria_page_text:
  "findAndClickByText aria_page ty w =
     (Throw ''No matching text found'',
      shared_log ''Strategy 2: Text-based search'' ''info'' w)"
  by (simp add: findAndClickByText_def or_throw_def searchTexts_def aria_page_def blank_page_def)

lemma aria_page_aria:
  "findAndClickByAria aria_page ''checkin'' w =
     (Ok \<lparr>success = True, method_name = ''aria'', extra = (''label'', ''check in'')\<rparr>,
      w\<lparr>trace := trace w @
          [SharedLog ''Strategy 3: ARIA-based search'' ''info'',
           Clicking aria_link, ScrollIntoView aria_link, Sleep 500,
           SetStyle aria_link ''outline'' ''3px solid #4ade80'',
           SetStyle aria_link ''backgroundColor'' ''rgba(74, 222, 128, 0.2)'',
           Focus aria_link, Click aria_link,
           DispatchEvent aria_link ''mousedown'', DispatchEvent aria_link ''mouseup'',
           DispatchEvent aria_link ''click'',
           Sleep 1000, SetCssText aria_link (styles w (eid aria_link))]\<rparr>)"
proof -
  have q: "querySelector aria_page w0 (aria_selector ''check in'') = Inr (Some aria_link)" for w0
    by (simp add: aria_page_def)
  have c: "closest aria_page w0 e0 s0 = None" for w0 e0 s0
    by (simp add: aria_page_def blank_page_def)
  show ?thesis
    by (simp add: findAndClickByAria_def or_throw_def ariaLabels_def q aria_link_clickable
        and_then_def clickElement_straight [OF aria_no_throw] c found_def shared_log_def)
qed

lemma aria_page_run:
  "fst (performAttendance aria_page ''checkin'' start) =
     Ok \<lparr>success = True, method_name = ''aria'', extra = (''label'', ''check in'')\<rparr> \<and>
   trace (snd (performAttendance aria_page ''checkin'' start)) =
     [SharedLog ''Attempting checkin...'' ''info'',
      SharedLog ''Strategy 1: Selector-based search'' ''info'',
      SharedLog ''Strategy failed: SyntaxError'' ''error'',
      SharedLog ''Strategy 2: Text-based search'' ''info'',
      SharedLog ''Strategy failed: No matching text found'' ''error'',
      SharedLog ''Strategy 3: ARIA-based search'' ''info'',
      Clicking aria_link, ScrollIntoView aria_link, Sleep 500,
      SetStyle aria_link ''outline'' ''3px solid #4ade80'',
      SetStyle aria_link ''backgroundColor'' ''rgba(74, 222, 128, 0.2)'',
      Focus aria_link, Click aria_link,
      DispatchEvent aria_link ''mousedown'', DispatchEvent aria_link ''mouseup'',
      DispatchEvent aria_link ''click'',
      Sleep 1000, SetCssText aria_link [],
      SharedLog ''checkin successful via aria'' ''success'']"
proof -
  have r: "readyState aria_page w0 = ''complete''" for w0
    by (simp add: aria_page_def blank_page_def)
  show ?thesis
    by (simp add: performAttendance_def and_then_def waitForPageLoad_def r strategies_def
        aria_page_selector aria_page_text aria_page_aria or_throw_def shared_log_def start_def)
qed



lemma crowded_q: "querySelectorAll crowded_page w0 s0 =
      (if s0 = ''.attendance-btn''
       then Inr [hidden_button, disabled_button, ghost_button, live_button] else Inr [])"
    by (simp add: crowded_page_def)

lemma crowded_elements: "selector_elements crowded_page (selector_keywords ''checkin'') ''.attendance-btn''
      [hidden_button, disabled_button, ghost_button, live_button] w0 =
     (Ok (Some \<lparr>success = True, method_name = ''selector'',
                 extra = (''element'', ''.attendance-btn'')\<rparr>),
      w0\<lparr>trace := trace w0 @
          [Clicking live_button, ScrollIntoView live_button, Sleep 500,
           SetStyle live_button ''outline'' ''3px solid #4ade80'',
           SetStyle live_button ''backgroundColor'' ''rgba(74, 222, 128, 0.2)'',
           Focus live_button, Click live_button,
           DispatchEvent live_button ''mousedown'', DispatchEvent live_button ''mouseup'',
           DispatchEvent live_button ''click'',
           Submit attendance_form,
           Sleep 1000, SetCssText live_button (styles w0 (eid live_button))]\<rparr>)"
proof -
  have content: "js_or [textContent live_button, value_attr live_button, title live_button] =
      ''Check In''"
    by (simp add: live_button_def)
  have "selector_elements crowded_page (selector_keywords ''checkin'') ''.attendance-btn''
      [hidden_button, disabled_button, ghost_button, live_button] w0 =
      and_then (clickElement crowded_page live_button)
        (\<lambda>_. found ''selector'' (''element'', ''.attendance-btn'')) w0"
    by (simp add: hidden_not_clickable disabled_not_clickable ghost_not_clickable
        live_clickable content lower_Check_In selector_keywords_def del: js_or.simps)
  also have "\<dots> = (Ok (Some \<lparr>success = True, method_name = ''selector'',
                 extra = (''element'', ''.attendance-btn'')\<rparr>),
      w0\<lparr>trace := trace w0 @
          [Clicking live_button, ScrollIntoView live_button, Sleep 500,
           SetStyle live_button ''outline'' ''3px solid #4ade80'',
           SetStyle live_button ''backgroundColor'' ''rgba(74, 222, 128, 0.2)'',
           Focus live_button, Click live_button,
           DispatchEvent live_button ''mousedown'', DispatchEvent live_button ''mouseup'',
           DispatchEvent live_button ''click'',
           Submit attendance_form,
           Sleep 1000, SetCssText live_button (styles w0 (eid live_button))]\<rparr>)"
    by (simp add: and_then_def clickElement_straight [OF crowded_no_throw] crowded_closest
        found_def)
  finally show ?thesis .
qed

lemma selector_loop_skip:
  "querySelectorAll env w selector = Inr [] \<Longrightarrow>
   selector_loop env keywords (selector # rest) w = selector_loop env keywords rest w"
  by simp

lemma selector_loop_hit:
  "querySelectorAll env w selector = Inr elements \<Longrightarrow>
   selector_elements env keywords selector elements w = (Ok (Some d), w') \<Longrightarrow>
   selector_loop env keywords (selector # rest) w = (Ok (Some d), w')"
  by simp

lemma crowded_loop: "selector_loop crowded_page (selector_keywords ''checkin'') attendanceSelectors w =
     (Ok (Some \<lparr>success = True, method_name = ''selector'',
                 extra = (''element'', ''.attendance-btn'')\<rparr>),
      w\<lparr>trace := trace w @
          [Clicking live_button, ScrollIntoView live_button, Sleep 500,
           SetStyle live_button ''outline'' ''3px solid #4ade80'',
           SetStyle live_button ''backgroundColor'' ''rgba(74, 222, 128, 0.2)'',
           Focus live_button, Click live_button,
           DispatchEvent live_button ''mousedown'', DispatchEvent live_button ''mouseup'',
           DispatchEvent live_button ''click'',
           Submit attendance_form,
           Sleep 1000, SetCssText live_button (styles w (eid live_button))]\<rparr>)"
proof -
  have skip: "selector_loop crowded_page (selector_keywords ''checkin'') attendanceSelectors w =
      selector_loop crowded_page (selector_keywords ''checkin'')
        (''.attendance-btn'' # drop 7 attendanceSelectors) w"
    by (simp add: attendanceSelectors_def quoted_def selector_loop_skip crowded_q
        del: selector_loop.simps)
  show ?thesis
    unfolding skip
    by (rule selector_loop_hit [OF _ crowded_elements]) (simp add: crowded_q)
qed


lemma crowded_page_run:
  "fst (performAttendance crowded_page ''checkin'' start) =
     Ok \<lparr>success = True, method_name = ''selector'', extra = (''element'', ''.attendance-btn'')\<rparr> \<and>
   trace (snd (performAttendance crowded_page ''checkin'' start)) =
     [SharedLog ''Attempting checkin...'' ''info'',
      SharedLog ''Strategy 1: Selector-based search'' ''info'',
      Clicking live_button, ScrollIntoView live_button, Sleep 500,
      SetStyle live_button ''outline'' ''3px solid #4ade80'',
      SetStyle live_button ''backgroundColor'' ''rgba(74, 222, 128, 0.2)'',
      Focus live_button, Click live_button,
      DispatchEvent live_button ''mousedown'', DispatchEvent live_button ''mouseup'',
      DispatchEvent live_button ''click'',
      Submit attendance_form,
      Sleep 1000, SetCssText live_button [],
      SharedLog ''checkin successful via selector'' ''success'']"
proof -
  have r: "readyState crowded_page w0 = ''complete''" for w0
    by (simp add: crowded_page_def blank_page_def)
  have s: "findAndClickBySelector crowded_page ''checkin'' w0 =
     or_throw ''No matching selectors found''
       (selector_loop crowded_page (selector_keywords ''checkin'') attendanceSelectors)
       (shared_log ''Strategy 1: Selector-based search'' ''info'' w0)" for w0
    by (simp add: findAndClickBySelector_def)
  show ?thesis
    by (simp add: performAttendance_def and_then_def waitForPageLoad_def r strategies_def
        s crowded_loop or_throw_def shared_log_def start_def)
qed

text \<open>
  Claim C1. One invocation of \<open>performAttendance\<close> consults the strategies in the fixed
  order selector, text, aria, form, api: the strategies consulted are always an initial
  segment of that order, each consulted once. If the invocation succeeds, the result
  names strategy \<open>k\<close> of the order as its method, the strategies before it were each
  consulted and failed, in order, then strategy \<open>k\<close> was consulted and succeeded, and no
  later strategy was consulted.
\<close>

theorem first_success_wins:
  "\<exists>new. trace (snd (performAttendance env ty w)) = trace w @ new \<and>
     (\<exists>k\<le>5. consulted (chain_view new) = take k strategy_names) \<and>
     (\<forall>d. fst (performAttendance env ty w) = Ok d \<longrightarrow>
        (\<exists>k<5. method_name d = strategy_names ! k \<and>
           chain_view new =
             concat (map (\<lambda>name. [Consulted name, Failed]) (take k strategy_names)) @
             [Consulted (strategy_names ! k), Succeeded]))"
proof -
  obtain r w' where run: "performAttendance env ty w = (r, w')"
    by (cases "performAttendance env ty w")
  from chain_outcome [OF run] obtain new
    where all: "trace w' = trace w @ new \<and>
      list_all (\<lambda>e. isElementClickable (Some e)) (touched new) \<and>
      (\<exists>k\<le>5. consulted (chain_view new) = take k strategy_names) \<and>
      (case r of
         Ok d \<Rightarrow>
           success d \<and>
           (\<exists>k<5. method_name d = strategy_names ! k \<and>
              chain_view new =
                failed_view (take k strategy_names) @ [Consulted (strategy_names ! k), Succeeded])
       | Throw m \<Rightarrow>
           m = ''Could not find '' @ ty @ '' button on this page'' \<and>
           chain_view new = failed_view strategy_names
       | Pending \<Rightarrow>
           hangs env \<or> (readyState env (shared_log (''Attempting '' @ ty @ ''...'') ''info'' w)
                          \<noteq> ''complete'' \<and>
                        \<not> load_fires env (shared_log (''Attempting '' @ ty @ ''...'') ''info'' w)))"
    ..
  from all have t: "trace w' = trace w @ new" by (rule conjunct1)
  from all have k: "\<exists>k\<le>5. consulted (chain_view new) = take k strategy_names"
    by (elim conjE)
  from all have out: "(case r of
         Ok d \<Rightarrow>
           success d \<and>
           (\<exists>k<5. method_name d = strategy_names ! k \<and>
              chain_view new =
                failed_view (take k strategy_names) @ [Consulted (strategy_names ! k), Succeeded])
       | Throw m \<Rightarrow>
           m = ''Could not find '' @ ty @ '' button on this page'' \<and>
           chain_view new = failed_view strategy_names
       | Pending \<Rightarrow>
           hangs env \<or> (readyState env (shared_log (''Attempting '' @ ty @ ''...'') ''info'' w)
                          \<noteq> ''complete'' \<and>
                        \<not> load_fires env (shared_log (''Attempting '' @ ty @ ''...'') ''info'' w)))"
    by (elim conjE)
  have "\<exists>k<5. method_name d = strategy_names ! k \<and>
           chain_view new =
             concat (map (\<lambda>name. [Consulted name, Failed]) (take k strategy_names)) @
             [Consulted (strategy_names ! k), Succeeded]"
    if "r = Ok d" for d
    using out that by (simp add: failed_view_def)
  with t k run show ?thesis by (intro exI [of _ new]) simp
qed

text \<open>
  On a page where the selector strategy meets an invalid selector and the text strategy
  finds nothing, the ARIA strategy succeeds: selector and text were consulted and failed,
  in that order, and neither form nor api was consulted.
\<close>

theorem first_success_wins_witness:
  "fst (performAttendance aria_page ''checkin'' start) =
     Ok \<lparr>success = True, method_name = ''aria'', extra = (''label'', ''check in'')\<rparr> \<and>
   strategy_names ! 2 = ''aria'' \<and>
   chain_view (trace (snd (performAttendance aria_page ''checkin'' start))) =
     [Consulted ''selector'', Failed, Consulted ''text'', Failed, Consulted ''aria'', Succeeded]"
  using first_success_wins [of aria_page "''checkin''" start] aria_page_run
  by (simp add: strategy_names_def banner_strategy_def)

text \<open>
  Claim C5. Whatever the page and the request type, every element the chain acts on
  (the element it logs as clicked, scrolls to, marks, focuses, clicks and dispatches
  mouse events to) passes the clickability predicate: its computed display is not
  \<open>none\<close>, its visibility not \<open>hidden\<close>, its opacity not \<open>0\<close>, and it is not disabled.
\<close>

theorem only_clickable_elements_are_activated:
  "\<exists>new. trace (snd (performAttendance env ty w)) = trace w @ new \<and>
     (\<forall>e\<in>set (touched new).
        display e \<noteq> ''none'' \<and> visibility e \<noteq> ''hidden'' \<and> opacity e \<noteq> ''0'' \<and>
        \<not> disabled e)"
proof -
  obtain r w' where run: "performAttendance env ty w = (r, w')"
    by (cases "performAttendance env ty w")
  from chain_outcome [OF run] have "\<exists>new. trace w' = trace w @ new \<and>
      list_all (\<lambda>e. isElementClickable (Some e)) (touched new)"
    by (elim exE conjE) (intro exI conjI)
  then obtain new
    where t: "trace w' = trace w @ new"
      and c: "list_all (\<lambda>e. isElementClickable (Some e)) (touched new)"
    by (elim exE conjE)
  from c have "\<forall>e\<in>set (touched new).
        display e \<noteq> ''none'' \<and> visibility e \<noteq> ''hidden'' \<and> opacity e \<noteq> ''0'' \<and>
        \<not> disabled e"
    by (simp add: list_all_iff isElementClickable_def)
  with t run show ?thesis by (intro exI [of _ new]) simp
qed

text \<open>
  The selector \<open>.attendance-btn\<close> matches four buttons labelled \<open>Check In\<close>: one with
  display \<open>none\<close>, one disabled, one with opacity \<open>0\<close>, and a visible one. The chain skips
  the first three and acts on the fourth alone.
\<close>

theorem only_clickable_elements_are_activated_witness:
  "textContent hidden_button = ''Check In'' \<and> display hidden_button = ''none'' \<and>
   textContent disabled_button = ''Check In'' \<and> disabled disabled_button \<and>
   textContent ghost_button = ''Check In'' \<and> opacity ghost_button = ''0'' \<and>
   querySelectorAll crowded_page start ''.attendance-btn'' =
     Inr [hidden_button, disabled_button, ghost_button, live_button] \<and>
   set (touched (trace (snd (performAttendance crowded_page ''checkin'' start)))) =
     {live_button} \<and>
   display live_button = ''block'' \<and> visibility live_button = ''visible'' \<and>
   opacity live_button = ''1'' \<and> \<not> disabled live_button"
  using only_clickable_elements_are_activated [of crowded_page "''checkin''" start]
    crowded_page_run
  by (simp add: crowded_q hidden_button_def disabled_button_def ghost_button_def
      live_button_def)

lemma barrenI: "(\<And>w. fst (m w) = Ok None \<or> (\<exists>e. fst (m w) = Throw e)) \<Longrightarrow> barren m"
  by (simp add: barren_def)

lemma barrenD: "barren m \<Longrightarrow> fst (m w) = Ok None \<or> (\<exists>e. fst (m w) = Throw e)"
  by (simp add: barren_def)

lemma barren_or_throw: "barren loop \<Longrightarrow> \<exists>e. fst (or_throw msg loop w) = Throw e"
  using barrenD [of loop w]
  by (cases "loop w") (auto simp add: or_throw_def)

lemma selector_elements_none:
  "\<forall>element\<in>set elements. \<not> selector_match ty element \<Longrightarrow>
   selector_elements env (selector_keywords ty) selector elements w = (Ok None, w)"
  by (induction elements) (auto simp add: selector_match_def Let_def simp del: js_or.simps)

lemma barren_selector_loop:
  assumes "\<And>w selector elements. selector \<in> set selectors \<Longrightarrow>
      querySelectorAll env w selector = Inr elements \<Longrightarrow>
      \<forall>element\<in>set elements. \<not> selector_match ty element"
  shows "barren (selector_loop env (selector_keywords ty) selectors)"
  using assms
proof (induction selectors)
  case Nil
  show ?case by (rule barrenI) simp
next
  case (Cons selector rest)
  have rest: "barren (selector_loop env (selector_keywords ty) rest)"
    by (rule Cons.IH) (rule Cons.prems, simp_all)
  show ?case
  proof (rule barrenI)
    fix w
    show "fst (selector_loop env (selector_keywords ty) (selector # rest) w) = Ok None \<or>
        (\<exists>e. fst (selector_loop env (selector_keywords ty) (selector # rest) w) = Throw e)"
    proof (cases "querySelectorAll env w selector")
      case (Inl e)
      then show ?thesis by simp
    next
      case (Inr elements)
      with Cons.prems [of selector w elements]
      have "selector_elements env (selector_keywords ty) selector elements w = (Ok None, w)"
        by (intro selector_elements_none) simp
      with Inr have "selector_loop env (selector_keywords ty) (selector # rest) w =
          selector_loop env (selector_keywords ty) rest w"
        by simp
      with barrenD [OF rest, of w] show ?thesis by simp
    qed
  qed
qed

lemma barren_text_loop:
  assumes "\<And>w searchText node. searchText \<in> set texts \<Longrightarrow>
      evaluate env w (text_xpath searchText) = Inr (Some node) \<Longrightarrow>
      \<not> isElementClickable (Some node)"
  shows "barren (text_loop env texts)"
  using assms
proof (induction texts)
  case Nil
  show ?case by (rule barrenI) simp
next
  case (Cons searchText rest)
  have rest: "barren (text_loop env rest)"
    by (rule Cons.IH) (rule Cons.prems, simp_all)
  show ?case
  proof (rule barrenI)
    fix w
    show "fst (text_loop env (searchText # rest) w) = Ok None \<or>
        (\<exists>e. fst (text_loop env (searchText # rest) w) = Throw e)"
    proof (cases "evaluate env w (text_xpath searchText)")
      case (Inl e)
      then show ?thesis by simp
    next
      case (Inr found)
      have "text_loop env (searchText # rest) w = text_loop env rest w"
      proof (cases found)
        case None
        with Inr show ?thesis by simp
      next
        case (Some node)
        with Inr Cons.prems [of searchText w node] show ?thesis by simp
      qed
      with barrenD [OF rest, of w] show ?thesis by simp
    qed
  qed
qed

lemma barren_aria_loop:
  assumes "\<And>w label element. label \<in> set labels \<Longrightarrow>
      querySelector env w (aria_selector label) = Inr (Some element) \<Longrightarrow>
      \<not> isElementClickable (Some element)"
  shows "barren (aria_loop env labels)"
  using assms
proof (induction labels)
  case Nil
  show ?case by (rule barrenI) simp
next
  case (Cons label rest)
  have rest: "barren (aria_loop env rest)"
    by (rule Cons.IH) (rule Cons.prems, simp_all)
  show ?case
  proof (rule barrenI)
    fix w
    show "fst (aria_loop env (label # rest) w) = Ok None \<or>
        (\<exists>e. fst (aria_loop env (label # rest) w) = Throw e)"
    proof (cases "querySelector env w (aria_selector label)")
      case (Inl e)
      then show ?thesis by simp
    next
      case (Inr found)
      have "aria_loop env (label # rest) w = aria_loop env rest w"
      proof (cases found)
        case None
        with Inr show ?thesis by simp
      next
        case (Some element)
        with Inr Cons.prems [of label w element] show ?thesis by simp
      qed
      with barrenD [OF rest, of w] show ?thesis by simp
    qed
  qed
qed

lemma form_buttons_none:
  "\<forall>button\<in>set buttons. \<not> form_match ty button \<Longrightarrow>
   form_buttons env ty buttons w = (Ok None, w)"
  by (induction buttons) (auto simp add: form_match_def Let_def simp del: js_or.simps)

lemma barren_form_loop:
  assumes "\<And>w form buttons. form \<in> set forms \<Longrightarrow> isAttendanceForm form \<Longrightarrow>
      element_querySelectorAll env w form form_button_selector = Inr buttons \<Longrightarrow>
      \<forall>button\<in>set buttons. \<not> form_match ty button"
  shows "barren (form_loop env ty forms)"
  using assms
proof (induction forms)
  case Nil
  show ?case by (rule barrenI) simp
next
  case (Cons form rest)
  have rest: "barren (form_loop env ty rest)"
    by (rule Cons.IH) (rule Cons.prems, simp_all)
  show ?case
  proof (rule barrenI)
    fix w
    show "fst (form_loop env ty (form # rest) w) = Ok None \<or>
        (\<exists>e. fst (form_loop env ty (form # rest) w) = Throw e)"
    proof (cases "isAttendanceForm form")
      case False
      then have "form_loop env ty (form # rest) w = form_loop env ty rest w"
        by (simp add: isAttendanceForm_def Let_def)
      with barrenD [OF rest, of w] show ?thesis by simp
    next
      case True
      show ?thesis
      proof (cases "element_querySelectorAll env w form form_button_selector")
        case (Inl e)
        with True show ?thesis by (simp add: isAttendanceForm_def Let_def)
      next
        case (Inr buttons)
        with Cons.prems [of form w buttons] True
        have "form_buttons env ty buttons w = (Ok None, w)"
          by (intro form_buttons_none) simp
        with Inr True have "form_loop env ty (form # rest) w = form_loop env ty rest w"
          by (simp add: isAttendanceForm_def Let_def)
        with barrenD [OF rest, of w] show ?thesis by simp
      qed
    qed
  qed
qed

lemma api_elements_none:
  "\<forall>element\<in>set elements. \<not> isElementClickable (Some element) \<Longrightarrow>
   api_elements env elements w = (Ok None, w)"
  by (induction elements) auto

lemma api_functions_none:
  assumes "\<And>w funcName. funcName \<in> set names \<Longrightarrow>
      window_fn env w funcName = None \<or> (\<exists>m. window_fn env w funcName = Some (Throws m))"
  shows "fst (api_functions env names w) = Ok None"
  using assms
proof (induction names arbitrary: w)
  case Nil
  show ?case by simp
next
  case (Cons funcName rest)
  have rest: "fst (api_functions env rest w0) = Ok None" for w0
    by (rule Cons.IH) (rule Cons.prems, simp)
  from Cons.prems [of funcName w] show ?case
    by (auto simp add: rest Let_def)
qed

lemma strategies_throw:
  assumes page: "no_matching_element env ty" and fns: "no_callable_function env"
  shows "\<forall>strategy\<in>set (strategies env ty). \<forall>w. \<exists>e. fst (strategy w) = Throw e"
proof -
  have s1: "\<exists>e. fst (findAndClickBySelector env ty w) = Throw e" for w
    unfolding findAndClickBySelector_def
    by (rule barren_or_throw, rule barren_selector_loop)
       (use page in \<open>unfold no_matching_element_def, blast\<close>)
  have s2: "\<exists>e. fst (findAndClickByText env ty w) = Throw e" for w
    unfolding findAndClickByText_def
    by (rule barren_or_throw, rule barren_text_loop)
       (use page in \<open>unfold no_matching_element_def, blast\<close>)
  have s3: "\<exists>e. fst (findAndClickByAria env ty w) = Throw e" for w
    unfolding findAndClickByAria_def
    by (rule barren_or_throw, rule barren_aria_loop)
       (use page in \<open>unfold no_matching_element_def, blast\<close>)
  have forms: "barren (form_search env ty)"
  proof (rule barrenI)
    fix w
    show "fst (form_search env ty w) = Ok None \<or> (\<exists>e. fst (form_search env ty w) = Throw e)"
    proof (cases "querySelectorAll env w ''form''")
      case (Inl e)
      then show ?thesis by (simp add: form_search_def)
    next
      case (Inr forms)
      have "barren (form_loop env ty forms)"
        by (rule barren_form_loop)
           (use page Inr in \<open>unfold no_matching_element_def, blast\<close>)
      from barrenD [OF this, of w] Inr show ?thesis by (simp add: form_search_def)
    qed
  qed
  have s4: "\<exists>e. fst (findAndClickByForm env ty w) = Throw e" for w
    unfolding findAndClickByForm_def by (rule barren_or_throw) (rule forms)
  have api: "barren (api_search env)"
  proof (rule barrenI)
    fix w
    obtain r1 w1 where f: "api_functions env possibleFunctions w = (r1, w1)"
      by (cases "api_functions env possibleFunctions w")
    have "fst (api_functions env possibleFunctions w) = Ok None"
      by (rule api_functions_none) (use fns in \<open>unfold no_callable_function_def, blast\<close>)
    with f have r1: "r1 = Ok None" by simp
    show "fst (api_search env w) = Ok None \<or> (\<exists>e. fst (api_search env w) = Throw e)"
    proof (cases "querySelectorAll env w1 attendance_selector")
      case (Inl e)
      with f r1 show ?thesis by (simp add: api_search_def)
    next
      case (Inr elements)
      with page have "\<forall>element\<in>set elements. \<not> isElementClickable (Some element)"
        unfolding no_matching_element_def by blast
      then have "api_elements env elements w1 = (Ok None, w1)" by (rule api_elements_none)
      with f r1 Inr show ?thesis by (simp add: api_search_def)
    qed
  qed
  have s5: "\<exists>e. fst (findAndClickByAPI env ty w) = Throw e" for w
    unfolding findAndClickByAPI_def by (rule barren_or_throw) (rule api)
  from s1 s2 s3 s4 s5 show ?thesis by (simp add: strategies_def)
qed

lemma strategy_loop_exhausted:
  "\<forall>strategy\<in>set ss. \<forall>w. \<exists>e. fst (strategy w) = Throw e \<Longrightarrow>
   fst (strategy_loop ty ss w) = Ok None"
proof (induction ss arbitrary: w)
  case Nil
  show ?case by simp
next
  case (Cons strategy rest)
  obtain r1 w1 where s: "strategy w = (r1, w1)" by (cases "strategy w")
  from Cons.prems have "\<exists>e. fst (strategy w) = Throw e" by simp
  with s obtain e where "r1 = Throw e" by auto
  with s have "strategy_loop ty (strategy # rest) w =
      strategy_loop ty rest (shared_log (''Strategy failed: '' @ e) ''error'' w1)"
    by simp
  moreover have "fst (strategy_loop ty rest (shared_log (''Strategy failed: '' @ e) ''error'' w1)) =
      Ok None"
    by (rule Cons.IH) (use Cons.prems in simp)
  ultimately show ?case by simp
qed

lemma page_without_match:
  assumes loads: "\<And>w0. readyState env w0 = ''complete'' \<or> load_fires env w0"
    and page: "no_matching_element env ty" and fns: "no_callable_function env"
  shows "fst (performAttendance env ty w) =
     Throw (''Could not find '' @ ty @ '' button on this page'')"
proof -
  let ?w0 = "shared_log (''Attempting '' @ ty @ ''...'') ''info'' w"
  have "waitForPageLoad env ?w0 = (Ok (), ?w0)"
    using loads [of ?w0] by (auto simp add: waitForPageLoad_def)
  then have run: "performAttendance env ty w =
      or_throw (''Could not find '' @ ty @ '' button on this page'')
        (strategy_loop ty (strategies env ty)) ?w0"
    by (simp add: performAttendance_def and_then_def)
  have "fst (strategy_loop ty (strategies env ty) ?w0) = Ok None"
    by (rule strategy_loop_exhausted) (rule strategies_throw [OF page fns])
  then show ?thesis
    unfolding run
    by (cases "strategy_loop ty (strategies env ty) ?w0") (simp add: or_throw_def)
qed

lemma lower_Attendance: "toLowerCase ''Attendance Check In'' = ''attendance check in''"
  by code_simp

lemma hidden_checkout_not_clickable: "\<not> isElementClickable (Some hidden_checkout)"
  by (simp add: isElementClickable_def hidden_checkout_def)

lemma live_button_not_checkout: "\<not> form_match ''checkout'' live_button"
proof -
  have "js_or [textContent live_button, value_attr live_button] = ''Check In''"
    by (simp add: live_button_def)
  then show ?thesis
    by (simp add: form_match_def lower_Check_In isCorrectType_def del: js_or.simps)
qed

lemma attendance_form_no_match: "\<not> selector_match ''checkout'' attendance_form"
proof -
  have "js_or [textContent attendance_form, value_attr attendance_form,
      title attendance_form] = ''Attendance Check In''"
    by (simp add: attendance_form_def)
  then show ?thesis
    by (simp add: selector_match_def lower_Attendance selector_keywords_def del: js_or.simps)
qed

lemma hidden_checkout_no_match: "\<not> selector_match ty hidden_checkout"
  by (simp add: selector_match_def hidden_checkout_not_clickable del: js_or.simps)

lemma lobby_loads: "readyState lobby_page w0 = ''complete'' \<or> load_fires lobby_page w0"
  by (simp add: lobby_page_def blank_page_def)

lemma lobby_no_function: "no_callable_function lobby_page"
  by (simp add: no_callable_function_def lobby_page_def)

lemma lobby_no_match: "no_matching_element lobby_page ''checkout''"
  unfolding no_matching_element_def
proof (intro conjI allI impI)
  fix w selector elements
  assume "querySelectorAll lobby_page w selector = Inr elements"
  then have "elements = [hidden_checkout] \<or> elements = [attendance_form] \<or> elements = []"
    by (auto simp add: lobby_page_def split: if_splits)
  then show "\<forall>element\<in>set elements. \<not> selector_match ''checkout'' element"
    by (auto simp add: hidden_checkout_no_match attendance_form_no_match)
next
  fix w searchText node
  assume "evaluate lobby_page w (text_xpath searchText) = Inr (Some node)"
  then have "node = hidden_checkout" by (auto simp add: lobby_page_def split: if_splits)
  then show "\<not> isElementClickable (Some node)" by (simp add: hidden_checkout_not_clickable)
next
  fix w label element
  assume "querySelector lobby_page w (aria_selector label) = Inr (Some element)"
  then show "\<not> isElementClickable (Some element)" by (simp add: lobby_page_def blank_page_def)
next
  fix w w' forms form buttons
  assume "element_querySelectorAll lobby_page w' form form_button_selector = Inr buttons"
  then have "buttons = [live_button] \<or> buttons = []"
    by (auto simp add: lobby_page_def split: if_splits)
  then show "\<forall>button\<in>set buttons. \<not> form_match ''checkout'' button"
    by (auto simp add: live_button_not_checkout)
next
  fix w elements
  assume "querySelectorAll lobby_page w attendance_selector = Inr elements"
  then have "elements = [hidden_checkout]" by (simp add: lobby_page_def)
  then show "\<forall>element\<in>set elements. \<not> isElementClickable (Some element)"
    by (simp add: hidden_checkout_not_clickable)
qed

lemma lobby_selector:
  "findAndClickBySelector lobby_page ''checkout'' w =
     (Throw ''SyntaxError'', shared_log ''Strategy 1: Selector-based search'' ''info'' w)"
  by (simp add: findAndClickBySelector_def or_throw_def attendanceSelectors_def quoted_def
      attendance_selector_def lobby_page_def hidden_checkout_not_clickable)

lemma lobby_text:
  "findAndClickByText lobby_page ''checkout'' w =
     (Throw ''No matching text found'',
      shared_log ''Strategy 2: Text-based search'' ''info'' w)"
  by (simp add: findAndClickByText_def or_throw_def searchTexts_def lobby_page_def
      hidden_checkout_not_clickable text_xpath_def quoted_def)

lemma lobby_aria:
  "findAndClickByAria lobby_page ''checkout'' w =
     (Throw ''No matching ARIA labels found'',
      shared_log ''Strategy 3: ARIA-based search'' ''info'' w)"
  by (simp add: findAndClickByAria_def or_throw_def ariaLabels_def lobby_page_def blank_page_def)

lemma lobby_form:
  "findAndClickByForm lobby_page ''checkout'' w =
     (Throw ''No matching forms found'',
      shared_log ''Strategy 4: Form-based search'' ''info'' w)"
proof -
  have q: "querySelectorAll lobby_page w0 ''form'' = Inr [attendance_form]" for w0
    by (simp add: lobby_page_def attendance_selector_def quoted_def)
  have b: "element_querySelectorAll lobby_page w0 attendance_form form_button_selector =
      Inr [live_button]" for w0
    by (simp add: lobby_page_def attendance_form_def)
  have t: "toLowerCase (textContent attendance_form) = ''attendance check in''"
    by (simp add: attendance_form_def lower_Attendance)
  have n: "form_buttons lobby_page ''checkout'' [live_button] w0 = (Ok None, w0)" for w0
    by (rule form_buttons_none) (simp add: live_button_not_checkout)
  show ?thesis
    by (simp add: findAndClickByForm_def or_throw_def form_search_def q b t n Let_def
        del: form_buttons.simps)
qed

lemma lobby_api:
  "findAndClickByAPI lobby_page ''checkout'' w =
     (Throw ''No API methods found'',
      w\<lparr>trace := trace w @
          [SharedLog ''Strategy 5: API-based approach'' ''info'',
           CallFunction ''markAttendance'',
           SharedLog ''Failed to call markAttendance: not signed in'' ''info'']\<rparr>)"
proof -
  have f: "window_fn lobby_page w0 name =
      (if name = ''markAttendance'' then Some (Throws ''not signed in'') else None)" for w0 name
    by (simp add: lobby_page_def)
  have q: "querySelectorAll lobby_page w0 attendance_selector = Inr [hidden_checkout]" for w0
    by (simp add: lobby_page_def)
  show ?thesis
    by (simp add: findAndClickByAPI_def or_throw_def api_search_def possibleFunctions_def
        f q hidden_checkout_not_clickable shared_log_def Let_def)
qed

lemma lobby_chain:
  "performAttendance lobby_page ''checkout'' start =
     (Throw ''Could not find checkout button on this page'',
      \<lparr>trace =
         [SharedLog ''Attempting checkout...'' ''info'',
          SharedLog ''Strategy 1: Selector-based search'' ''info'',
          SharedLog ''Strategy failed: SyntaxError'' ''error'',
          SharedLog ''Strategy 2: Text-based search'' ''info'',
          SharedLog ''Strategy failed: No matching text found'' ''error'',
          SharedLog ''Strategy 3: ARIA-based search'' ''info'',
          SharedLog ''Strategy failed: No matching ARIA labels found'' ''error'',
          SharedLog ''Strategy 4: Form-based search'' ''info'',
          SharedLog ''Strategy failed: No matching forms found'' ''error'',
          SharedLog ''Strategy 5: API-based approach'' ''info'',
          CallFunction ''markAttendance'',
          SharedLog ''Failed to call markAttendance: not signed in'' ''info'',
          SharedLog ''Strategy failed: No API methods found'' ''error''],
       styles = (\<lambda>_. [])\<rparr>)"
proof -
  have r: "readyState lobby_page w0 = ''complete''" for w0
    by (simp add: lobby_page_def blank_page_def)
  show ?thesis
    by (simp add: performAttendance_def and_then_def waitForPageLoad_def r strategies_def
        lobby_selector lobby_text lobby_aria lobby_form lobby_api or_throw_def
        shared_log_def start_def)
qed

lemma hook_no_match: "no_matching_element hook_page ty"
  unfolding no_matching_element_def
proof (intro conjI allI impI)
  fix w selector elements
  assume "querySelectorAll hook_page w selector = Inr elements"
  then have "elements = []" by (auto simp add: hook_page_def split: if_splits)
  then show "\<forall>element\<in>set elements. \<not> selector_match ty element" by simp
next
  fix w searchText node
  assume "evaluate hook_page w (text_xpath searchText) = Inr (Some node)"
  then show "\<not> isElementClickable (Some node)" by (simp add: hook_page_def blank_page_def)
next
  fix w label element
  assume "querySelector hook_page w (aria_selector label) = Inr (Some element)"
  then show "\<not> isElementClickable (Some element)" by (simp add: hook_page_def blank_page_def)
next
  fix w w' forms form buttons
  assume "element_querySelectorAll hook_page w' form form_button_selector = Inr buttons"
  then have "buttons = []" by (simp add: hook_page_def blank_page_def)
  then show "\<forall>button\<in>set buttons. \<not> form_match ty button" by simp
next
  fix w elements
  assume "querySelectorAll hook_page w attendance_selector = Inr elements"
  then have "elements = []" by (auto simp add: hook_page_def split: if_splits)
  then show "\<forall>element\<in>set elements. \<not> isElementClickable (Some element)" by simp
qed

lemma hook_selector:
  "findAndClickBySelector hook_page ''checkout'' w =
     (Throw ''SyntaxError'', shared_log ''Strategy 1: Selector-based search'' ''info'' w)"
  by (simp add: findAndClickBySelector_def or_throw_def attendanceSelectors_def quoted_def
      hook_page_def)

lemma hook_text:
  "findAndClickByText hook_page ''checkout'' w =
     (Throw ''No matching text found'',
      shared_log ''Strategy 2: Text-based search'' ''info'' w)"
  by (simp add: findAndClickByText_def or_throw_def searchTexts_def hook_page_def blank_page_def)

lemma hook_aria:
  "findAndClickByAria hook_page ''checkout'' w =
     (Throw ''No matching ARIA labels found'',
      shared_log ''Strategy 3: ARIA-based search'' ''info'' w)"
  by (simp add: findAndClickByAria_def or_throw_def ariaLabels_def hook_page_def blank_page_def)

lemma hook_form:
  "findAndClickByForm hook_page ''checkout'' w =
     (Throw ''No matching forms found'',
      shared_log ''Strategy 4: Form-based search'' ''info'' w)"
  by (simp add: findAndClickByForm_def or_throw_def form_search_def hook_page_def)

lemma hook_api:
  "findAndClickByAPI hook_page ''checkout'' w =
     (Ok \<lparr>success = True, method_name = ''api'', extra = (''function'', ''checkIn'')\<rparr>,
      w\<lparr>trace := trace w @
          [SharedLog ''Strategy 5: API-based approach'' ''info'', CallFunction ''checkIn'']\<rparr>)"
  by (simp add: findAndClickByAPI_def or_throw_def api_search_def possibleFunctions_def
      hook_page_def found_def shared_log_def Let_def)

text \<open>
  Claim C2, as amended. Let the page load complete. If the page offers no matching
  element to any strategy and none of the probed page functions can be called without
  throwing, \<open>performAttendance\<close> throws \<open>Could not find <type> button on this page\<close>
  after each of the five strategies has been consulted once, in order, and has failed,
  and the message listener answers the request with
  \<open>{ success: false, error: <that message> }\<close>.
\<close>

theorem exhausted_chain_answers_not_found:
  assumes loads: "\<And>w0. readyState env w0 = ''complete'' \<or> load_fires env w0"
    and page: "no_matching_element env ty"
    and fns: "no_callable_function env"
  shows "fst (performAttendance env ty w) =
       Throw (''Could not find '' @ ty @ '' button on this page'') \<and>
     (\<exists>new. trace (snd (performAttendance env ty w)) = trace w @ new \<and>
        chain_view new =
          [Consulted ''selector'', Failed, Consulted ''text'', Failed,
           Consulted ''aria'', Failed, Consulted ''form'', Failed,
           Consulted ''api'', Failed] \<and>
        trace (messageListener env \<lparr>action = ''performAttendance'', rtype = ty\<rparr> w) =
          trace w @ new @
          [SendResponse (Failure (''Could not find '' @ ty @ '' button on this page''))])"
proof -
  obtain r w' where run: "performAttendance env ty w = (r, w')"
    by (cases "performAttendance env ty w")
  from page_without_match [OF loads page fns, of w] run
  have r: "r = Throw (''Could not find '' @ ty @ '' button on this page'')" by simp
  from chain_outcome [OF run] obtain new
    where all: "trace w' = trace w @ new \<and>
      list_all (\<lambda>e. isElementClickable (Some e)) (touched new) \<and>
      (\<exists>k\<le>5. consulted (chain_view new) = take k strategy_names) \<and>
      (case r of
         Ok d \<Rightarrow>
           success d \<and>
           (\<exists>k<5. method_name d = strategy_names ! k \<and>
              chain_view new =
                failed_view (take k strategy_names) @ [Consulted (strategy_names ! k), Succeeded])
       | Throw m \<Rightarrow>
           m = ''Could not find '' @ ty @ '' button on this page'' \<and>
           chain_view new = failed_view strategy_names
       | Pending \<Rightarrow>
           hangs env \<or> (readyState env (shared_log (''Attempting '' @ ty @ ''...'') ''info'' w)
                          \<noteq> ''complete'' \<and>
                        \<not> load_fires env (shared_log (''Attempting '' @ ty @ ''...'') ''info'' w)))"
    ..
  from all have t: "trace w' = trace w @ new" by (rule conjunct1)
  from all have out: "(case r of
         Ok d \<Rightarrow>
           success d \<and>
           (\<exists>k<5. method_name d = strategy_names ! k \<and>
              chain_view new =
                failed_view (take k strategy_names) @ [Consulted (strategy_names ! k), Succeeded])
       | Throw m \<Rightarrow>
           m = ''Could not find '' @ ty @ '' button on this page'' \<and>
           chain_view new = failed_view strategy_names
       | Pending \<Rightarrow>
           hangs env \<or> (readyState env (shared_log (''Attempting '' @ ty @ ''...'') ''info'' w)
                          \<noteq> ''complete'' \<and>
                        \<not> load_fires env (shared_log (''Attempting '' @ ty @ ''...'') ''info'' w)))"
    by (elim conjE)
  from out r have view: "chain_view new = failed_view strategy_names" by simp
  have listener: "messageListener env \<lparr>action = ''performAttendance'', rtype = ty\<rparr> w =
      w'\<lparr>trace := trace w' @
        [SendResponse (Failure (''Could not find '' @ ty @ '' button on this page''))]\<rparr>"
    using run r by (simp add: messageListener_def)
  have "trace (messageListener env \<lparr>action = ''performAttendance'', rtype = ty\<rparr> w) =
      trace w @ new @
      [SendResponse (Failure (''Could not find '' @ ty @ '' button on this page''))]"
    unfolding listener using t by simp
  moreover have "chain_view new =
          [Consulted ''selector'', Failed, Consulted ''text'', Failed,
           Consulted ''aria'', Failed, Consulted ''form'', Failed,
           Consulted ''api'', Failed]"
    using view by (simp add: strategy_names_def)
  ultimately show ?thesis using run r t by (intro conjI exI [of _ new]) simp_all
qed

text \<open>
  A check-out request on the page that shows the form to check in: the hidden button
  \<open>Check Out\<close> and the visible button \<open>Check In\<close> are passed over, \<open>markAttendance\<close>
  throws, and the listener answers
  \<open>{ success: false, error: "Could not find checkout button on this page" }\<close>.
\<close>

theorem exhausted_chain_answers_not_found_witness:
  "(\<forall>w0. readyState lobby_page w0 = ''complete'' \<or> load_fires lobby_page w0) \<and>
   no_matching_element lobby_page ''checkout'' \<and>
   no_callable_function lobby_page \<and>
   trace (messageListener lobby_page \<lparr>action = ''performAttendance'', rtype = ''checkout''\<rparr>
            start) =
     [SharedLog ''Attempting checkout...'' ''info'',
      SharedLog ''Strategy 1: Selector-based search'' ''info'',
      SharedLog ''Strategy failed: SyntaxError'' ''error'',
      SharedLog ''Strategy 2: Text-based search'' ''info'',
      SharedLog ''Strategy failed: No matching text found'' ''error'',
      SharedLog ''Strategy 3: ARIA-based search'' ''info'',
      SharedLog ''Strategy failed: No matching ARIA labels found'' ''error'',
      SharedLog ''Strategy 4: Form-based search'' ''info'',
      SharedLog ''Strategy failed: No matching forms found'' ''error'',
      SharedLog ''Strategy 5: API-based approach'' ''info'',
      CallFunction ''markAttendance'',
      SharedLog ''Failed to call markAttendance: not signed in'' ''info'',
      SharedLog ''Strategy failed: No API methods found'' ''error'',
      SendResponse (Failure ''Could not find checkout button on this page'')]"
proof -
  have t: "trace (snd (performAttendance lobby_page ''checkout'' start)) =
     [SharedLog ''Attempting checkout...'' ''info'',
      SharedLog ''Strategy 1: Selector-based search'' ''info'',
      SharedLog ''Strategy failed: SyntaxError'' ''error'',
      SharedLog ''Strategy 2: Text-based search'' ''info'',
      SharedLog ''Strategy failed: No matching text found'' ''error'',
      SharedLog ''Strategy 3: ARIA-based search'' ''info'',
      SharedLog ''Strategy failed: No matching ARIA labels found'' ''error'',
      SharedLog ''Strategy 4: Form-based search'' ''info'',
      SharedLog ''Strategy failed: No matching forms found'' ''error'',
      SharedLog ''Strategy 5: API-based approach'' ''info'',
      CallFunction ''markAttendance'',
      SharedLog ''Failed to call markAttendance: not signed in'' ''info'',
      SharedLog ''Strategy failed: No API methods found'' ''error'']"
    by (simp add: lobby_chain)
  have s: "trace start = []" by (simp add: start_def)
  from exhausted_chain_answers_not_found
    [of lobby_page "''checkout''" start, OF lobby_loads lobby_no_match lobby_no_function]
  show ?thesis using lobby_loads lobby_no_match lobby_no_function t s by auto
qed

text \<open>
  Claim C2 as stated fails: on a loaded page where no strategy locates any element, but
  which defines a function \<open>checkIn\<close>, a check-out request does not end in the failure.
  The first four strategies fail, the fifth calls \<open>checkIn()\<close>, no element is acted on, and
  the listener answers \<open>{ success: true, method: "api", function: "checkIn" }\<close>.
\<close>

theorem found_without_element_counterexample:
  "(\<forall>w0. readyState hook_page w0 = ''complete'') \<and>
   no_matching_element hook_page ''checkout'' \<and>
   fst (performAttendance hook_page ''checkout'' start) =
     Ok \<lparr>success = True, method_name = ''api'', extra = (''function'', ''checkIn'')\<rparr> \<and>
   touched (trace (snd (performAttendance hook_page ''checkout'' start))) = [] \<and>
   trace (messageListener hook_page \<lparr>action = ''performAttendance'', rtype = ''checkout''\<rparr>
            start) =
     [SharedLog ''Attempting checkout...'' ''info'',
      SharedLog ''Strategy 1: Selector-based search'' ''info'',
      SharedLog ''Strategy failed: SyntaxError'' ''error'',
      SharedLog ''Strategy 2: Text-based search'' ''info'',
      SharedLog ''Strategy failed: No matching text found'' ''error'',
      SharedLog ''Strategy 3: ARIA-based search'' ''info'',
      SharedLog ''Strategy failed: No matching ARIA labels found'' ''error'',
      SharedLog ''Strategy 4: Form-based search'' ''info'',
      SharedLog ''Strategy failed: No matching forms found'' ''error'',
      SharedLog ''Strategy 5: API-based approach'' ''info'',
      CallFunction ''checkIn'',
      SharedLog ''checkout successful via api'' ''success'',
      SendResponse (Result \<lparr>success = True, method_name = ''api'',
                             extra = (''function'', ''checkIn'')\<rparr>)]"
proof -
  have r: "readyState hook_page w0 = ''complete''" for w0
    by (simp add: hook_page_def blank_page_def)
  have run: "performAttendance hook_page ''checkout'' start =
     (Ok \<lparr>success = True, method_name = ''api'', extra = (''function'', ''checkIn'')\<rparr>,
      \<lparr>trace =
         [SharedLog ''Attempting checkout...'' ''info'',
          SharedLog ''Strategy 1: Selector-based search'' ''info'',
          SharedLog ''Strategy failed: SyntaxError'' ''error'',
          SharedLog ''Strategy 2: Text-based search'' ''info'',
          SharedLog ''Strategy failed: No matching text found'' ''error'',
          SharedLog ''Strategy 3: ARIA-based search'' ''info'',
          SharedLog ''Strategy failed: No matching ARIA labels found'' ''error'',
          SharedLog ''Strategy 4: Form-based search'' ''info'',
          SharedLog ''Strategy failed: No matching forms found'' ''error'',
          SharedLog ''Strategy 5: API-based approach'' ''info'',
          CallFunction ''checkIn'',
          SharedLog ''checkout successful via api'' ''success''],
       styles = (\<lambda>_. [])\<rparr>)"
    by (simp add: performAttendance_def and_then_def waitForPageLoad_def r strategies_def
        hook_selector hook_text hook_aria hook_form hook_api or_throw_def
        shared_log_def start_def)
  show ?thesis
    using r hook_no_match [of "''checkout''"]
    by (simp add: run messageListener_def touched_def)
qed

end
